(* ===== verification/Prelude.thy ===== *)
theory Prelude
  imports Main "HOL-Library.Word"
begin

text \<open>
  Shared vocabulary of the development: machine integers of the C++ code, byte buffers, the
  exceptions the code throws, the error monad in which decoders are written, the conversion
  between C++ strings (\<open>char\<close>) and buffer contents (\<open>uint8_t\<close>), and the word lemmas on which
  the encoders and decoders of \<^verbatim>\<open>src/src/cbor.cpp\<close> rest.

  Two collections are declared here: \<open>exn_simps\<close> (the error monad) and \<open>byte_simps\<close>
  (conversions between strings, bytes and words).
\<close>

unbundle bit_operations_syntax

named_theorems exn_simps "simplification of the exception monad"
named_theorems byte_simps "strings, bytes and big-endian words"

section \<open>Types\<close>

type_synonym byte = "8 word"
type_synonym u16 = "16 word"
type_synonym u32 = "32 word"
type_synonym u64 = "64 word"
type_synonym buffer = "byte list"

text \<open>
  The exceptions of the C++ standard library that the code throws. The payload is the text
  \<open>what()\<close> returns.
\<close>

datatype exn = Domain_error string | Out_of_range string

text \<open>
  A decoder consumes a prefix of the bytes between its iterator and the end of the buffer. The
  iterator pair \<open>(b, e)\<close> of the code is the list of bytes that remain: \<open>b == e\<close> is the empty
  list, \<open>*b\<close> its head, \<open>++b\<close> its tail. A thrown exception is \<open>Inl\<close>.
\<close>

type_synonym 'a decoder = "buffer \<Rightarrow> exn + ('a \<times> buffer)"

section \<open>The exception monad\<close>

definition bindE :: "exn + 'a \<Rightarrow> ('a \<Rightarrow> exn + 'b) \<Rightarrow> exn + 'b" where
  "bindE m f = (case m of Inl e \<Rightarrow> Inl e | Inr x \<Rightarrow> f x)"

lemma bindE_simps [simp, exn_simps]:
  "bindE (Inl e) f = Inl e"
  "bindE (Inr x) f = f x"
  by (simp_all add: bindE_def)

lemma bindE_eq_Inr [exn_simps]:
  "bindE m f = Inr y \<longleftrightarrow> (\<exists>x. m = Inr x \<and> f x = Inr y)"
  by (cases m) simp_all

lemma bindE_eq_Inl [exn_simps]:
  "bindE m f = Inl e \<longleftrightarrow> m = Inl e \<or> (\<exists>x. m = Inr x \<and> f x = Inl e)"
  by (cases m) simp_all

lemma bindE_cong [fundef_cong]:
  "m = m' \<Longrightarrow> (\<And>x. m' = Inr x \<Longrightarrow> f x = f' x) \<Longrightarrow> bindE m f = bindE m' f'"
  by (cases m') simp_all

lemma bindE_assoc: "bindE (bindE m f) g = bindE m (\<lambda>x. bindE (f x) g)"
  by (cases m) simp_all

section \<open>Strings and bytes\<close>

definition bytes_of :: "string \<Rightarrow> buffer" where
  "bytes_of s = map of_char s"

definition string_of :: "buffer \<Rightarrow> string" where
  "string_of bs = map (\<lambda>b. char_of (unat b)) bs"

lemma of_char_unat [byte_simps]: "unat (of_char c :: byte) = of_char c"
proof -
  have "(of_char c :: nat) < 256" by simp
  then have "unat (of_nat (of_char c :: nat) :: byte) = of_char c"
    by (simp add: unat_of_nat)
  then show ?thesis by (simp only: of_nat_of_char)
qed

lemma of_char_char_of_unat [byte_simps]: "(of_char (char_of (unat (b :: byte))) :: byte) = b"
proof -
  have "unat b < 256" using unsigned_less [of b, where ?'a = nat] by simp
  then have "(of_char (char_of (unat b) :: char) :: nat) = unat b"
    by simp
  moreover have "(of_char (char_of (unat b) :: char) :: byte)
      = of_nat (of_char (char_of (unat b) :: char))"
    by (simp only: of_nat_of_char)
  ultimately show ?thesis by simp
qed

lemma string_of_bytes_of [simp, byte_simps]: "string_of (bytes_of s) = s"
  by (induction s) (simp_all add: string_of_def bytes_of_def of_char_unat)

lemma bytes_of_string_of [simp, byte_simps]: "bytes_of (string_of bs) = bs"
  by (induction bs) (simp_all add: string_of_def bytes_of_def of_char_char_of_unat)

lemma length_bytes_of [simp]: "length (bytes_of s) = length s"
  by (simp add: bytes_of_def)

lemma length_string_of [simp]: "length (string_of bs) = length bs"
  by (simp add: string_of_def)

lemma bytes_of_append [simp]: "bytes_of (s @ t) = bytes_of s @ bytes_of t"
  by (simp add: bytes_of_def)

lemma bytes_of_simps [simp]: "bytes_of [] = []" "bytes_of (c # s) = of_char c # bytes_of s"
  by (simp_all add: bytes_of_def)

lemma string_of_simps [simp]: "string_of [] = []" "string_of (b # bs) = char_of (unat b) # string_of bs"
  by (simp_all add: string_of_def)

lemma bytes_of_inject [simp]: "bytes_of s = bytes_of t \<longleftrightarrow> s = t"
  by (metis string_of_bytes_of)

lemma string_of_inject [simp]: "string_of s = string_of t \<longleftrightarrow> s = t"
  by (metis bytes_of_string_of)

section \<open>Words\<close>

lemma less_power_not_bit:
  fixes w :: "'a::len word"
  assumes "w < 2 ^ k" "k \<le> n"
  shows "\<not> bit w n"
proof -
  have "take_bit k w = w"
    using assms(1) by (simp add: less_mask_eq take_bit_eq_mask)
  then have "bit w n = bit (take_bit k w) n" by simp
  then show ?thesis using assms(2) by (simp add: bit_take_bit_iff)
qed

lemma drop_bit_type_byte:
  fixes t m :: byte
  assumes "t < 8" "m < 32"
  shows "drop_bit 5 (push_bit 5 t OR m) = t"
  using assms less_power_not_bit [of t 3] less_power_not_bit [of m 5]
  by (auto intro!: bit_word_eqI simp: bit_simps not_le [symmetric])

lemma and_type_byte:
  fixes t m :: byte
  assumes "t < 8" "m < 32"
  shows "(push_bit 5 t OR m) AND 31 = m"
proof -
  have "take_bit 5 (push_bit 5 t OR m) = m"
    using assms less_power_not_bit [of t 3] less_power_not_bit [of m 5]
    by (auto intro!: bit_word_eqI simp: bit_simps)
  moreover have "(push_bit 5 t OR m) AND 31 = take_bit 5 (push_bit 5 t OR m)"
    by (simp add: take_bit_eq_mask mask_eq_exp_minus_1)
  ultimately show ?thesis by simp
qed

text \<open>One step of reading a big-endian number: shift the prefix, or in the next byte.\<close>

lemma push_drop_byte [byte_simps]:
  fixes v :: u64
  shows "push_bit 8 (drop_bit (8 * Suc n) v) OR ucast (ucast (drop_bit (8 * n) v) :: byte)
    = drop_bit (8 * n) v"
proof (rule bit_word_eqI)
  fix i
  assume "i < LENGTH(64)"
  then show "bit (push_bit 8 (drop_bit (8 * Suc n) v)
      OR ucast (ucast (drop_bit (8 * n) v) :: byte)) i = bit (drop_bit (8 * n) v) i"
    by (cases "i < 8") (simp_all add: bit_simps algebra_simps)
qed

end
