(* ===== verification/Cbor_Encode.thy ===== *)
theory Cbor_Encode
  imports Prelude
begin

text \<open>
  The encoder: the \<open>push_*\<close> members of \<open>cbor::buffer\<close> (\<^verbatim>\<open>src/include/cbor/cbor.hpp\<close>,
  \<^verbatim>\<open>src/src/cbor.cpp\<close>) and the variadic constructors \<open>array(...)\<close> and \<open>map(...)\<close>.
  A \<open>buffer\<close> is a \<open>std::vector<uint8_t>\<close>, here a list of bytes; every operation takes the
  buffer and returns it extended. Floating point values are their IEEE bit patterns, as
  \<open>std::bit_cast\<close> gives them. The lemmas show that the encoder only ever appends, and give the
  bytes of each item as an initial byte followed by a big-endian argument.
\<close>

section \<open>Constants and types\<close>

definition cbor_magic_null :: byte where "cbor_magic_null = 0xf6"
definition cbor_magic_true :: byte where "cbor_magic_true = 0xf5"
definition cbor_magic_false :: byte where "cbor_magic_false = 0xf4"
definition cbor_magic_float16 :: byte where "cbor_magic_float16 = 0xf9"
definition cbor_magic_float32 :: byte where "cbor_magic_float32 = 0xfa"
definition cbor_magic_float64 :: byte where "cbor_magic_float64 = 0xfb"
definition cbor_magic_type_array :: u32 where "cbor_magic_type_array = 4"
definition cbor_magic_type_map :: u32 where "cbor_magic_type_map = 5"

lemmas cbor_magic_defs = cbor_magic_null_def cbor_magic_true_def cbor_magic_false_def
  cbor_magic_float16_def cbor_magic_float32_def cbor_magic_float64_def
  cbor_magic_type_array_def cbor_magic_type_map_def

text \<open>\<open>enum class type\<close>: the classes of values a pattern can ask for.\<close>

datatype ctype =
  Type_number | Type_floating | Type_bytes | Type_string | Type_array | Type_map
| Type_tag | Type_boolean | Type_null | Type_any | Type_more | Type_unknown

definition null_value :: buffer where
  "null_value = [0xF6]"

section \<open>Pushing items\<close>

text \<open>
  \<open>push_typed_val(int type, uint64_t value)\<close>. The arithmetic is the C++ one: \<open>type\<close> is an
  \<open>int\<close>, \<open>type | value\<close> is computed at 64 bits, and \<open>push_back\<close> truncates to a byte.
\<close>

definition push_typed_val :: "u32 \<Rightarrow> u64 \<Rightarrow> buffer \<Rightarrow> buffer" where
  "push_typed_val ty value buf = (let ty = push_bit 5 ty in
     if value < 24 then buf @ [ucast (scast ty OR value)]
     else if value < 256 then buf @ [ucast (ty OR 24), ucast value]
     else if value < 65536 then
       buf @ [ucast (ty OR 25), ucast (drop_bit 8 value), ucast value]
     else if value < 4294967296 then
       buf @ [ucast (ty OR 26), ucast (drop_bit 24 value), ucast (drop_bit 16 value),
              ucast (drop_bit 8 value), ucast value]
     else
       buf @ [ucast (ty OR 27), ucast (drop_bit 56 value), ucast (drop_bit 48 value),
              ucast (drop_bit 40 value), ucast (drop_bit 32 value), ucast (drop_bit 24 value),
              ucast (drop_bit 16 value), ucast (drop_bit 8 value), ucast value])"

definition push_null :: "buffer \<Rightarrow> buffer" where
  "push_null buf = buf @ [cbor_magic_null]"

definition push_bool :: "bool \<Rightarrow> buffer \<Rightarrow> buffer" where
  "push_bool v buf = (if v then buf @ [cbor_magic_true] else buf @ [cbor_magic_false])"

text \<open>\<open>push_int(signed long long int)\<close>: the word is read as two's complement.\<close>

definition push_int :: "u64 \<Rightarrow> buffer \<Rightarrow> buffer" where
  "push_int value buf =
     (if value <s 0 then push_typed_val 1 (- (value + 1)) buf else push_typed_val 0 value buf)"

definition push_uint :: "u64 \<Rightarrow> buffer \<Rightarrow> buffer" where
  "push_uint value buf = push_typed_val 0 value buf"

definition push_string :: "string \<Rightarrow> buffer \<Rightarrow> buffer" where
  "push_string s buf = push_typed_val 3 (of_nat (length s)) buf @ bytes_of s"

definition push_float :: "u32 \<Rightarrow> buffer \<Rightarrow> buffer" where
  "push_float bits buf =
     buf @ [cbor_magic_float32] @ map (\<lambda>shift. ucast (drop_bit shift bits)) [24, 16, 8, 0]"

definition push_double :: "u64 \<Rightarrow> buffer \<Rightarrow> buffer" where
  "push_double bits buf = buf @ [cbor_magic_float64]
     @ map (\<lambda>shift. ucast (drop_bit shift bits)) [56, 48, 40, 32, 24, 16, 8, 0]"

definition array_header :: "u64 \<Rightarrow> buffer \<Rightarrow> buffer" where
  "array_header sz buf = push_typed_val cbor_magic_type_array sz buf"

definition map_header :: "u64 \<Rightarrow> buffer \<Rightarrow> buffer" where
  "map_header sz buf = push_typed_val cbor_magic_type_map sz buf"

text \<open>\<open>to_cbor\<close> of a buffer, a range or a value accessor: its bytes, inserted at the end.\<close>

definition to_cbor :: "buffer \<Rightarrow> buffer \<Rightarrow> buffer" where
  "to_cbor this b = b @ this"

section \<open>Variadic constructors\<close>

text \<open>One argument of \<open>array(...)\<close>: the overloads of \<open>push\<close>.\<close>

datatype parm =
  P_uint u64 | P_int u64 | P_bool bool | P_float u32 | P_double u64 | P_str string | P_buf buffer

fun push :: "parm \<Rightarrow> buffer \<Rightarrow> buffer" where
  "push (P_uint i) buf = push_uint i buf"
| "push (P_int i) buf = push_int i buf"
| "push (P_bool v) buf = push_bool v buf"
| "push (P_float v) buf = push_float v buf"
| "push (P_double v) buf = push_double v buf"
| "push (P_str s) buf = push_string s buf"
| "push (P_buf a) buf = to_cbor a buf"

fun push_parms :: "parm list \<Rightarrow> buffer \<Rightarrow> buffer" where
  "push_parms [] buf = buf"
| "push_parms (p # parms) buf = push_parms parms (push p buf)"

definition buffer_array :: "parm list \<Rightarrow> buffer \<Rightarrow> buffer" where
  "buffer_array parms buf =
     (if parms = [] then push_null buf
      else push_parms parms (array_header (of_nat (length parms)) buf))"

text \<open>\<open>map(...)\<close> requires an even number of arguments (a \<open>static_assert\<close>).\<close>

definition buffer_map :: "parm list \<Rightarrow> buffer \<Rightarrow> buffer" where
  "buffer_map parms buf =
     (if parms = [] then push_null buf
      else push_parms parms (map_header (of_nat (length parms) div 2) buf))"

definition push_array :: "parm list \<Rightarrow> buffer \<Rightarrow> buffer" where
  "push_array a buf =
     (if a = [] then push_null buf else push_parms a (array_header (of_nat (length a)) buf))"

text \<open>The free functions \<open>cbor::array\<close> and \<open>cbor::map\<close> start from an empty buffer.\<close>

definition cbor_array :: "parm list \<Rightarrow> buffer" where
  "cbor_array parms = buffer_array parms []"

definition cbor_map :: "parm list \<Rightarrow> buffer" where
  "cbor_map parms = buffer_map parms []"

definition is_null :: "buffer \<Rightarrow> bool" where
  "is_null this \<longleftrightarrow> this = null_value"

section \<open>The encoder appends\<close>

text \<open>
  Every push is an appender: what it adds does not depend on what is there. The contract is a
  locale, interpreted for each of the operations.
\<close>

locale appender =
  fixes op :: "buffer \<Rightarrow> buffer"
  assumes append: "op buf = buf @ op []"
begin

lemma op_append: "op (xs @ ys) = xs @ op ys"
  by (metis append append_assoc)

lemma prefix_kept: "take (length buf) (op buf) = buf"
  by (subst append) simp

lemma length_op: "length (op buf) = length buf + length (op [])"
  by (subst append) simp

end

lemma push_typed_val_append: "push_typed_val ty v buf = buf @ push_typed_val ty v []"
  by (simp add: push_typed_val_def Let_def)

interpretation typed_val: appender "push_typed_val ty v"
  by unfold_locales (rule push_typed_val_append)

lemma push_append: "push p buf = buf @ push p []"
  by (cases p) (simp_all add: push_uint_def push_int_def push_bool_def push_float_def
      push_double_def push_string_def to_cbor_def push_typed_val_append [of _ _ buf])

interpretation parm: appender "push p"
  by unfold_locales (rule push_append)

lemma push_parms_append: "push_parms ps buf = buf @ push_parms ps []"
proof (induction ps arbitrary: buf)
  case Nil
  then show ?case by simp
next
  case (Cons p ps)
  have "push_parms ps (push p buf) = push p buf @ push_parms ps []" by (rule Cons.IH)
  also have "\<dots> = buf @ push p [] @ push_parms ps []" by (simp add: push_append [of p buf])
  also have "push p [] @ push_parms ps [] = push_parms ps (push p [])"
    by (rule Cons.IH [symmetric])
  finally show ?case by simp
qed

interpretation parms: appender "push_parms ps"
  by unfold_locales (rule push_parms_append)

lemma buffer_array_append: "buffer_array ps buf = buf @ buffer_array ps []"
proof (cases "ps = []")
  case False
  have "array_header n buf = buf @ array_header n []" for n
    by (simp add: array_header_def push_typed_val_append [of _ _ buf])
  then show ?thesis using False by (simp add: buffer_array_def parms.op_append)
qed (simp add: buffer_array_def push_null_def)

interpretation varray: appender "buffer_array ps"
  by unfold_locales (rule buffer_array_append)

lemma push_parms_concat: "push_parms ps buf = buf @ concat (map (\<lambda>p. push p []) ps)"
proof (induction ps arbitrary: buf)
  case (Cons p ps)
  then show ?case by (simp add: push_append [of p buf])
qed simp

section \<open>Big-endian arguments\<close>

text \<open>The argument bytes of an item: the \<open>n\<close> low bytes of a word, most significant first.\<close>

fun be_bytes :: "nat \<Rightarrow> u64 \<Rightarrow> buffer" where
  "be_bytes 0 v = []"
| "be_bytes (Suc n) v = ucast (drop_bit (8 * n) v) # be_bytes n v"

lemma length_be_bytes [simp]: "length (be_bytes n v) = n"
  by (induction n) simp_all

lemma be_bytes_unfold:
  "be_bytes (Suc 0) v = [ucast v]"
  "be_bytes 2 v = [ucast (drop_bit 8 v), ucast v]"
  "be_bytes 4 v = [ucast (drop_bit 24 v), ucast (drop_bit 16 v), ucast (drop_bit 8 v), ucast v]"
  "be_bytes 8 v = [ucast (drop_bit 56 v), ucast (drop_bit 48 v), ucast (drop_bit 40 v),
     ucast (drop_bit 32 v), ucast (drop_bit 24 v), ucast (drop_bit 16 v), ucast (drop_bit 8 v),
     ucast v]"
  by (simp_all add: numeral_eq_Suc)

text \<open>The number of argument bytes and the five low bits of the initial byte.\<close>

definition arg_len :: "u64 \<Rightarrow> nat" where
  "arg_len v = (if v < 24 then 0 else if v < 256 then 1 else if v < 65536 then 2
     else if v < 4294967296 then 4 else 8)"

definition arg_minor :: "u64 \<Rightarrow> byte" where
  "arg_minor v = (if v < 24 then ucast v else if v < 256 then 24 else if v < 65536 then 25
     else if v < 4294967296 then 26 else 27)"

lemma ucast_type_or: "(ucast (push_bit 5 ty OR m) :: byte) = push_bit 5 (ucast ty) OR ucast m"
  for ty m :: u32
  by (auto intro!: bit_word_eqI simp: bit_simps)

lemma ucast_type_or_scast:
  "(ucast (scast (push_bit 5 ty) OR v) :: byte) = push_bit 5 (ucast ty) OR ucast v"
  for ty :: u32 and v :: u64
  by (auto intro!: bit_word_eqI simp: bit_simps)

text \<open>The layout \<open>push_typed_val\<close> produces, in one equation.\<close>

lemma push_typed_val_layout:
  "push_typed_val ty v [] = (push_bit 5 (ucast ty) OR arg_minor v) # be_bytes (arg_len v) v"
  by (simp add: push_typed_val_def Let_def arg_len_def arg_minor_def ucast_type_or
      ucast_type_or_scast be_bytes_unfold)

lemma arg_minor_less: "arg_minor v < 32"
proof (cases "v < 24")
  case True
  then have "unat v < 24" by (simp add: word_less_nat_alt)
  then have "unat (ucast v :: byte) < 24" by (simp add: unsigned_ucast_eq take_bit_nat_def)
  then have "(ucast v :: byte) < 32" by (simp add: word_less_nat_alt)
  with True show ?thesis by (simp add: arg_minor_def)
qed (simp add: arg_minor_def)

end
