(* ===== verification/Env.thy ===== *)
theory Env
  imports Cbor_Encode
begin

text \<open>
  Handles (\<^verbatim>\<open>src/include/thespian/handle.hpp\<close>), trace channels (\<^verbatim>\<open>trace.hpp\<close>) and the environment an actor
  carries (\<^verbatim>\<open>env.hpp\<close>): the set of enabled trace channels, the trace handler, and four dictionaries. An
  actor's address is its instance id, which the code assigns from a counter and never reuses. A
  weak pointer is the address it was made from; whether it is expired depends on the system.
\<close>

section \<open>Handles\<close>

type_synonym pid = nat

record handle =
  h_ref :: "pid option"
  h_id :: nat

definition null_handle :: handle where
  "null_handle = \<lparr>h_ref = None, h_id = 0\<rparr>"

text \<open>\<open>result\<close> is \<open>expected<void, error>\<close> and an error is a message.\<close>

type_synonym error = buffer
type_synonym result = "error + unit"

definition ok :: result where
  "ok = Inr ()"

section \<open>Channels\<close>

type_synonym channel_set = "32 word"

datatype channel =
  Ch_send | Ch_receive | Ch_lifetime | Ch_link | Ch_execute | Ch_udp | Ch_tcp | Ch_timer
| Ch_metronome | Ch_endpoint | Ch_signal | Ch_all

fun channel_bits :: "channel \<Rightarrow> channel_set" where
  "channel_bits Ch_send = 1"
| "channel_bits Ch_receive = 2"
| "channel_bits Ch_lifetime = 4"
| "channel_bits Ch_link = 8"
| "channel_bits Ch_execute = 16"
| "channel_bits Ch_udp = 32"
| "channel_bits Ch_tcp = 64"
| "channel_bits Ch_timer = 128"
| "channel_bits Ch_metronome = 256"
| "channel_bits Ch_endpoint = 512"
| "channel_bits Ch_signal = 1024"
| "channel_bits Ch_all = 0x7fffffff"

section \<open>The environment\<close>

text \<open>\<open>'c\<close> is the type of the user's function objects; the trace handler is one of them.\<close>

record 'c env_t =
  env_s :: "string \<rightharpoonup> string"
  env_b :: "string \<rightharpoonup> bool"
  env_i :: "string \<rightharpoonup> u64"
  env_h :: "string \<rightharpoonup> handle"
  trace_channels :: channel_set
  trace_handler :: "'c option"

definition env_init :: "'c env_t" where
  "env_init = \<lparr>env_s = Map.empty, env_b = Map.empty, env_i = Map.empty, env_h = Map.empty,
     trace_channels = 0, trace_handler = None\<rparr>"

definition enable_all_channels :: "'c env_t \<Rightarrow> 'c env_t" where
  "enable_all_channels e = e\<lparr>trace_channels := channel_bits Ch_all\<rparr>"

definition disable_all_channels :: "'c env_t \<Rightarrow> 'c env_t" where
  "disable_all_channels e = e\<lparr>trace_channels := 0\<rparr>"

definition enable :: "channel \<Rightarrow> 'c env_t \<Rightarrow> 'c env_t" where
  "enable c e = e\<lparr>trace_channels := trace_channels e OR channel_bits c\<rparr>"

definition disable :: "channel \<Rightarrow> 'c env_t \<Rightarrow> 'c env_t" where
  "disable c e = e\<lparr>trace_channels := trace_channels e XOR channel_bits c\<rparr>"

definition enabled :: "channel \<Rightarrow> 'c env_t \<Rightarrow> bool" where
  "enabled c e \<longleftrightarrow> trace_channels e AND channel_bits c \<noteq> 0"

definition on_trace :: "'c option \<Rightarrow> 'c env_t \<Rightarrow> 'c option \<times> 'c env_t" where
  "on_trace h e = (trace_handler e, e\<lparr>trace_handler := h\<rparr>)"

text \<open>
  The four dictionaries return references through \<open>operator[]\<close>, which inserts a default. A read is
  the value and the environment after the insertion; an assignment through the reference is a map
  update. The \<open>const\<close> overload of \<open>proc\<close> throws when the key is absent.
\<close>

definition ref_at :: "'v \<Rightarrow> string \<Rightarrow> (string \<rightharpoonup> 'v) \<Rightarrow> 'v \<times> (string \<rightharpoonup> 'v)" where
  "ref_at d k m = (case m k of Some v \<Rightarrow> (v, m) | None \<Rightarrow> (d, m(k \<mapsto> d)))"

definition env_is :: "string \<Rightarrow> 'c env_t \<Rightarrow> bool \<times> 'c env_t" where
  "env_is k e = (case ref_at False k (env_b e) of (v, m) \<Rightarrow> (v, e\<lparr>env_b := m\<rparr>))"

definition env_num :: "string \<Rightarrow> 'c env_t \<Rightarrow> u64 \<times> 'c env_t" where
  "env_num k e = (case ref_at 0 k (env_i e) of (v, m) \<Rightarrow> (v, e\<lparr>env_i := m\<rparr>))"

definition env_str :: "string \<Rightarrow> 'c env_t \<Rightarrow> string \<times> 'c env_t" where
  "env_str k e = (case ref_at [] k (env_s e) of (v, m) \<Rightarrow> (v, e\<lparr>env_s := m\<rparr>))"

definition env_proc :: "string \<Rightarrow> 'c env_t \<Rightarrow> handle \<times> 'c env_t" where
  "env_proc k e = (case ref_at null_handle k (env_h e) of (v, m) \<Rightarrow> (v, e\<lparr>env_h := m\<rparr>))"

definition env_proc_const :: "string \<Rightarrow> 'c env_t \<Rightarrow> exn + handle" where
  "env_proc_const k e =
     (case env_h e k of Some h \<Rightarrow> Inr h | None \<Rightarrow> Inl (Out_of_range ''map::at''))"

section \<open>Channel lemmas\<close>

lemma channel_bits_nonzero [simp]: "channel_bits c \<noteq> 0"
  by (cases c) simp_all

text \<open>Every channel but \<open>all\<close> is a single bit, and different channels are different bits.\<close>

fun channel_no :: "channel \<Rightarrow> nat" where
  "channel_no Ch_send = 0"
| "channel_no Ch_receive = 1"
| "channel_no Ch_lifetime = 2"
| "channel_no Ch_link = 3"
| "channel_no Ch_execute = 4"
| "channel_no Ch_udp = 5"
| "channel_no Ch_tcp = 6"
| "channel_no Ch_timer = 7"
| "channel_no Ch_metronome = 8"
| "channel_no Ch_endpoint = 9"
| "channel_no Ch_signal = 10"
| "channel_no Ch_all = 31"

lemma channel_bits_pow: "c \<noteq> Ch_all \<Longrightarrow> channel_bits c = 2 ^ channel_no c"
  by (cases c) simp_all

lemma channel_no_inject: "channel_no c = channel_no d \<longleftrightarrow> c = d"
  by (cases c; cases d) simp_all

lemma channel_no_less: "channel_no c < 32"
  by (cases c) simp_all

lemma enabled_iff_bit: "c \<noteq> Ch_all \<Longrightarrow> enabled c e \<longleftrightarrow> bit (trace_channels e) (channel_no c)"
  by (simp add: enabled_def channel_bits_pow and_exp_eq_0_iff_not_bit)

lemma bit_channel_bits:
  "c \<noteq> Ch_all \<Longrightarrow> bit (channel_bits c) (channel_no d) \<longleftrightarrow> c = d"
  by (auto simp: channel_bits_pow bit_exp_iff channel_no_inject channel_no_less)

section \<open>Properties\<close>

text \<open>
  Channel switches act on one channel only. Enabling a channel leaves it enabled; disabling
  toggles it, so a channel that is off is switched on by \<open>disable\<close>.
\<close>

theorem channel_switches:
  assumes "c \<noteq> Ch_all" "d \<noteq> Ch_all"
  shows "(enabled d (enable c e) \<longleftrightarrow> d = c \<or> enabled d e) \<and>
    (enabled d (disable c e) \<longleftrightarrow> (if d = c then \<not> enabled c e else enabled d e))"
  using assms
  by (auto simp: enabled_iff_bit enable_def disable_def bit_or_iff bit_xor_iff bit_channel_bits)

theorem channel_switches_witness:
  "enabled Ch_send (disable Ch_send (disable Ch_send (enable Ch_send (env_init :: unit env_t))))
     \<and> \<not> enabled Ch_link (enable Ch_send (env_init :: unit env_t))
     \<and> enabled Ch_send (disable Ch_send (env_init :: unit env_t))"
proof -
  have off: "\<not> enabled d (env_init :: unit env_t)" for d by (simp add: enabled_def env_init_def)
  then show ?thesis
    using channel_switches [of Ch_send Ch_link "env_init :: unit env_t"]
      channel_switches [of Ch_send Ch_send "e :: unit env_t" for e] by simp
qed

end
