(* ===== verification/Effects.thy ===== *)
theory Effects
  imports Prelude "HOL-Library.Char_ord" "HOL-Library.List_Lexorder"
begin

text \<open>
  Two pieces of vocabulary the actor theories share. Computations that change a state and may throw:
  the state is kept when an exception is thrown, as in C++. And the ordered containers of the
  standard library the context uses: \<open>std::map\<close> and \<open>std::multimap\<close> as lists sorted by key, equal
  keys in insertion order.
\<close>

section \<open>Stateful computations that may throw\<close>

text \<open>What a C++ computation can throw: a \<open>std::exception\<close> with its text, or anything else.\<close>

datatype thrown = Std_exn string | Other_exn

fun exn_what :: "exn \<Rightarrow> string" where
  "exn_what (Domain_error w) = w"
| "exn_what (Out_of_range w) = w"

definition lift_exn :: "exn + 'a \<Rightarrow> thrown + 'a" where
  "lift_exn r = (case r of Inl e \<Rightarrow> Inl (Std_exn (exn_what e)) | Inr x \<Rightarrow> Inr x)"

lemma lift_exn_simps [simp]:
  "lift_exn (Inl e) = Inl (Std_exn (exn_what e))" "lift_exn (Inr x) = Inr x"
  by (simp_all add: lift_exn_def)

type_synonym ('a, 's) comp = "'s \<Rightarrow> (thrown + 'a) \<times> 's"

definition returnS :: "'a \<Rightarrow> ('a, 's) comp" where
  "returnS x s = (Inr x, s)"

definition throwS :: "thrown \<Rightarrow> ('a, 's) comp" where
  "throwS t s = (Inl t, s)"

definition bindS :: "('a, 's) comp \<Rightarrow> ('a \<Rightarrow> ('b, 's) comp) \<Rightarrow> ('b, 's) comp" where
  "bindS m f s = (case m s of (Inl t, s') \<Rightarrow> (Inl t, s') | (Inr x, s') \<Rightarrow> f x s')"

text \<open>\<open>try { m } catch (t) { h t }\<close>.\<close>

definition catchS :: "('a, 's) comp \<Rightarrow> (thrown \<Rightarrow> ('a, 's) comp) \<Rightarrow> ('a, 's) comp" where
  "catchS m h s = (case m s of (Inl t, s') \<Rightarrow> h t s' | (Inr x, s') \<Rightarrow> (Inr x, s'))"

definition modifyS :: "('s \<Rightarrow> 's) \<Rightarrow> (unit, 's) comp" where
  "modifyS f s = (Inr (), f s)"

definition liftS :: "exn + 'a \<Rightarrow> ('a, 's) comp" where
  "liftS r s = (lift_exn r, s)"

fun forS :: "'a list \<Rightarrow> ('a \<Rightarrow> (unit, 's) comp) \<Rightarrow> (unit, 's) comp" where
  "forS [] f = returnS ()"
| "forS (x # xs) f = bindS (f x) (\<lambda>_. forS xs f)"

lemma comp_simps [simp]:
  "returnS x s = (Inr x, s)"
  "throwS t s = (Inl t, s)"
  "modifyS f s = (Inr (), f s)"
  "liftS r s = (lift_exn r, s)"
  by (simp_all add: returnS_def throwS_def modifyS_def liftS_def)

lemma bindS_Inr: "m s = (Inr x, s') \<Longrightarrow> bindS m f s = f x s'"
  by (simp add: bindS_def)

lemma bindS_Inl: "m s = (Inl t, s') \<Longrightarrow> bindS m f s = (Inl t, s')"
  by (simp add: bindS_def)

lemma bindS_modify: "bindS (modifyS g) f s = f () (g s)"
  by (simp add: bindS_def)

lemma bindS_eqE:
  assumes "bindS m f s = (r, s')"
  obtains (thrown) t where "m s = (Inl t, s')" "r = Inl t"
  | (ok) x s1 where "m s = (Inr x, s1)" "f x s1 = (r, s')"
  using assms by (auto simp: bindS_def split: prod.splits sum.splits)

text \<open>
  A relation between the states before and after that holds of every piece of a computation holds
  of the whole, when it is a preorder.
\<close>

definition keeps :: "('s \<Rightarrow> 's \<Rightarrow> bool) \<Rightarrow> ('a, 's) comp \<Rightarrow> bool" where
  "keeps R m \<longleftrightarrow> (\<forall>s. R s (snd (m s)))"

lemma keepsI: "(\<And>s. R s (snd (m s))) \<Longrightarrow> keeps R m"
  by (simp add: keeps_def)

lemma keepsD: "keeps R m \<Longrightarrow> m s = (r, s') \<Longrightarrow> R s s'"
  by (metis keeps_def snd_conv)

locale state_order =
  fixes R :: "'s \<Rightarrow> 's \<Rightarrow> bool"
  assumes refl: "R s s" and trans: "R s t \<Longrightarrow> R t u \<Longrightarrow> R s u"
begin

lemma keeps_return [intro, simp]: "keeps R (returnS x)"
  by (rule keepsI) (simp add: refl)

lemma keeps_throw [intro, simp]: "keeps R (throwS t)"
  by (rule keepsI) (simp add: refl)

lemma keeps_lift [intro, simp]: "keeps R (liftS r)"
  by (rule keepsI) (simp add: refl)

lemma keeps_modify: "(\<And>s. R s (f s)) \<Longrightarrow> keeps R (modifyS f)"
  by (rule keepsI) simp

lemma keeps_bind [intro]:
  assumes "keeps R m" "\<And>x. keeps R (f x)"
  shows "keeps R (bindS m f)"
proof (rule keepsI)
  fix s
  obtain r s' where m: "m s = (r, s')" by (cases "m s")
  have rs: "R s s'" using keepsD [OF assms(1) m] .
  show "R s (snd (bindS m f s))"
  proof (cases r)
    case (Inl t)
    with m rs show ?thesis by (simp add: bindS_def)
  next
    case (Inr x)
    have "R s' (snd (f x s'))" using assms(2) [of x] by (simp add: keeps_def)
    with m Inr rs show ?thesis by (simp add: bindS_def trans [of s s'])
  qed
qed

lemma keeps_catch [intro]:
  assumes "keeps R m" "\<And>t. keeps R (h t)"
  shows "keeps R (catchS m h)"
proof (rule keepsI)
  fix s
  obtain r s' where m: "m s = (r, s')" by (cases "m s")
  have rs: "R s s'" using keepsD [OF assms(1) m] .
  show "R s (snd (catchS m h s))"
  proof (cases r)
    case (Inl t)
    have "R s' (snd (h t s'))" using assms(2) [of t] by (simp add: keeps_def)
    with m Inl rs show ?thesis by (simp add: catchS_def trans [of s s'])
  next
    case (Inr x)
    with m rs show ?thesis by (simp add: catchS_def)
  qed
qed

text \<open>Going on with the outcome of a computation, an exception included.\<close>

lemma keeps_seq:
  assumes "keeps R m" "\<And>r. keeps R (f r)"
  shows "keeps R (\<lambda>s. case m s of (r, s') \<Rightarrow> f r s')"
proof (rule keepsI)
  fix s
  obtain r s' where m: "m s = (r, s')" by (cases "m s")
  have "R s s'" by (rule keepsD [OF assms(1) m])
  moreover have "R s' (snd (f r s'))" using assms(2) [of r] by (simp add: keeps_def)
  ultimately show "R s (snd (case m s of (r, s') \<Rightarrow> f r s'))" using m trans by simp
qed

lemma keeps_after:
  assumes "\<And>s. R s (g s)" "\<And>x. keeps R (f x)"
  shows "keeps R (\<lambda>s. f (h s) (g s))"
proof (rule keepsI)
  fix s
  have "R (g s) (snd (f (h s) (g s)))" using assms(2) [of "h s"] by (simp add: keeps_def)
  with assms(1) [of s] show "R s (snd (f (h s) (g s)))" by (rule trans)
qed

lemma keeps_if [intro]: "keeps R m \<Longrightarrow> keeps R m' \<Longrightarrow> keeps R (if b then m else m')"
  by simp

lemma keeps_case_sum [intro]:
  "(\<And>e. keeps R (f e)) \<Longrightarrow> (\<And>x. keeps R (g x)) \<Longrightarrow>
     keeps R (case r of Inl e \<Rightarrow> f e | Inr x \<Rightarrow> g x)"
  by (cases r) simp_all

lemma keeps_for [intro]: "(\<And>x. x \<in> set xs \<Longrightarrow> keeps R (f x)) \<Longrightarrow> keeps R (forS xs f)"
  by (induction xs) auto

end

section \<open>Ordered maps and multimaps\<close>

fun omap_update :: "'k::linorder \<Rightarrow> 'v \<Rightarrow> ('k \<times> 'v) list \<Rightarrow> ('k \<times> 'v) list" where
  "omap_update k v [] = [(k, v)]"
| "omap_update k v ((k', v') # m) =
     (if k < k' then (k, v) # (k', v') # m
      else if k = k' then (k, v) # m
      else (k', v') # omap_update k v m)"

definition omap_erase :: "'k \<Rightarrow> ('k \<times> 'v) list \<Rightarrow> ('k \<times> 'v) list" where
  "omap_erase k m = filter (\<lambda>(k', _). k' \<noteq> k) m"

definition mmap_emplace :: "'k::linorder \<Rightarrow> 'v \<Rightarrow> ('k \<times> 'v) list \<Rightarrow> ('k \<times> 'v) list" where
  "mmap_emplace k v m =
     takeWhile (\<lambda>(k', _). k' \<le> k) m @ (k, v) # dropWhile (\<lambda>(k', _). k' \<le> k) m"

definition mmap_equal_range :: "'k \<Rightarrow> ('k \<times> 'v) list \<Rightarrow> 'v list" where
  "mmap_equal_range k m = map snd (filter (\<lambda>(k', _). k' = k) m)"

lemma map_of_omap_update: "map_of (omap_update k v m) = (map_of m)(k \<mapsto> v)"
  if "sorted (map fst m)" "distinct (map fst m)"
  using that
proof (induction m)
  case (Cons e m)
  obtain k' v' where e: "e = (k', v')" by (cases e)
  have "map_of m k = None" if "k < k'"
    using Cons.prems e that by (force simp: map_of_eq_None_iff)
  with Cons e show ?case by (auto simp: fun_eq_iff)
qed simp

lemma omap_update_keys: "set (map fst (omap_update k v m)) = insert k (set (map fst m))"
  by (induction k v m rule: omap_update.induct) auto

lemma omap_update_sorted:
  "sorted (map fst m) \<Longrightarrow> distinct (map fst m) \<Longrightarrow>
     sorted (map fst (omap_update k v m)) \<and> distinct (map fst (omap_update k v m))"
proof (induction k v m rule: omap_update.induct)
  case (2 k v k' v' m)
  then show ?case using omap_update_keys [of k v m] by (auto simp: less_imp_le)
qed simp

lemma map_of_omap_erase: "map_of (omap_erase k m) = (map_of m)(k := None)"
  by (induction m) (auto simp: omap_erase_def)

lemma omap_erase_sorted:
  "sorted (map fst m) \<Longrightarrow> distinct (map fst m) \<Longrightarrow>
     sorted (map fst (omap_erase k m)) \<and> distinct (map fst (omap_erase k m))"
  by (induction m) (auto simp: omap_erase_def)

lemma length_mmap_emplace: "length (mmap_emplace k v m) = Suc (length m)"
proof -
  have "length (takeWhile P m) + length (dropWhile P m) = length m" for P
    by (metis length_append takeWhile_dropWhile_id)
  then show ?thesis by (simp add: mmap_emplace_def)
qed

lemma set_mmap_emplace: "set (mmap_emplace k v m) = insert (k, v) (set m)"
proof -
  have "set (takeWhile P m) \<union> set (dropWhile P m) = set m" for P
    by (metis set_append takeWhile_dropWhile_id)
  then show ?thesis by (auto simp: mmap_emplace_def)
qed

lemma mmap_emplace_range:
  assumes "sorted (map fst m)"
  shows "mmap_equal_range k (mmap_emplace k v m) = mmap_equal_range k m @ [v]"
proof -
  let ?P = "\<lambda>(k', _). k' \<le> k"
  have "filter (\<lambda>(k', _). k' = k) (dropWhile ?P m) = []"
    using assms by (induction m) (auto simp: filter_empty_conv)
  moreover have "filter (\<lambda>(k', _). k' = k) m = filter (\<lambda>(k', _). k' = k) (takeWhile ?P m)
      @ filter (\<lambda>(k', _). k' = k) (dropWhile ?P m)"
    by (metis filter_append takeWhile_dropWhile_id)
  ultimately show ?thesis by (simp add: mmap_equal_range_def mmap_emplace_def)
qed

end
