(* ===== verification/Stream_Decoder.thy ===== *)
theory Stream_Decoder
  imports Prelude
begin

text \<open>
  The contract between a decoder and a caller that feeds it a byte stream in pieces (the socket
  reader of \<open>endpoint::connection\<close>). A decoder that succeeds consumes a prefix of its input and
  is not affected by what follows; one that fails for another reason than lack of bytes keeps
  failing when more bytes arrive. A caller can therefore treat "cbor message too short" as
  "wait for more", and only that. The contract is stated at one input (\<open>stable_at\<close>), shown
  closed under the sequencing the decoders are built with, and packaged as a locale.
\<close>

definition too_short :: exn where
  "too_short = Domain_error ''cbor message too short''"

definition stable_at :: "'a decoder \<Rightarrow> buffer \<Rightarrow> bool" where
  "stable_at dec b \<longleftrightarrow>
     (\<forall>v b'. dec b = Inr (v, b') \<longrightarrow>
        (\<exists>p. b = p @ b') \<and> (\<forall>c. dec (b @ c) = Inr (v, b' @ c))) \<and>
     (\<forall>e. dec b = Inl e \<longrightarrow> e \<noteq> too_short \<longrightarrow> (\<forall>c. dec (b @ c) = Inl e))"

lemma stable_atI:
  assumes "\<And>v b'. dec b = Inr (v, b') \<Longrightarrow> \<exists>p. b = p @ b'"
    and "\<And>v b' c. dec b = Inr (v, b') \<Longrightarrow> dec (b @ c) = Inr (v, b' @ c)"
    and "\<And>e c. dec b = Inl e \<Longrightarrow> e \<noteq> too_short \<Longrightarrow> dec (b @ c) = Inl e"
  shows "stable_at dec b"
  using assms by (simp add: stable_at_def)

lemma stable_at_return [intro]: "stable_at (\<lambda>b. Inr (v, b)) b"
  by (simp add: stable_at_def)

lemma stable_at_throw [intro]: "stable_at (\<lambda>b. Inl e) b"
  by (simp add: stable_at_def)

lemma stable_at_bind [intro]:
  assumes d: "stable_at d b"
    and f: "\<And>v b'. d b = Inr (v, b') \<Longrightarrow> stable_at (f v) b'"
  shows "stable_at (\<lambda>b. bindE (d b) (\<lambda>(v, b). f v b)) b"
proof (rule stable_atI)
  fix v b'
  assume "bindE (d b) (\<lambda>(v, b). f v b) = Inr (v, b')"
  then obtain w m where dm: "d b = Inr (w, m)" and fm: "f w m = Inr (v, b')"
    by (auto simp: bindE_eq_Inr)
  from d dm obtain p where p: "b = p @ m" by (auto simp: stable_at_def)
  from f [OF dm] fm obtain q where q: "m = q @ b'" by (auto simp: stable_at_def)
  from p q show "\<exists>p. b = p @ b'" by (metis append_assoc)
  fix c
  from d dm have "d (b @ c) = Inr (w, m @ c)" by (auto simp: stable_at_def)
  moreover from f [OF dm] fm have "f w (m @ c) = Inr (v, b' @ c)" by (auto simp: stable_at_def)
  ultimately show "bindE (d (b @ c)) (\<lambda>(v, b). f v b) = Inr (v, b' @ c)" by simp
next
  fix e c
  assume err: "bindE (d b) (\<lambda>(v, b). f v b) = Inl e" and ne: "e \<noteq> too_short"
  show "bindE (d (b @ c)) (\<lambda>(v, b). f v b) = Inl e"
  proof (cases "d b")
    case (Inl e')
    with err ne d show ?thesis by (auto simp: stable_at_def)
  next
    case (Inr r)
    then obtain w m where dm: "d b = Inr (w, m)" by (cases r) auto
    with err have "f w m = Inl e" by simp
    with f [OF dm] ne have "f w (m @ c) = Inl e" by (auto simp: stable_at_def)
    moreover from d dm have "d (b @ c) = Inr (w, m @ c)" by (auto simp: stable_at_def)
    ultimately show ?thesis by simp
  qed
qed

lemma stable_at_if [intro]:
  assumes "P \<Longrightarrow> stable_at d b" "\<not> P \<Longrightarrow> stable_at d' b"
  shows "stable_at (\<lambda>b. if P then d b else d' b) b"
  using assms by (cases P) simp_all

lemma stable_at_cong: "(\<And>b. d b = d' b) \<Longrightarrow> stable_at d' b \<Longrightarrow> stable_at d b"
  by (simp add: stable_at_def)

locale stream_decoder =
  fixes dec :: "'a decoder"
  assumes stable: "stable_at dec b"
begin

lemma suffix: "dec b = Inr (v, b') \<Longrightarrow> \<exists>p. b = p @ b'"
  using stable [of b] by (simp add: stable_at_def)

lemma extend: "dec b = Inr (v, b') \<Longrightarrow> dec (b @ c) = Inr (v, b' @ c)"
  using stable [of b] by (simp add: stable_at_def)

lemma error_stable: "dec b = Inl e \<Longrightarrow> e \<noteq> too_short \<Longrightarrow> dec (b @ c) = Inl e"
  using stable [of b] by (simp add: stable_at_def)

text \<open>A proper prefix of a complete item is reported as too short, never as anything else.\<close>

lemma partial_too_short:
  assumes whole: "dec (b @ c) = Inr (v, [])" and "c \<noteq> []"
  shows "dec b = Inl too_short"
proof (cases "dec b")
  case (Inl e)
  then show ?thesis using error_stable [OF Inl] whole by fastforce
next
  case (Inr r)
  obtain w m where "r = (w, m)" by (cases r)
  with Inr have "dec (b @ c) = Inr (w, m @ c)" by (simp add: extend)
  with whole \<open>c \<noteq> []\<close> show ?thesis by simp
qed

end

text \<open>
  Decoders that, in addition, never succeed without consuming a byte: the loops over them
  terminate.
\<close>

locale progress_decoder = stream_decoder +
  assumes progress: "dec b = Inr (v, b') \<Longrightarrow> length b' < length b"
begin

lemma rest_bound: "dec b = Inr (v, b') \<Longrightarrow> length b' \<le> length b - 1"
  using progress [of b v b'] by linarith

lemma empty_fails: "dec [] \<noteq> Inr r"
  using progress [of "[]"] by (cases r) auto

lemma empty_too_short: "dec p = Inr (v, []) \<Longrightarrow> dec [] = Inl too_short"
  using partial_too_short [of "[]" p v] empty_fails by (cases p) auto

end

end
