(* ===== verification/Cbor_Decode.thy ===== *)
theory Cbor_Decode
  imports Cbor_Encode Stream_Decoder
begin

text \<open>
  The decoder of \<^verbatim>\<open>src/src/cbor.cpp\<close>: reading initial bytes and integer arguments, strings,
  headers of arrays and maps, and skipping whole values. A decoder returns the bytes that remain,
  or the exception the code throws. The skipper recurses through arrays and maps with no bound
  on the counts the headers announce; its termination is proved from the fact that every value
  takes at least one byte.
\<close>

section \<open>Integers\<close>

fun decode_int_length_recurse :: "nat \<Rightarrow> buffer \<Rightarrow> u64 \<Rightarrow> exn + (u64 \<times> buffer)" where
  "decode_int_length_recurse len [] i = Inl too_short"
| "decode_int_length_recurse len (x # b) i =
     (let i = i OR ucast x in
      if len = 1 then Inr (i, b) else decode_int_length_recurse (len - 1) b (push_bit 8 i))"

definition decode_int_length :: "nat \<Rightarrow> u64 decoder" where
  "decode_int_length len b = decode_int_length_recurse len b 0"

definition decode_pint :: "byte \<Rightarrow> u64 decoder" where
  "decode_pint ty b =
     (if ty < 24 then Inr (ucast ty, b)
      else if ty = 24 then decode_int_length 1 b
      else if ty = 25 then decode_int_length 2 b
      else if ty = 26 then decode_int_length 4 b
      else if ty = 27 then decode_int_length 8 b
      else Inl (Domain_error ''cbor invalid integer type''))"

text \<open>\<open>-(decode_pint(...) + 1)\<close>, computed unsigned and read as \<open>int64_t\<close>.\<close>

definition decode_nint :: "byte \<Rightarrow> u64 decoder" where
  "decode_nint ty b = bindE (decode_pint ty b) (\<lambda>(v, b). Inr (- (v + 1), b))"

section \<open>Strings and initial bytes\<close>

text \<open>The loop that moves the iterator over \<open>len\<close> bytes, in \<open>decode_string\<close> and \<open>skip_string\<close>.\<close>

fun advance :: "u64 \<Rightarrow> unit decoder" where
  "advance len [] = (if len = 0 then Inr ((), []) else Inl too_short)"
| "advance len (x # b) = (if len = 0 then Inr ((), x # b) else advance (len - 1) b)"

definition decode_string :: "byte \<Rightarrow> string decoder" where
  "decode_string ty b =
     bindE (decode_pint ty b) (\<lambda>(len, s).
     bindE (advance len s) (\<lambda>(_, b). Inr (string_of (take (unat len) s), b)))"

definition decode_bytes :: "byte \<Rightarrow> string decoder" where
  "decode_bytes ty b = decode_string ty b"

definition decode_type :: "(byte \<times> byte \<times> byte) decoder" where
  "decode_type b = (case b of [] \<Rightarrow> Inl too_short
     | ty # b \<Rightarrow> Inr ((drop_bit 5 ty, ty AND 31, ty), b))"

definition is_float_type :: "byte \<Rightarrow> bool" where
  "is_float_type ty \<longleftrightarrow>
     ty = cbor_magic_float16 \<or> ty = cbor_magic_float32 \<or> ty = cbor_magic_float64"

section \<open>Headers\<close>

definition decode_range_header :: "u64 decoder" where
  "decode_range_header b =
     bindE (decode_type b) (\<lambda>((major, minor, ty), b).
       if ty = 0xf6 then Inr (0, b)
       else bindE (decode_pint minor b) (\<lambda>(sz, b).
         if major = 4 then Inr (sz, b)
         else if major = 5 then Inr (sz * 2, b)
         else Inl (Domain_error ''cbor unexpected type (expected array or map)'')))"

definition decode_array_header :: "u64 decoder" where
  "decode_array_header b =
     bindE (decode_type b) (\<lambda>((major, minor, ty), b).
       if ty = 0xf6 then Inr (0, b)
       else if major \<noteq> 4 then Inl (Domain_error ''cbor unexpected type (expected array)'')
       else decode_pint minor b)"

definition decode_map_header :: "u64 decoder" where
  "decode_map_header b =
     bindE (decode_type b) (\<lambda>((major, minor, ty), b).
       if ty = 0xf6 then Inr (0, b)
       else if major \<noteq> 5 then Inl (Domain_error ''cbor unexpected type (expected map)'')
       else decode_pint minor b)"

section \<open>Skipping values\<close>

definition skip_string :: "byte \<Rightarrow> unit decoder" where
  "skip_string ty b = bindE (decode_pint ty b) (\<lambda>(len, b). advance len b)"

definition skip_bytes :: "byte \<Rightarrow> unit decoder" where
  "skip_bytes ty b = skip_string ty b"

text \<open>
  \<open>skip_value_type\<close>, \<open>skip_value\<close>, \<open>skip_array\<close> and \<open>skip_map\<close> call each other;
  \<open>skip_values\<close> is the loop \<open>while (len) { skip_value(b, e); --len; }\<close> the last two share.
\<close>

function skip_value_type :: "byte \<Rightarrow> byte \<Rightarrow> unit decoder"
  and skip_value :: "unit decoder"
  and skip_array :: "byte \<Rightarrow> unit decoder"
  and skip_map :: "byte \<Rightarrow> unit decoder"
  and skip_values :: "u64 \<Rightarrow> unit decoder"
where
  "skip_value_type major minor b =
     (if major = 0 then bindE (decode_pint minor b) (\<lambda>(_, b). Inr ((), b))
      else if major = 1 then bindE (decode_nint minor b) (\<lambda>(_, b). Inr ((), b))
      else if major = 2 then skip_bytes minor b
      else if major = 3 then skip_string minor b
      else if major = 4 then skip_array minor b
      else if major = 5 then skip_map minor b
      else if major = 6 then Inl (Domain_error ''cbor unsupported type tag'')
      else if major = 7 then
        (if minor \<ge> 24 then bindE (decode_pint minor b) (\<lambda>(_, b). Inr ((), b)) else Inr ((), b))
      else Inl (Domain_error ''cbor unsupported type unknown''))"
| "skip_value b =
     bindE (decode_type b) (\<lambda>(t, b). case t of (major, minor, ty) \<Rightarrow> skip_value_type major minor b)"
| "skip_array ty b = bindE (decode_pint ty b) (\<lambda>(len, b). skip_values len b)"
| "skip_map ty b = bindE (decode_pint ty b) (\<lambda>(len, b). skip_values (len * 2) b)"
| "skip_values len b =
     (if len = 0 then Inr ((), b) else bindE (skip_value b) (\<lambda>(_, b). skip_values (len - 1) b))"
  by pat_completeness auto

section \<open>The integer and string decoders are stream decoders\<close>

lemma decode_int_length_recurse_stable: "stable_at (\<lambda>b. decode_int_length_recurse len b i) b"
proof (induction b arbitrary: len i)
  case Nil
  show ?case by (rule stable_atI) simp_all
next
  case (Cons x b)
  show ?case
  proof (cases "len = 1")
    case False
    let ?d = "\<lambda>b. decode_int_length_recurse (len - 1) b (push_bit 8 (i OR ucast x))"
    have st: "stable_at ?d b" by (rule Cons.IH)
    show ?thesis
    proof (rule stable_atI)
      fix v b'
      assume "decode_int_length_recurse len (x # b) i = Inr (v, b')"
      with False have "?d b = Inr (v, b')" by (simp add: Let_def)
      with st have "\<exists>p. b = p @ b'" by (simp add: stable_at_def)
      then obtain p where "b = p @ b'" by blast
      then have "x # b = (x # p) @ b'" by simp
      then show "\<exists>p. x # b = p @ b'" by blast
    next
      fix v b' c
      assume "decode_int_length_recurse len (x # b) i = Inr (v, b')"
      with False st show "decode_int_length_recurse len ((x # b) @ c) i = Inr (v, b' @ c)"
        by (simp add: stable_at_def Let_def)
    next
      fix e c
      assume "decode_int_length_recurse len (x # b) i = Inl e" "e \<noteq> too_short"
      with False st show "decode_int_length_recurse len ((x # b) @ c) i = Inl e"
        by (simp add: stable_at_def Let_def)
    qed
  qed (simp add: stable_at_def Let_def)
qed

lemma decode_int_length_recurse_shrinks:
  "decode_int_length_recurse len b i = Inr (v, b') \<Longrightarrow> length b' < length b"
  by (induction len b i rule: decode_int_length_recurse.induct)
    (auto simp: Let_def split: if_splits)

lemma decode_int_length_stable [intro]: "stable_at (decode_int_length len) b"
  by (rule stable_at_cong [OF _ decode_int_length_recurse_stable])
    (simp add: decode_int_length_def)

lemma decode_pint_stable [intro]: "stable_at (decode_pint ty) b"
  unfolding decode_pint_def by (intro stable_at_if stable_at_return stable_at_throw
      decode_int_length_stable)

interpretation pint: stream_decoder "decode_pint ty"
  by unfold_locales (rule decode_pint_stable)

lemma decode_nint_stable [intro]: "stable_at (decode_nint ty) b"
  unfolding decode_nint_def by (intro stable_at_bind decode_pint_stable stable_at_return)

interpretation nint: stream_decoder "decode_nint ty"
  by unfold_locales (rule decode_nint_stable)

lemma advance_eq:
  "advance len b =
     (if unat len \<le> length b then Inr ((), drop (unat len) b) else Inl too_short)"
proof (induction len b rule: advance.induct)
  case (2 len x b)
  show ?case
  proof (cases "len = 0")
    case False
    then have "unat len = Suc (unat (len - 1))"
      by (simp add: unat_minus_one unat_gt_0)
    with False 2 show ?thesis by simp
  qed simp
qed (simp add: unat_0_iff)

lemma advance_stable [intro]: "stable_at (advance len) b"
  by (rule stable_atI)
    (auto simp: advance_eq split: if_splits intro: append_take_drop_id [symmetric])

lemma decode_string_stable [intro]: "stable_at (decode_string ty) b"
proof -
  have "stable_at (\<lambda>s. bindE (advance len s)
      (\<lambda>(_, b). Inr (string_of (take (unat len) s), b))) s" for len s
    by (rule stable_atI) (auto simp: advance_eq bindE_eq_Inr bindE_eq_Inl split: if_splits
        intro: append_take_drop_id [symmetric])
  then show ?thesis unfolding decode_string_def by (intro stable_at_bind decode_pint_stable)
qed

interpretation str: stream_decoder "decode_string ty"
  by unfold_locales (rule decode_string_stable)

lemma skip_string_stable [intro]: "stable_at (skip_string ty) b"
  unfolding skip_string_def by (intro stable_at_bind decode_pint_stable advance_stable)

lemma decode_type_Inr:
  "decode_type b = Inr ((major, minor, ty), b') \<longleftrightarrow>
     b = ty # b' \<and> major = drop_bit 5 ty \<and> minor = ty AND 31"
  by (auto simp: decode_type_def split: list.splits)

lemma decode_type_stable [intro]: "stable_at decode_type b"
  by (rule stable_atI) (auto simp: decode_type_def split: list.splits)

interpretation dtype: progress_decoder decode_type
  by unfold_locales (auto simp: decode_type_def split: list.splits)

lemma length_le_decode_pint: "decode_pint ty b = Inr (v, b') \<Longrightarrow> length b' \<le> length b"
  by (drule pint.suffix) auto

lemma length_le_decode_nint: "decode_nint ty b = Inr (v, b') \<Longrightarrow> length b' \<le> length b"
  by (drule nint.suffix) auto

lemma length_le_skip_string: "skip_string ty b = Inr (v, b') \<Longrightarrow> length b' \<le> length b"
  using skip_string_stable [of ty b] by (auto simp: stable_at_def)

section \<open>Termination of the skipper\<close>

text \<open>
  On its domain a skipper leaves no more bytes than it was given, and fewer when it skips a
  whole value; so the lexicographic order on the remaining bytes and the call hierarchy
  decreases in every call, whatever the counts in the headers.
\<close>

lemma skip_shrinks_dom:
  "skip_value_type_skip_value_skip_array_skip_map_skip_values_dom (Inl (Inl (major, minor, b)))
     \<Longrightarrow> (\<And>u b'. skip_value_type major minor b = Inr (u, b') \<Longrightarrow> length b' \<le> length b)"
  "skip_value_type_skip_value_skip_array_skip_map_skip_values_dom (Inl (Inr b))
     \<Longrightarrow> (\<And>u b'. skip_value b = Inr (u, b') \<Longrightarrow> length b' < length b)"
  "skip_value_type_skip_value_skip_array_skip_map_skip_values_dom (Inr (Inl (ty, b)))
     \<Longrightarrow> (\<And>u b'. skip_array ty b = Inr (u, b') \<Longrightarrow> length b' \<le> length b)"
  "skip_value_type_skip_value_skip_array_skip_map_skip_values_dom (Inr (Inr (Inl (ty2, b))))
     \<Longrightarrow> (\<And>u b'. skip_map ty2 b = Inr (u, b') \<Longrightarrow> length b' \<le> length b)"
  "skip_value_type_skip_value_skip_array_skip_map_skip_values_dom (Inr (Inr (Inr (len, b))))
     \<Longrightarrow> (\<And>u b'. skip_values len b = Inr (u, b') \<Longrightarrow> length b' \<le> length b)"
proof (induction major minor b and b and ty b and ty2 b and len b
    rule: skip_value_type_skip_value_skip_array_skip_map_skip_values.pinduct)
  case (1 major minor b)
  then show ?case
    by (auto simp: skip_value_type.psimps bindE_eq_Inr skip_bytes_def split: if_splits
        dest: length_le_decode_pint length_le_decode_nint length_le_skip_string)
next
  case (2 b)
  then show ?case by (force simp: skip_value.psimps bindE_eq_Inr decode_type_Inr)
next
  case (3 ty b)
  then obtain len c where d: "decode_pint ty b = Inr (len, c)" "skip_values len c = Inr (u, b')"
    by (auto simp: skip_array.psimps bindE_eq_Inr)
  from "3.IH" [OF d(1) refl d(2)] length_le_decode_pint [OF d(1)] show ?case by simp
next
  case (4 ty b)
  then obtain len c where d: "decode_pint ty b = Inr (len, c)"
      "skip_values (len * 2) c = Inr (u, b')"
    by (auto simp: skip_map.psimps bindE_eq_Inr)
  from "4.IH" [OF d(1) refl d(2)] length_le_decode_pint [OF d(1)] show ?case by simp
next
  case (5 len b)
  show ?case
  proof (cases "len = 0")
    case False
    with 5 obtain c where d: "skip_value b = Inr ((), c)" "skip_values (len - 1) c = Inr (u, b')"
      by (auto simp: skip_values.psimps bindE_eq_Inr)
    from "5.IH"(1) [OF False d(1)] "5.IH"(2) [OF False d(1) refl d(2)] show ?thesis by simp
  qed (use 5 in \<open>simp add: skip_values.psimps\<close>)
qed

fun skip_args_len :: "((byte \<times> byte \<times> buffer) + buffer) + (byte \<times> buffer) + (byte \<times> buffer)
    + (u64 \<times> buffer) \<Rightarrow> nat" where
  "skip_args_len (Inl (Inl (_, _, b))) = length b"
| "skip_args_len (Inl (Inr b)) = length b"
| "skip_args_len (Inr (Inl (_, b))) = length b"
| "skip_args_len (Inr (Inr (Inl (_, b)))) = length b"
| "skip_args_len (Inr (Inr (Inr (_, b)))) = length b"

fun skip_args_rank :: "((byte \<times> byte \<times> buffer) + buffer) + (byte \<times> buffer) + (byte \<times> buffer)
    + (u64 \<times> buffer) \<Rightarrow> nat" where
  "skip_args_rank (Inl (Inl _)) = 3"
| "skip_args_rank (Inl (Inr _)) = 0"
| "skip_args_rank (Inr (Inl _)) = 2"
| "skip_args_rank (Inr (Inr (Inl _))) = 2"
| "skip_args_rank (Inr (Inr (Inr _))) = 1"

lemma skip_total: "skip_value_type_skip_value_skip_array_skip_map_skip_values_dom x"
proof -
  have "All skip_value_type_skip_value_skip_array_skip_map_skip_values_dom"
  proof (rule "skip_value_type_skip_value_skip_array_skip_map_skip_values.termination"
      [where R = "measures [skip_args_len, skip_args_rank]"], goal_cases)
    case (5 ty b p len c)
    then show ?case by (auto dest!: length_le_decode_pint)
  next
    case (6 ty b p len c)
    then show ?case by (auto dest!: length_le_decode_pint)
  next
    case (8 len b p u c)
    then show ?case by (auto dest!: skip_shrinks_dom(2))
  qed (auto simp: decode_type_Inr)
  then show ?thesis by simp
qed

termination skip_value_type
  by (simp add: skip_total)

declare skip_value_type.simps [simp del] skip_value.simps [simp del] skip_array.simps [simp del]
  skip_map.simps [simp del] skip_values.simps [simp del]

lemmas skip_simps = skip_value_type.simps skip_value.simps skip_array.simps skip_map.simps
  skip_values.simps skip_bytes_def

lemma skip_value_shrinks: "skip_value b = Inr (u, b') \<Longrightarrow> length b' < length b"
  by (rule skip_shrinks_dom(2)) (rule skip_total)

section \<open>The skipper is a stream decoder\<close>

lemma skip_stable:
  "stable_at (skip_value_type major minor) b"
  "stable_at skip_value b"
  "stable_at (skip_array ty) b"
  "stable_at (skip_map ty2) b"
  "stable_at (skip_values len) b"
proof (induction major minor b and b and ty b and ty2 b and len b
    rule: skip_value_type_skip_value_skip_array_skip_map_skip_values.induct)
  case (1 major minor b)
  have bytes: "stable_at (skip_bytes minor) b"
    by (rule stable_at_cong [OF _ skip_string_stable]) (simp add: skip_bytes_def)
  show ?case
    by (rule stable_at_cong [OF skip_value_type.simps])
      (intro stable_at_if stable_at_bind stable_at_return stable_at_throw decode_pint_stable
        decode_nint_stable skip_string_stable bytes 1)
next
  case (2 b)
  show ?case
    by (rule stable_at_cong [OF skip_value.simps])
      (auto intro!: stable_at_bind decode_type_stable 2)
next
  case (3 ty b)
  show ?case
    by (rule stable_at_cong [OF skip_array.simps])
      (intro stable_at_bind decode_pint_stable 3, auto)
next
  case (4 ty b)
  show ?case
    by (rule stable_at_cong [OF skip_map.simps])
      (intro stable_at_bind decode_pint_stable 4, auto)
next
  case (5 len b)
  show ?case
    by (rule stable_at_cong [OF skip_values.simps])
      (intro stable_at_if stable_at_bind stable_at_return 5, auto)
qed

interpretation skip: progress_decoder skip_value
  by unfold_locales (rule skip_stable, rule skip_value_shrinks)

section \<open>Decoding what the encoder wrote\<close>

lemma decode_be_bytes:
  "n > 0 \<Longrightarrow> decode_int_length_recurse n (be_bytes n v @ rest) (push_bit 8 (drop_bit (8 * n) v))
     = Inr (v, rest)"
proof (induction n)
  case (Suc n)
  let ?i = "push_bit 8 (drop_bit (8 * Suc n) v) OR ucast (ucast (drop_bit (8 * n) v) :: byte)"
  have i: "?i = drop_bit (8 * n) v" by (rule push_drop_byte)
  have step: "decode_int_length_recurse (Suc n) (be_bytes (Suc n) v @ rest)
      (push_bit 8 (drop_bit (8 * Suc n) v)) =
    (if Suc n = 1 then Inr (drop_bit (8 * n) v, be_bytes n v @ rest)
     else decode_int_length_recurse n (be_bytes n v @ rest) (push_bit 8 (drop_bit (8 * n) v)))"
    by (simp only: be_bytes.simps append_Cons decode_int_length_recurse.simps i Let_def
        diff_Suc_1)
  show ?case
  proof (cases n)
    case 0
    with step show ?thesis by simp
  next
    case (Suc m)
    with Suc.IH step show ?thesis by simp
  qed
qed simp

lemma be_bytes_take_bit: "n \<le> k \<Longrightarrow> be_bytes n (take_bit (8 * k) v) = be_bytes n v"
proof (induction n)
  case (Suc n)
  have "(ucast (drop_bit (8 * n) (take_bit (8 * k) v)) :: byte) = ucast (drop_bit (8 * n) v)"
    using Suc.prems by (auto intro!: bit_word_eqI simp: bit_simps)
  with Suc show ?case by simp
qed simp

lemma decode_int_length_be:
  "n > 0 \<Longrightarrow> decode_int_length n (be_bytes n v @ rest) = Inr (take_bit (8 * n) v, rest)"
  using decode_be_bytes [of n "take_bit (8 * n) v" rest]
  by (simp add: decode_int_length_def be_bytes_take_bit drop_bit_take_bit)

lemma drop_bit_arg: "arg_len v > 0 \<Longrightarrow> drop_bit (8 * arg_len v) v = 0"
proof -
  have *: "v < 2 ^ k \<Longrightarrow> drop_bit k v = 0" for k
    by (rule bit_word_eqI) (simp add: bit_simps less_power_not_bit)
  assume "arg_len v > 0"
  then show ?thesis
    using * [of 8] * [of 16] * [of 32] by (auto simp: arg_len_def split: if_splits)
qed

lemma decode_pint_arg: "decode_pint (arg_minor v) (be_bytes (arg_len v) v @ rest) = Inr (v, rest)"
proof (cases "v < 24")
  case True
  then have "unat v < 24" by (simp add: word_less_nat_alt)
  then have u: "unat (ucast v :: byte) = unat v" by (simp add: unsigned_ucast_eq take_bit_nat_def)
  then have "(ucast v :: byte) < 24" using \<open>unat v < 24\<close> by (simp add: word_less_nat_alt)
  moreover have "v < 2 ^ 5" using \<open>unat v < 24\<close> by (simp add: word_less_nat_alt)
  then have "(ucast (ucast v :: byte) :: u64) = v"
    using less_power_not_bit [of v 5]
    by (auto intro!: bit_word_eqI simp: bit_simps not_le [symmetric])
  ultimately show ?thesis using True by (simp add: arg_minor_def arg_len_def decode_pint_def)
next
  case False
  then have pos: "arg_len v > 0" by (simp add: arg_len_def)
  have "decode_int_length_recurse (arg_len v) (be_bytes (arg_len v) v @ rest) 0 = Inr (v, rest)"
    using decode_be_bytes [OF pos, of v rest] drop_bit_arg [OF pos] by simp
  with False show ?thesis
    by (auto simp: arg_minor_def arg_len_def decode_pint_def decode_int_length_def split: if_splits)
qed

text \<open>The initial byte and argument of an item the encoder wrote.\<close>

lemma decode_type_typed_val:
  assumes "ty < 8"
  shows "decode_type (push_typed_val ty v [] @ rest) =
    Inr ((ucast ty, arg_minor v, push_bit 5 (ucast ty) OR arg_minor v),
      be_bytes (arg_len v) v @ rest)"
proof -
  have "unat ty < 8" using assms by (simp add: word_less_nat_alt)
  then have "(ucast ty :: byte) < 8"
    by (simp add: word_less_nat_alt unsigned_ucast_eq take_bit_nat_def)
  then have "drop_bit 5 (push_bit 5 (ucast ty) OR arg_minor v) = ucast ty"
    "(push_bit 5 (ucast ty) OR arg_minor v) AND 31 = arg_minor v"
    using arg_minor_less [of v] by (rule drop_bit_type_byte, rule and_type_byte)
  then show ?thesis
    by (simp only: push_typed_val_layout decode_type_def append_Cons list.case)
qed

end
