(* ===== verification/Soft_Float.thy ===== *)
theory Soft_Float
  imports Prelude
begin

text \<open>
  Floating point as the CBOR code uses it. A \<open>float\<close> or \<open>double\<close> is its IEEE-754 bit pattern
  (a 32 or 64 bit word), which is also what \<open>std::bit_cast\<close> exchanges. The conversions of the
  language (\<open>static_cast\<close> between integers, \<open>float\<close> and \<open>double\<close>, round to nearest even), the
  standard functions \<open>std::ldexp\<close>, \<open>std::isfinite\<close>, \<open>std::from_chars\<close> and \<open>std::to_chars\<close> are
  given by exact integer arithmetic on \<open>m * 2 ^ e\<close> and \<open>m * 10 ^ e\<close>.
\<close>

section \<open>Rounding\<close>

fun bitlen :: "nat \<Rightarrow> nat" where
  "bitlen n = (if n = 0 then 0 else Suc (bitlen (n div 2)))"

declare bitlen.simps [simp del]

text \<open>\<open>m / 2 ^ k\<close> rounded to nearest, ties to even; \<open>k\<close> may be negative.\<close>

definition round_shift :: "nat \<Rightarrow> int \<Rightarrow> nat" where
  "round_shift m k =
     (if k \<le> 0 then m * 2 ^ nat (- k)
      else let d = 2 ^ nat k; q = m div d; r = m mod d in
        if 2 * r > d \<or> (2 * r = d \<and> odd q) then Suc q else q)"

text \<open>
  The bits below the sign of \<open>m * 2 ^ e\<close> in the format with \<open>p\<close> bits of precision whose smallest
  positive value is \<open>2 ^ emin\<close> and whose infinity has the bits \<open>infb\<close>. With \<open>E\<close> the exponent of
  the last kept bit and \<open>q\<close> the rounded significand, \<open>(E - emin) * 2 ^ (p - 1) + q\<close> is the
  pattern for normal and subnormal numbers alike, and a carry out of \<open>q\<close> moves to the next
  binade.
\<close>

definition pack_float :: "nat \<Rightarrow> int \<Rightarrow> nat \<Rightarrow> nat \<Rightarrow> int \<Rightarrow> nat" where
  "pack_float p emin infb m e =
     (if m = 0 then 0
      else let E = max (e + int (bitlen m) - int p) emin in
        min infb (nat (E - emin) * 2 ^ (p - 1) + round_shift m (E - e)))"

definition double_inf :: nat where "double_inf = 0x7ff0000000000000"
definition float_inf :: nat where "float_inf = 0x7f800000"

definition pack_double :: "bool \<Rightarrow> nat \<Rightarrow> int \<Rightarrow> u64" where
  "pack_double neg m e =
     (if neg then 2 ^ 63 else 0) OR of_nat (pack_float 53 (- 1074) double_inf m e)"

definition pack_single :: "bool \<Rightarrow> nat \<Rightarrow> int \<Rightarrow> u32" where
  "pack_single neg m e =
     (if neg then 2 ^ 31 else 0) OR of_nat (pack_float 24 (- 149) float_inf m e)"

section \<open>Reading bit patterns\<close>

definition double_sign :: "u64 \<Rightarrow> bool" where
  "double_sign d \<longleftrightarrow> bit d 63"

definition double_exp :: "u64 \<Rightarrow> nat" where
  "double_exp d = unat (drop_bit 52 d AND 0x7ff)"

definition double_frac :: "u64 \<Rightarrow> nat" where
  "double_frac d = unat (d AND 0xfffffffffffff)"

definition isfinite :: "u64 \<Rightarrow> bool" where
  "isfinite d \<longleftrightarrow> double_exp d \<noteq> 0x7ff"

text \<open>Significand and exponent of a finite double: its absolute value is \<open>m * 2 ^ e\<close>.\<close>

definition double_parts :: "u64 \<Rightarrow> nat \<times> int" where
  "double_parts d =
     (if double_exp d = 0 then (double_frac d, - 1074)
      else (double_frac d + 2 ^ 52, int (double_exp d) - 1075))"

definition quiet_NaN :: u64 where "quiet_NaN = 0x7ff8000000000000"
definition infinity :: u64 where "infinity = 0x7ff0000000000000"

text \<open>Unary minus flips the sign bit.\<close>

definition neg_double :: "u64 \<Rightarrow> u64" where
  "neg_double d = d XOR 2 ^ 63"

section \<open>Conversions of the language\<close>

text \<open>\<open>static_cast<double>\<close> of \<open>uint64_t\<close> and of \<open>int64_t\<close>.\<close>

definition double_of_uint :: "u64 \<Rightarrow> u64" where
  "double_of_uint v = pack_double False (unat v) 0"

definition double_of_int :: "u64 \<Rightarrow> u64" where
  "double_of_int v = pack_double (sint v < 0) (nat \<bar>sint v\<bar>) 0"

text \<open>
  Widening \<open>float\<close> to \<open>double\<close> is exact; a NaN keeps its payload and becomes quiet.
\<close>

definition double_of_float :: "u32 \<Rightarrow> u64" where
  "double_of_float f =
     (let neg = bit f 31; ex = unat (drop_bit 23 f AND 0xff); fr = unat (f AND 0x7fffff) in
      if ex = 255 then
        (if neg then 2 ^ 63 else 0) OR
          (if fr = 0 then infinity else quiet_NaN OR of_nat (fr * 2 ^ 29))
      else if ex = 0 then pack_double neg fr (- 149)
      else pack_double neg (fr + 2 ^ 23) (int ex - 150))"

text \<open>Narrowing rounds; a NaN keeps the top of its payload and becomes quiet.\<close>

definition float_of_double :: "u64 \<Rightarrow> u32" where
  "float_of_double d =
     (let neg = double_sign d in
      if \<not> isfinite d then
        (if neg then 2 ^ 31 else 0) OR
          (if double_frac d = 0 then 0x7f800000
           else 0x7fc00000 OR of_nat (double_frac d div 2 ^ 29))
      else (case double_parts d of (m, e) \<Rightarrow> pack_single neg m e))"

text \<open>\<open>std::ldexp(mant, e)\<close> for a non-negative \<open>int\<close>.\<close>

definition ldexp :: "nat \<Rightarrow> int \<Rightarrow> u64" where
  "ldexp mant e = pack_double False mant e"

section \<open>Decimal strings\<close>

definition is_digit :: "char \<Rightarrow> bool" where
  "is_digit c \<longleftrightarrow> (48::nat) \<le> of_char c \<and> of_char c \<le> (57::nat)"

definition digit_val :: "char \<Rightarrow> nat" where
  "digit_val c = of_char c - 48"

definition digit_char :: "nat \<Rightarrow> char" where
  "digit_char n = char_of (48 + n)"

definition digits_val :: "string \<Rightarrow> nat" where
  "digits_val s = foldl (\<lambda>n c. 10 * n + digit_val c) 0 s"

text \<open>Printing an unsigned and a signed integer, as \<open>operator<<\<close> does.\<close>

fun show_nat :: "nat \<Rightarrow> string" where
  "show_nat n = (if n < 10 then [digit_char n]
     else show_nat (n div 10) @ [digit_char (n mod 10)])"

declare show_nat.simps [simp del]

definition show_int :: "int \<Rightarrow> string" where
  "show_int i = (if i < 0 then CHR ''-'' # show_nat (nat (- i)) else show_nat (nat i))"

subsection \<open>Reading\<close>

text \<open>
  \<open>std::from_chars\<close> to \<open>int64_t\<close> on a string of the form \<open>-?[0-9]+\<close>: the value, or nothing when
  it is out of range.
\<close>

definition from_chars_int :: "string \<Rightarrow> u64 option" where
  "from_chars_int s =
     (let i = (case s of [] \<Rightarrow> 0
                | c # cs \<Rightarrow> if c = CHR ''-'' then - int (digits_val cs) else int (digits_val s)) in
      if - (2 ^ 63) \<le> i \<and> i < 2 ^ 63 then Some (word_of_int i) else None)"

text \<open>
  The number \<open>m * 10 ^ x\<close> rounded to a double. For negative \<open>x\<close> the quotient is computed to at
  least 60 bits and the remainder kept as a sticky bit, so that the rounding is that of the
  exact value. A result that overflows, or that vanishes though \<open>m\<close> is not zero, is out of range.
\<close>

definition decimal_bits :: "nat \<Rightarrow> int \<Rightarrow> nat" where
  "decimal_bits m x =
     (if 0 \<le> x then pack_float 53 (- 1074) double_inf (m * 10 ^ nat x) 0
      else let d = 10 ^ nat (- x); s = bitlen d + 60; q = m * 2 ^ s div d; r = m * 2 ^ s mod d in
        pack_float 53 (- 1074) double_inf (2 * q + (if r = 0 then 0 else 1)) (- int s - 1))"

definition decimal_to_double :: "bool \<Rightarrow> nat \<Rightarrow> int \<Rightarrow> u64 option" where
  "decimal_to_double neg m x =
     (let b = decimal_bits m x in
      if m \<noteq> 0 \<and> (b = 0 \<or> b = double_inf) then None
      else Some ((if neg then 2 ^ 63 else 0) OR of_nat b))"

text \<open>\<open>std::from_chars\<close> to \<open>double\<close> on \<open>-?[0-9]+(.[0-9]+)?(e[+-]?[0-9]+)?\<close>.\<close>

definition from_chars_double :: "string \<Rightarrow> u64 option" where
  "from_chars_double s =
     (let neg = (s \<noteq> [] \<and> hd s = CHR ''-'');
          s = (if neg then tl s else s);
          ip = takeWhile is_digit s; s = dropWhile is_digit s;
          fp = (if s \<noteq> [] \<and> hd s = CHR ''.'' then takeWhile is_digit (tl s) else []);
          s = (if s \<noteq> [] \<and> hd s = CHR ''.'' then dropWhile is_digit (tl s) else s);
          ex = (case s of [] \<Rightarrow> 0
                 | _ # es \<Rightarrow> (case es of [] \<Rightarrow> 0
                     | c # cs \<Rightarrow> if c = CHR ''-'' then - int (digits_val cs)
                                else if c = CHR ''+'' then int (digits_val cs)
                                else int (digits_val es)))
      in decimal_to_double neg (digits_val (ip @ fp)) (ex - int (length fp)))"

subsection \<open>Writing the shortest representation\<close>

text \<open>
  \<open>std::to_chars(first, last, double)\<close> writes the shortest digits that read back as the same
  double (and the closest such digits), in fixed or scientific notation, whichever is shorter,
  fixed on a tie. A finite positive value is \<open>num / den\<close>.
\<close>

definition double_fraction :: "u64 \<Rightarrow> nat \<times> nat" where
  "double_fraction d = (case double_parts d of (m, e) \<Rightarrow> (m * 2 ^ nat e, 2 ^ nat (- e)))"

text \<open>The largest \<open>k\<close> with \<open>10 ^ k \<le> num / den\<close>.\<close>

definition log10_floor :: "nat \<Rightarrow> nat \<Rightarrow> int" where
  "log10_floor num den =
     (let k = int (length (show_nat num)) - int (length (show_nat den)) in
      if den * 10 ^ nat k \<le> num * 10 ^ nat (- k) then k else k - 1)"

text \<open>
  The two \<open>n\<close>-digit decimals around the value, the closer one first, with their exponent (a
  carry to \<open>n + 1\<close> digits is written with one).
\<close>

definition digit_candidates :: "nat \<Rightarrow> nat \<Rightarrow> nat \<Rightarrow> (nat \<times> int) list" where
  "digit_candidates num den n =
     (let x = log10_floor num den - int n + 1;
          a = num * 10 ^ nat (- x); b = den * 10 ^ nat x; D = a div b;
          up = (if Suc D = 10 ^ n then (1, x + int n) else (Suc D, x)) in
      if 2 * (a mod b) \<le> b then [(D, x), up] else [up, (D, x)])"

definition shortest_digits :: "u64 \<Rightarrow> nat \<times> int" where
  "shortest_digits d =
     (case double_fraction d of (num, den) \<Rightarrow>
        let cs = concat (map (digit_candidates num den) [1..<18]) in
        (case List.find (\<lambda>(D, x). decimal_to_double False D x = Some (d AND 0x7fffffffffffffff)) cs of
           Some c \<Rightarrow> c | None \<Rightarrow> last cs))"

definition format_scientific :: "string \<Rightarrow> int \<Rightarrow> string" where
  "format_scientific ds ex =
     take 1 ds @ (if length ds > 1 then CHR ''.'' # drop 1 ds else [])
     @ ''e'' @ (if ex < 0 then ''-'' else ''+'')
     @ (let e = show_nat (nat \<bar>ex\<bar>) in if length e < 2 then CHR ''0'' # e else e)"

definition format_fixed :: "nat \<Rightarrow> string \<Rightarrow> int \<Rightarrow> string" where
  "format_fixed int_part ds x =
     (if 0 \<le> x then show_nat int_part
      else if length ds > nat (- x) then
        take (length ds - nat (- x)) ds @ ''.'' @ drop (length ds - nat (- x)) ds
      else ''0.'' @ replicate (nat (- x) - length ds) CHR ''0'' @ ds)"

definition to_chars_double :: "u64 \<Rightarrow> string" where
  "to_chars_double d =
     (if double_sign d then ''-'' else []) @
     (if d AND 0x7fffffffffffffff = 0 then ''0''
      else case double_fraction d of (num, den) \<Rightarrow>
        case shortest_digits d of (D, x) \<Rightarrow>
        let ds = show_nat D;
            e = format_scientific ds (x + int (length ds) - 1);
            f = format_fixed (num div den) ds x in
        if length f \<le> length e then f else e)"

end
