(* ===== verification/Cbor_Match.thy ===== *)
theory Cbor_Match
  imports Cbor_Decode Soft_Float
begin

text \<open>
  Pattern matching on CBOR messages: \<open>match_value\<close> and its overloads, the extractors
  (\<open>extract(x)\<close>, \<open>A(...)\<close>, \<open>M(...)\<close>), \<open>match_next\<close> and the call operator
  \<open>m(p1, ..., pn)\<close> of a buffer or range (\<^verbatim>\<open>src/src/cbor.cpp\<close>, \<^verbatim>\<open>src/include/cbor/cbor.hpp\<close>),
  and the value iterators. A pattern is a tree; extraction into a reference is a value in the list
  of results, in the order of the pattern. A match returns whether it succeeded, the values it
  extracted so far (an extractor writes through its reference as soon as it matches, also when a
  later part fails) and the bytes that remain.
\<close>

section \<open>Types of values\<close>

definition match_type :: "(bool \<times> ctype) decoder" where
  "match_type b =
     bindE (decode_type b) (\<lambda>(t, b). case t of (major, minor, ty) \<Rightarrow>
     bindE (skip_value_type major minor b) (\<lambda>(_, b).
       if major = 0 \<or> major = 1 then Inr ((True, Type_number), b)
       else if major = 2 then Inr ((True, Type_bytes), b)
       else if major = 3 then Inr ((True, Type_string), b)
       else if major = 4 then Inr ((True, Type_array), b)
       else if major = 5 then Inr ((True, Type_map), b)
       else if major = 7 then
         (if ty = 0xf6 then Inr ((True, Type_null), b)
          else if ty = 0xf4 \<or> ty = 0xf5 then Inr ((True, Type_boolean), b)
          else if is_float_type ty then Inr ((True, Type_floating), b)
          else Inr ((True, Type_unknown), b))
       else Inr ((False, Type_any), b)))"

definition match_value_type :: "ctype \<Rightarrow> bool decoder" where
  "match_value_type t b =
     bindE (match_type b) (\<lambda>((ok, v), b).
       if ok then Inr (t = Type_any \<or> t = v, b) else Inr (False, b))"

section \<open>Scalars\<close>

text \<open>Each matcher yields \<open>None\<close> where the code returns \<open>false\<close> and leaves its reference alone.\<close>

definition match_uint :: "u64 option decoder" where
  "match_uint b =
     bindE (decode_type b) (\<lambda>((major, minor, ty), b).
       if major \<noteq> 0 then Inr (None, b)
       else bindE (decode_pint minor b) (\<lambda>(v, b). Inr (Some v, b)))"

definition match_int :: "u64 option decoder" where
  "match_int b =
     bindE (decode_type b) (\<lambda>((major, minor, ty), b).
       if major = 0 then
         bindE (decode_pint minor b) (\<lambda>(v, b). if v <s 0 then Inr (None, b) else Inr (Some v, b))
       else if major = 1 then bindE (decode_nint minor b) (\<lambda>(v, b). Inr (Some v, b))
       else Inr (None, b))"

definition match_bool :: "bool option decoder" where
  "match_bool b =
     bindE (decode_type b) (\<lambda>((major, minor, ty), b).
       if major = 7 \<and> ty = 0xf4 then Inr (Some False, b)
       else if major = 7 \<and> ty = 0xf5 then Inr (Some True, b)
       else Inr (None, b))"

definition match_string :: "string option decoder" where
  "match_string b =
     bindE (decode_type b) (\<lambda>((major, minor, ty), b).
       if major = 2 then bindE (decode_bytes minor b) (\<lambda>(s, b). Inr (Some s, b))
       else if major = 3 then bindE (decode_string minor b) (\<lambda>(s, b). Inr (Some s, b))
       else Inr (None, b))"

text \<open>\<open>decode_half\<close> and \<open>decode_float\<close>: the value as a double.\<close>

definition decode_half :: "u16 \<Rightarrow> u64" where
  "decode_half h =
     (let ex = unat (drop_bit 10 h AND 0x1f); mant = unat (h AND 0x3ff);
          v = (if ex = 0 then ldexp mant (- 24)
               else if ex \<noteq> 31 then ldexp (mant + 1024) (int ex - 25)
               else if mant = 0 then infinity else quiet_NaN) in
      if h AND 0x8000 \<noteq> 0 then neg_double v else v)"

definition decode_float :: "byte \<Rightarrow> u64 decoder" where
  "decode_float ty b =
     (if ty = cbor_magic_float16 then
        bindE (decode_int_length 2 b) (\<lambda>(v, b). Inr (decode_half (ucast v), b))
      else if ty = cbor_magic_float32 then
        bindE (decode_int_length 4 b) (\<lambda>(v, b). Inr (double_of_float (ucast v), b))
      else if ty = cbor_magic_float64 then decode_int_length 8 b
      else Inl (Domain_error ''cbor invalid float type''))"

definition match_float :: "u64 option decoder" where
  "match_float b =
     bindE (decode_type b) (\<lambda>((major, minor, ty), b).
       if major = 0 then
         bindE (decode_pint minor b) (\<lambda>(v, b). Inr (Some (double_of_uint v), b))
       else if major = 1 then
         bindE (decode_nint minor b) (\<lambda>(v, b). Inr (Some (double_of_int v), b))
       else if major = 7 then
         (if \<not> is_float_type ty then Inr (None, b)
          else bindE (decode_float ty b) (\<lambda>(v, b). Inr (Some v, b)))
       else Inr (None, b))"

section \<open>Extractors\<close>

text \<open>
  What \<open>extract(x)\<close> does depends on the type of \<open>x\<close>. The integer extractors carry the width of
  \<open>x\<close> in bits (8, 16, 32 or 64).
\<close>

datatype extractor =
  E_type | E_int nat | E_uint nat | E_bool | E_double | E_float | E_string | E_range

datatype extracted =
  X_type ctype | X_int u64 | X_uint u64 | X_bool bool | X_double u64 | X_float u32
| X_string string | X_range buffer

text \<open>\<open>extract_int<T>\<close>: the value must lie between \<open>numeric_limits<T>::min()\<close> and \<open>max()\<close>.\<close>

definition extract_int :: "nat \<Rightarrow> u64 option decoder" where
  "extract_int w b =
     bindE (match_int b) (\<lambda>(r, b). case r of None \<Rightarrow> Inr (None, b)
       | Some i \<Rightarrow> if sint i < - (2 ^ (w - 1)) \<or> sint i > 2 ^ (w - 1) - 1 then Inr (None, b)
                   else Inr (Some i, b))"

definition extract_uint :: "nat \<Rightarrow> u64 option decoder" where
  "extract_uint w b =
     bindE (match_uint b) (\<lambda>(r, b). case r of None \<Rightarrow> Inr (None, b)
       | Some i \<Rightarrow> if uint i > 2 ^ w - 1 then Inr (None, b) else Inr (Some i, b))"

text \<open>\<open>extract(range&)\<close>: the bytes of an array, a map or null.\<close>

definition extract_range :: "buffer option decoder" where
  "extract_range b =
     bindE (match_type b) (\<lambda>(r, b'). case r of (ok, v) \<Rightarrow>
       if ok \<and> (v = Type_null \<or> v = Type_array \<or> v = Type_map)
       then Inr (Some (take (length b - length b') b), b') else Inr (None, b'))"

definition extracted_as ::
    "('a \<Rightarrow> extracted) \<Rightarrow> 'a option decoder \<Rightarrow> (bool \<times> extracted list) decoder" where
  "extracted_as C d b =
     bindE (d b) (\<lambda>(r, b). case r of None \<Rightarrow> Inr ((False, []), b) | Some v \<Rightarrow> Inr ((True, [C v]), b))"

fun extract_with :: "extractor \<Rightarrow> (bool \<times> extracted list) decoder" where
  "extract_with E_type b =
     bindE (match_type b) (\<lambda>((ok, t), b). Inr ((ok, if ok then [X_type t] else []), b))"
| "extract_with (E_int w) b = extracted_as X_int (extract_int w) b"
| "extract_with (E_uint w) b = extracted_as X_uint (extract_uint w) b"
| "extract_with E_bool b = extracted_as X_bool match_bool b"
| "extract_with E_double b = extracted_as X_double match_float b"
| "extract_with E_float b = extracted_as (X_float \<circ> float_of_double) match_float b"
| "extract_with E_string b = extracted_as X_string match_string b"
| "extract_with E_range b = extracted_as X_range extract_range b"

section \<open>Patterns\<close>

datatype pat =
  Pat_type ctype | Pat_int u64 | Pat_uint u64 | Pat_bool bool | Pat_string string
| Pat_extract extractor | Pat_A "pat list" | Pat_M "pat list"

abbreviation p_any :: pat where "p_any \<equiv> Pat_type Type_any"
abbreviation p_more :: pat where "p_more \<equiv> Pat_type Type_more"

text \<open>Comparing a scalar with a literal.\<close>

definition match_lit :: "'a \<Rightarrow> 'a option decoder \<Rightarrow> (bool \<times> extracted list) decoder" where
  "match_lit lit d b = bindE (d b) (\<lambda>(r, b). Inr ((r = Some lit, []), b))"

text \<open>The loop of \<open>match_next\<close> for a final \<open>more\<close>: the remaining values are skipped.\<close>

function match_rest :: "u64 \<Rightarrow> bool decoder" where
  "match_rest n b =
     (if n = 0 then Inr (True, b)
      else bindE (match_value_type Type_any b) (\<lambda>(ok, b).
        if \<not> ok then Inr (False, b) else match_rest (n - 1) b))"
  by pat_completeness auto
termination
  by (relation "measure (\<lambda>(n, b). unat n)") (auto intro: measure_unat)

declare match_rest.simps [simp del]

text \<open>
  \<open>match_value\<close> for every kind of pattern, and \<open>match_next\<close> for the list of patterns of an array
  or map with \<open>n\<close> values left. The empty list of patterns has no instance of the template.
\<close>

fun match_value :: "pat \<Rightarrow> (bool \<times> extracted list) decoder"
  and match_next :: "u64 \<Rightarrow> pat list \<Rightarrow> (bool \<times> extracted list) decoder"
where
  "match_value (Pat_type t) b = bindE (match_value_type t b) (\<lambda>(ok, b). Inr ((ok, []), b))"
| "match_value (Pat_int i) b = match_lit i match_int b"
| "match_value (Pat_uint i) b = match_lit i match_uint b"
| "match_value (Pat_bool v) b = match_lit v match_bool b"
| "match_value (Pat_string s) b = match_lit s match_string b"
| "match_value (Pat_extract ex) b = extract_with ex b"
| "match_value (Pat_A ps) b = bindE (decode_array_header b) (\<lambda>(n, b). match_next n ps b)"
| "match_value (Pat_M ps) b = bindE (decode_map_header b) (\<lambda>(n, b). match_next (n * 2) ps b)"
| "match_next n [] b = Inr ((n = 0, []), b)"
| "match_next n (p # ps) b =
     (if ps = [] \<and> p = p_more then bindE (match_rest n b) (\<lambda>(ok, b). Inr ((ok, []), b))
      else if n = 0 then Inr ((False, []), b)
      else bindE (match_value p b) (\<lambda>((ok, xs), b).
        if \<not> ok then Inr ((False, xs), b)
        else if ps = [] then Inr ((n = 1, xs), b)
        else bindE (match_next (n - 1) ps b) (\<lambda>((ok, ys), b). Inr ((ok, xs @ ys), b))))"

definition match_array :: "pat list \<Rightarrow> (bool \<times> extracted list) decoder" where
  "match_array ps b = bindE (decode_array_header b) (\<lambda>(n, b). match_next n ps b)"

text \<open>
  \<open>m(p1, ..., pn)\<close> on a buffer or range: the extracted values when the message matches,
  \<open>None\<close> when it does not, an exception when the message is not well-formed.
\<close>

definition matches :: "buffer \<Rightarrow> pat list \<Rightarrow> exn + extracted list option" where
  "matches m ps = bindE (match_array ps m) (\<lambda>((ok, xs), b). Inr (if ok then Some xs else None))"

end
