(* ===== verification/Json_Print.thy ===== *)
theory Json_Print
  imports Cbor_Match
begin

text \<open>
  The JSON writer: \<open>to_json_stream\<close>, the string and float printers it uses, \<open>to_json\<close> and
  \<open>hexdump\<close> (\<^verbatim>\<open>src/src/cbor.cpp\<close>). The output stream is a string that is extended. Printing
  stops at the first exception with what has been written so far, because \<open>to_json_\<close> reports that
  text. Termination is that of the skipper: a printed value consumes at least one byte, whatever
  the counts in the headers.
\<close>

section \<open>Characters, strings and floats\<close>

definition hex_digit :: "nat \<Rightarrow> char" where
  "hex_digit n = (if n < 10 then char_of (48 + n) else char_of (87 + n))"

definition tohex :: "byte \<Rightarrow> string" where
  "tohex v = [hex_digit (unat v div 16), hex_digit (unat v mod 16)]"

definition to_json_char :: "char \<Rightarrow> string" where
  "to_json_char c =
     (if c = CHR 0x08 then [CHR 0x5C, CHR ''b''] else if c = CHR 0x0C then [CHR 0x5C, CHR ''f'']
      else if c = CHR 0x0A then [CHR 0x5C, CHR ''n''] else if c = CHR 0x0D then [CHR 0x5C, CHR ''r'']
      else if c = CHR 0x09 then [CHR 0x5C, CHR ''t''] else if c = CHR 0x5C then [CHR 0x5C, CHR 0x5C]
      else if c = CHR 0x22 then [CHR 0x5C, CHR 0x22]
      else if (of_char c :: nat) \<le> 0x1f then CHR 0x5C # ''u00'' @ tohex (of_char c)
      else [c])"

definition to_json_string :: "string \<Rightarrow> string" where
  "to_json_string s = CHR 0x22 # concat (map to_json_char s) @ [CHR 0x22]"

definition float_to_json :: "u64 \<Rightarrow> string" where
  "float_to_json v =
     (if \<not> isfinite v then ''null''
      else let str = to_chars_double v in
        str @ (if CHR ''.'' \<in> set str \<or> CHR ''e'' \<in> set str then [] else ''.0''))"

section \<open>Values\<close>

text \<open>\<open>json_items\<close> and \<open>json_entries\<close> are the loops over the items of an array and a map.\<close>

type_synonym json_out = "string \<times> (exn + buffer)"

definition out_bind :: "json_out \<Rightarrow> (string \<Rightarrow> buffer \<Rightarrow> json_out) \<Rightarrow> json_out" where
  "out_bind r f = (case r of (ss, Inl e) \<Rightarrow> (ss, Inl e) | (ss, Inr b) \<Rightarrow> f ss b)"

lemma out_bind_simps [simp]:
  "out_bind (ss, Inl e) f = (ss, Inl e)" "out_bind (ss, Inr b) f = f ss b"
  by (simp_all add: out_bind_def)

lemma out_bind_cong [fundef_cong]:
  "r = r' \<Longrightarrow> (\<And>ss b. r' = (ss, Inr b) \<Longrightarrow> f ss b = f' ss b) \<Longrightarrow> out_bind r f = out_bind r' f'"
  by (auto simp: out_bind_def split: prod.splits sum.splits)

lemma out_bind_eq_Inr:
  "out_bind r f = (ss', Inr b') \<longleftrightarrow> (\<exists>ss b. r = (ss, Inr b) \<and> f ss b = (ss', Inr b'))"
  by (auto simp: out_bind_def split: prod.splits sum.splits)

text \<open>Decoding before anything is printed: an exception leaves the output as it is.\<close>

definition out_read :: "string \<Rightarrow> exn + ('a \<times> buffer) \<Rightarrow> ('a \<Rightarrow> buffer \<Rightarrow> json_out) \<Rightarrow> json_out" where
  "out_read ss d f = (case d of Inl e \<Rightarrow> (ss, Inl e) | Inr (v, b) \<Rightarrow> f v b)"

lemma out_read_simps [simp]:
  "out_read ss (Inl e) f = (ss, Inl e)" "out_read ss (Inr (v, b)) f = f v b"
  by (simp_all add: out_read_def)

lemma out_read_cong [fundef_cong]:
  "d = d' \<Longrightarrow> (\<And>v b. d' = Inr (v, b) \<Longrightarrow> f v b = f' v b) \<Longrightarrow> out_read ss d f = out_read ss d' f'"
  by (auto simp: out_read_def split: prod.splits sum.splits)

lemma out_read_eq_Inr:
  "out_read ss d f = (ss', Inr b') \<longleftrightarrow> (\<exists>v b. d = Inr (v, b) \<and> f v b = (ss', Inr b'))"
  by (auto simp: out_read_def split: prod.splits sum.splits)

function to_json_stream :: "string \<Rightarrow> buffer \<Rightarrow> json_out"
  and json_items :: "u64 \<Rightarrow> string \<Rightarrow> buffer \<Rightarrow> json_out"
  and json_entries :: "u64 \<Rightarrow> string \<Rightarrow> buffer \<Rightarrow> json_out"
where
  "to_json_stream ss b =
     out_read ss (decode_type b) (\<lambda>t b. case t of (major, minor, ty) \<Rightarrow>
       if major = 0 then
         out_read ss (decode_pint minor b) (\<lambda>i b. (ss @ show_nat (unat i), Inr b))
       else if major = 1 then
         out_read ss (decode_nint minor b) (\<lambda>i b. (ss @ show_int (sint i), Inr b))
       else if major = 2 then
         out_read ss (decode_bytes minor b) (\<lambda>v b. (ss @ to_json_string v, Inr b))
       else if major = 3 then
         out_read ss (decode_string minor b) (\<lambda>v b. (ss @ to_json_string v, Inr b))
       else if major = 4 then
         out_read ss (decode_pint minor b) (\<lambda>i b.
           out_bind (json_items i (ss @ ''['') b) (\<lambda>ss b. (ss @ '']'', Inr b)))
       else if major = 5 then
         out_read ss (decode_pint minor b) (\<lambda>i b.
           out_bind (json_entries i (ss @ ''{'') b) (\<lambda>ss b. (ss @ ''}'', Inr b)))
       else if major = 6 then (ss, Inl (Domain_error ''cbor unsupported type tag''))
       else if major = 7 then
         (if ty = 0xf4 then (ss @ ''false'', Inr b)
          else if ty = 0xf5 then (ss @ ''true'', Inr b)
          else if ty = 0xf6 then (ss @ ''null'', Inr b)
          else if is_float_type ty then
            out_read ss (decode_float ty b) (\<lambda>v b. (ss @ float_to_json v, Inr b))
          else (ss, Inl (Domain_error ''cbor unsupported simple value'')))
       else (ss, Inl (Domain_error ''cbor unsupported type unknown'')))"
| "json_items i ss b =
     (if i = 0 then (ss, Inr b)
      else out_bind (to_json_stream ss b) (\<lambda>ss b.
        json_items (i - 1) (if i - 1 \<noteq> 0 then ss @ '','' else ss) b))"
| "json_entries i ss b =
     (if i = 0 then (ss, Inr b)
      else out_bind (to_json_stream ss b) (\<lambda>ss b.
        out_bind (to_json_stream (ss @ '':'') b) (\<lambda>ss b.
          json_entries (i - 1) (if i - 1 \<noteq> 0 then ss @ '','' else ss) b)))"
  by pat_completeness auto

section \<open>Termination\<close>

abbreviation print_dom where
  "print_dom \<equiv> to_json_stream_json_items_json_entries_dom"

lemma length_le_decode_float: "decode_float ty b = Inr (v, b') \<Longrightarrow> length b' \<le> length b"
proof -
  have "decode_int_length n b = Inr (w, b') \<Longrightarrow> length b' \<le> length b" for n w
    by (auto simp: decode_int_length_def dest!: decode_int_length_recurse_shrinks)
  then show "decode_float ty b = Inr (v, b') \<Longrightarrow> length b' \<le> length b"
    by (auto simp: decode_float_def bindE_eq_Inr split: if_splits)
qed

lemma length_le_decode_string: "decode_string ty b = Inr (v, b') \<Longrightarrow> length b' \<le> length b"
  using str.suffix [of ty b v b'] by auto

lemma print_shrinks_dom:
  "print_dom (Inl (ss, b)) \<Longrightarrow> to_json_stream ss b = (ss', Inr b') \<Longrightarrow> length b' < length b"
  "print_dom (Inr (Inl (i, ss, b))) \<Longrightarrow> json_items i ss b = (ss', Inr b') \<Longrightarrow> length b' \<le> length b"
  "print_dom (Inr (Inr (i, ss, b))) \<Longrightarrow> json_entries i ss b = (ss', Inr b') \<Longrightarrow> length b' \<le> length b"
proof (induction ss b and i ss b and i ss b arbitrary: ss' b' and ss' b' and ss' b' rule:
    to_json_stream_json_items_json_entries.pinduct)
  case (1 ss b)
  then show ?case
    by (fastforce simp: to_json_stream.psimps decode_type_Inr decode_bytes_def out_read_eq_Inr out_bind_eq_Inr
        split: prod.splits if_splits dest: length_le_decode_pint length_le_decode_nint
          length_le_decode_string length_le_decode_float)
next
  case (2 i ss b)
  then show ?case
    by (fastforce simp: json_items.psimps out_bind_eq_Inr split: if_splits)
next
  case (3 i ss b)
  then show ?case
    by (fastforce simp: json_entries.psimps out_bind_eq_Inr split: if_splits)
qed

type_synonym print_args = "(string \<times> buffer) + (u64 \<times> string \<times> buffer) + (u64 \<times> string \<times> buffer)"

fun print_args_len :: "print_args \<Rightarrow> nat" where
  "print_args_len (Inl (_, b)) = length b"
| "print_args_len (Inr (Inl (_, _, b))) = length b"
| "print_args_len (Inr (Inr (_, _, b))) = length b"

fun print_args_rank :: "print_args \<Rightarrow> nat" where
  "print_args_rank (Inl _) = 0"
| "print_args_rank (Inr _) = 1"

lemma print_total: "print_dom x"
proof -
  have "All print_dom"
  proof (rule "to_json_stream_json_items_json_entries.termination"
      [where R = "measures [print_args_len, print_args_rank]"])
    show "wf (measures [print_args_len, print_args_rank])" by simp
  qed (auto simp: decode_type_Inr dest!: length_le_decode_pint print_shrinks_dom(1))
  then show ?thesis by simp
qed

termination to_json_stream
  by (simp add: print_total)

declare to_json_stream.simps [simp del] json_items.simps [simp del] json_entries.simps [simp del]

section \<open>Entry points\<close>

text \<open>
  \<open>to_json_\<close> wraps the exception: the message carries the text printed so far. It serves both
  \<open>buffer::to_json()\<close> and \<open>range::to_json()\<close>.
\<close>

definition to_json_wrapped :: "buffer \<Rightarrow> exn + string" where
  "to_json_wrapped b =
     (case to_json_stream [] b of
        (ss, Inr _) \<Rightarrow> Inr ss
      | (ss, Inl (Domain_error what)) \<Rightarrow>
          Inl (Domain_error (''cbor to json failed: '' @ what @ [CHR 0x0A] @ ''after:'' @ [CHR 0x0A] @ ss))
      | (ss, Inl e) \<Rightarrow> Inl e)"

definition to_json :: "buffer \<Rightarrow> exn + string" where
  "to_json this = to_json_wrapped this"

text \<open>\<open>to_json(ostream&)\<close>: what has been written to the stream, and the exception if there is one.\<close>

definition to_json_ostream :: "buffer \<Rightarrow> string \<Rightarrow> string \<times> exn option" where
  "to_json_ostream this os =
     (case to_json_stream os this of (os, Inl e) \<Rightarrow> (os, Some e) | (os, Inr _) \<Rightarrow> (os, None))"

text \<open>\<open>cbor_to_json\<close> of the C interface: the callback receives the text of a copy of the bytes.\<close>

definition cbor_to_json :: "buffer \<Rightarrow> (string \<Rightarrow> 'r) \<Rightarrow> exn + 'r" where
  "cbor_to_json buf cb = bindE (to_json buf) (\<lambda>json. Inr (cb json))"

definition hexdump :: "buffer \<Rightarrow> string" where
  "hexdump this = show_nat (length this) @ '':'' @ concat (map (\<lambda>c. '' '' @ tohex c) this)"

end
