(* ===== verification/Actor.thy ===== *)
theory Actor
  imports Env Effects Json_Print
begin

text \<open>
  The core of \<^verbatim>\<open>src/src/instance.cpp\<close>: actors (\<open>struct instance\<close>), the context, handles, message
  queues, links, exit handling, taps and the instance registry.

  User code (behaviours, receivers, exit handlers) is a tree of calls of the library's interface,
  \<open>prog\<close>: each call with the continuation that gets its answer, ending in the result the function
  returns or the exception it throws. The sends can throw (on a message that is not CBOR), and a
  program may catch that. Memory the closures share is a component \<open>'u\<close> of the
  state that a program reads and writes with \<open>Mem\<close>. \<open>'t\<close> is the type of trace handlers: calls of
  a trace handler are recorded in the log, not executed.

  A strand is the queue of its posted tasks, run one at a time and in order; that is what the
  executor guarantees. The system state is what all actors share. An instance lives while its
  \<open>lifetime_\<close> pointer is set, a queued task holds it, or a pending asynchronous operation holds it
  (\<open>a_locks\<close>); the destructor runs when the last of them is gone.
\<close>

section \<open>Programs\<close>

datatype ('t, 'u) prog =
  Ret result
| Throw thrown
| Mem "'u \<Rightarrow> 'u" "'u \<Rightarrow> ('t, 'u) prog"
| Send_raw handle buffer "thrown + result \<Rightarrow> ('t, 'u) prog"
| Self_send buffer "thrown + result \<Rightarrow> ('t, 'u) prog"
| Receive "(handle \<Rightarrow> buffer \<Rightarrow> ('t, 'u) prog) option" "('t, 'u) prog"
| Receive_sync bool "('t, 'u) prog"
| Trap "bool \<Rightarrow> ('t, 'u) prog"
| Set_trap bool "bool \<Rightarrow> ('t, 'u) prog"
| Observe_links "bool \<Rightarrow> ('t, 'u) prog"
| Set_observe_links bool "bool \<Rightarrow> ('t, 'u) prog"
| Link handle "('t, 'u) prog"
| Spawn "('t, 'u) prog" string "'t env_t option" "error + handle \<Rightarrow> ('t, 'u) prog"
| Spawn_link "('t, 'u) prog" string "'t env_t option" "error + handle \<Rightarrow> ('t, 'u) prog"
| Self "handle \<Rightarrow> ('t, 'u) prog"
| Self_ref "handle \<Rightarrow> ('t, 'u) prog"
| Env "'t env_t \<Rightarrow> 't env_t" "'t env_t \<Rightarrow> ('t, 'u) prog"
| Instance_by_id nat "handle \<Rightarrow> ('t, 'u) prog"

section \<open>Actors and the context\<close>

text \<open>
  \<open>receiver_\<close> is empty, the initial function object that runs the behaviour once, or a receiver.
\<close>

datatype ('t, 'u) receiver =
  R_empty | R_init "('t, 'u) prog" | R_fun "handle \<Rightarrow> buffer \<Rightarrow> ('t, 'u) prog"

record ('t, 'u) actor =
  a_name :: string
  a_receiver :: "('t, 'u) receiver"
  a_sync_receiver :: bool
  a_exit_handlers :: "(string \<Rightarrow> ('t, 'u) prog) list"
  a_lifetime :: bool
  a_self_ref :: handle
  a_trap_exit :: bool
  a_observe_links :: bool
  a_in_shutdown :: bool
  a_links :: "handle list"
  a_env :: "'t env_t"
  a_tasks :: "(handle \<times> buffer) list"
  a_locks :: nat

datatype 't event = Ev_trace 't "parm list" | Ev_last_exit

text \<open>
  \<open>next_instance_id\<close> and \<open>instances\<close> are globals of the process, \<open>current_instance\<close> and \<open>in_tap\<close>
  are per thread, the rest are fields of \<open>context_impl\<close>. \<open>log\<close> and \<open>posted\<close> are histories: the calls of
  handlers, and the messages that the queues of the actors have accepted.
\<close>

record ('t, 'u) sys =
  procs :: "pid \<rightharpoonup> ('t, 'u) actor"
  next_instance_id :: nat
  instances :: "nat \<rightharpoonup> pid"
  active :: nat
  last_exit :: bool
  registry :: "(string \<times> handle) list"
  debug_enabled :: nat
  taps :: "(string \<times> handle) list"
  tap_count :: int
  current_instance :: "pid option"
  user_mem :: 'u
  log :: "'t event list"
  posted :: "(pid \<times> handle \<times> buffer) list"

definition context_create :: "'u \<Rightarrow> ('t, 'u) sys" where
  "context_create u = \<lparr>procs = Map.empty, next_instance_id = 1, instances = Map.empty, active = 0,
     last_exit = False, registry = [], debug_enabled = 0, taps = [], tap_count = 0,
     current_instance = None, user_mem = u, log = [], posted = []\<rparr>"

definition on_last_exit :: "bool \<Rightarrow> ('t, 'u) sys \<Rightarrow> ('t, 'u) sys" where
  "on_last_exit h s = s\<lparr>last_exit := h\<rparr>"

definition upd :: "pid \<Rightarrow> (('t, 'u) actor \<Rightarrow> ('t, 'u) actor) \<Rightarrow> ('t, 'u) sys \<Rightarrow> ('t, 'u) sys" where
  "upd p f s = s\<lparr>procs := (procs s)(p := map_option f (procs s p))\<rparr>"

definition actor_of :: "('t, 'u) sys \<Rightarrow> pid \<Rightarrow> ('t, 'u) actor" where
  "actor_of s p = the (procs s p)"

section \<open>Handles\<close>

text \<open>\<open>weak_ptr::lock\<close>: the address, when the instance still exists.\<close>

definition lock :: "('t, 'u) sys \<Rightarrow> handle \<Rightarrow> pid option" where
  "lock s h = (case h_ref h of None \<Rightarrow> None | Some p \<Rightarrow> if procs s p = None then None else Some p)"

definition expired :: "('t, 'u) sys \<Rightarrow> handle \<Rightarrow> bool" where
  "expired s h \<longleftrightarrow> lock s h = None"

definition handle_eq :: "('t, 'u) sys \<Rightarrow> handle \<Rightarrow> handle \<Rightarrow> bool" where
  "handle_eq s a b \<longleftrightarrow> lock s a = lock s b"

definition make_handle :: "('t, 'u) sys \<Rightarrow> pid option \<Rightarrow> handle" where
  "make_handle s r =
     \<lparr>h_ref = r, h_id = (case lock s \<lparr>h_ref = r, h_id = 0\<rparr> of Some p \<Rightarrow> p | None \<Rightarrow> 0)\<rparr>"

definition instance_id :: "handle \<Rightarrow> nat" where
  "instance_id h = h_id h"

definition instance_by_id :: "('t, 'u) sys \<Rightarrow> nat \<Rightarrow> handle" where
  "instance_by_id s i = make_handle s (instances s i)"

text \<open>The printed form of an actor: \<open>["PID", id, name]\<close>.\<close>

definition ref_m_id :: "nat \<Rightarrow> string \<Rightarrow> buffer" where
  "ref_m_id i name = cbor_array [P_str ''PID'', P_uint (of_nat i), P_str name]"

definition ref_m_instance :: "('t, 'u) sys \<Rightarrow> pid \<Rightarrow> buffer" where
  "ref_m_instance s p = ref_m_id p (a_name (actor_of s p))"

definition ref_m :: "('t, 'u) sys \<Rightarrow> handle \<Rightarrow> buffer" where
  "ref_m s h = (case lock s h of Some p \<Rightarrow> ref_m_instance s p | None \<Rightarrow> ref_m_id 0 ''none'')"

section \<open>Messages of the library\<close>

definition is_exit_msg :: "buffer \<Rightarrow> exn + bool" where
  "is_exit_msg m = bindE (matches m [Pat_string ''exit'', p_any, p_more]) (\<lambda>r. Inr (r \<noteq> None))"

definition link_msg :: buffer where
  "link_msg = cbor_array [P_str ''link'']"

definition is_link_msg :: "buffer \<Rightarrow> bool" where
  "is_link_msg m \<longleftrightarrow> m = link_msg"

definition context_error :: string where
  "context_error = ''call out of context''"

definition exit_message :: "string \<Rightarrow> parm list \<Rightarrow> buffer" where
  "exit_message e parms = cbor_array (P_str ''exit'' # P_str e # parms)"

definition exit_result :: "string \<Rightarrow> parm list \<Rightarrow> result" where
  "exit_result e parms = Inl (exit_message e parms)"

definition exit_normal :: result where
  "exit_normal = exit_result ''normal'' []"

definition unexpected :: "buffer \<Rightarrow> exn + result" where
  "unexpected b = bindE (to_json b) (\<lambda>j. Inr (exit_result (''UNEXPECTED_MESSAGE:'' @ j) []))"

definition exit_normal_msg :: buffer where
  "exit_normal_msg = cbor_array [P_str ''exit'', P_str ''normal'']"

definition exit_noreceive_msg :: buffer where
  "exit_noreceive_msg = cbor_array [P_str ''exit'', P_str ''noreceive'']"

section \<open>Tracing\<close>

text \<open>
  \<open>do_trace_raw\<close> prefixes the message with four counters of the executor and of the shared pointer,
  which are not part of the model: the log holds what follows them. The handler is code of the user, or
  of \<^verbatim>\<open>trace.cpp\<close>; the model has the runs in which it returns. Outside the \<open>try\<close> block of \<open>run\<close> an
  exception of it would reach the executor.
\<close>

definition do_trace_raw :: "'t env_t \<Rightarrow> parm list \<Rightarrow> ('t, 'u) sys \<Rightarrow> ('t, 'u) sys" where
  "do_trace_raw env parms s =
     (case trace_handler env of None \<Rightarrow> s | Some h \<Rightarrow> s\<lparr>log := log s @ [Ev_trace h parms]\<rparr>)"

definition do_trace :: "pid \<Rightarrow> channel \<Rightarrow> parm list \<Rightarrow> ('t, 'u) sys \<Rightarrow> ('t, 'u) sys" where
  "do_trace p c parms s = (let env = a_env (actor_of s p) in
     if enabled c env then do_trace_raw env (P_buf (ref_m_instance s p) # parms) s else s)"

definition do_trace_to ::
    "pid \<Rightarrow> channel \<Rightarrow> string \<Rightarrow> handle \<Rightarrow> parm list \<Rightarrow> ('t, 'u) sys \<Rightarrow> ('t, 'u) sys" where
  "do_trace_to p c tag to parms s = do_trace p c (P_str tag # P_buf (ref_m s to) # parms) s"

definition link_names :: "('t, 'u) sys \<Rightarrow> handle list \<Rightarrow> string list" where
  "link_names s hs = concat (map (\<lambda>h. case lock s h of
     Some q \<Rightarrow> [a_name (actor_of s q)] | None \<Rightarrow> []) hs)"

definition links_buffer :: "('t, 'u) sys \<Rightarrow> handle list \<Rightarrow> buffer" where
  "links_buffer s hs = (let names = link_names s hs in
     push_parms (map P_str names) (array_header (of_nat (length names)) []))"

definition do_trace_links :: "pid \<Rightarrow> channel \<Rightarrow> ('t, 'u) sys \<Rightarrow> ('t, 'u) sys" where
  "do_trace_links p c s =
     do_trace p c [P_str ''links'', P_buf (links_buffer s (a_links (actor_of s p)))] s"

section \<open>Debugging: the registry of names\<close>

definition isenabled :: "('t, 'u) sys \<Rightarrow> bool" where
  "isenabled s \<longleftrightarrow> debug_enabled s > 0"

definition debug_enable :: "('t, 'u) sys \<Rightarrow> ('t, 'u) sys" where
  "debug_enable s = s\<lparr>debug_enabled := (debug_enabled s + 1) mod 2 ^ 64\<rparr>"

text \<open>\<open>fetch_sub\<close> on an unsigned 64-bit counter, which wraps around.\<close>

definition debug_disable :: "('t, 'u) sys \<Rightarrow> ('t, 'u) sys" where
  "debug_disable s =
     (let prev = debug_enabled s; s = s\<lparr>debug_enabled := (prev + 2 ^ 64 - 1) mod 2 ^ 64\<rparr> in
      if prev = 1 then s\<lparr>registry := []\<rparr> else s)"

definition register_instance :: "handle \<Rightarrow> ('t, 'u) sys \<Rightarrow> ('t, 'u) sys" where
  "register_instance h s =
     (if \<not> isenabled s then s
      else case lock s h of None \<Rightarrow> s
        | Some p \<Rightarrow> let name = a_name (actor_of s p) in
            if name = [] then s else s\<lparr>registry := omap_update name h (registry s)\<rparr>)"

definition unregister_instance :: "string \<Rightarrow> ('t, 'u) sys \<Rightarrow> ('t, 'u) sys" where
  "unregister_instance name s =
     (if \<not> isenabled s then s else s\<lparr>registry := omap_erase name (registry s)\<rparr>)"

definition get_name :: "('t, 'u) sys \<Rightarrow> string \<Rightarrow> handle" where
  "get_name s name = (case map_of (registry s) name of Some h \<Rightarrow> h | None \<Rightarrow> null_handle)"

definition get_names :: "('t, 'u) sys \<Rightarrow> buffer" where
  "get_names s = (let names = map fst (filter (\<lambda>(n, h). \<not> expired s h) (registry s)) in
     push_parms (map P_str names) (array_header (of_nat (length names)) []))"

section \<open>Sending to a dead actor\<close>

text \<open>
  \<open>deadsend\<close>: a live sender that is not shutting down gets an error, except for exit messages. The
  match throws when the message is not a CBOR array.
\<close>

definition deadsend :: "buffer \<Rightarrow> handle \<Rightarrow> (result, ('t, 'u) sys) comp" where
  "deadsend m from s =
     (case current_instance s of None \<Rightarrow> (Inr ok, s)
      | Some c \<Rightarrow>
          if a_in_shutdown (actor_of s c) then (Inr ok, s)
          else case matches m [Pat_string ''exit'', p_more] of
              Inl e \<Rightarrow> (Inl (Std_exn (exn_what e)), s)
            | Inr (Some _) \<Rightarrow> (Inr ok, s)
            | Inr None \<Rightarrow> (Inr (Inl (exit_message ''DEADSEND''
                [P_buf m, P_buf (ref_m s from), P_buf (ref_m_instance s c)])), s))"

section \<open>Queues and taps\<close>

definition submit_msg_task :: "pid \<Rightarrow> handle \<Rightarrow> buffer \<Rightarrow> ('t, 'u) sys \<Rightarrow> ('t, 'u) sys" where
  "submit_msg_task p from m = upd p (\<lambda>a. a\<lparr>a_tasks := a_tasks a @ [(from, m)]\<rparr>)"

text \<open>The history of what \<open>queue\<close> accepts, for an actor that lives; nothing of the program reads it.\<close>

definition record_post :: "pid \<Rightarrow> handle \<Rightarrow> buffer \<Rightarrow> ('t, 'u) sys \<Rightarrow> ('t, 'u) sys" where
  "record_post p from m s = (if procs s p = None then s else s\<lparr>posted := posted s @ [(p, from, m)]\<rparr>)"

text \<open>
  \<open>instance::queue\<close> with the tap as a parameter: a message queued while a tap is being delivered is
  not tapped again (the flag \<open>in_tap\<close>), so the recursion between \<open>queue\<close> and \<open>tap_message\<close> is one
  level deep. \<open>queue_in_tap\<close> is \<open>queue\<close> while \<open>in_tap\<close> is set.
\<close>

definition queue_with ::
    "(string \<Rightarrow> handle \<Rightarrow> buffer \<Rightarrow> ('t, 'u) sys \<Rightarrow> ('t, 'u) sys) \<Rightarrow>
     pid \<Rightarrow> handle \<Rightarrow> buffer \<Rightarrow> (result, ('t, 'u) sys) comp" where
  "queue_with tap p from m s =
     (let s = (if \<not> is_null m \<and> enabled Ch_send (a_env (actor_of s p)) then
                 do_trace_raw (a_env (actor_of s p)) [P_buf (ref_m s from), P_str ''send'',
                   P_buf (ref_m_instance s p), P_buf m] s
               else s) in
      if a_in_shutdown (actor_of s p) then deadsend m from s
      else let s = (if tap_count s > 0 \<and> \<not> is_null m then tap (a_name (actor_of s p)) from m s else s)
        in (Inr ok, submit_msg_task p from m (record_post p from m s)))"

definition queue_in_tap :: "pid \<Rightarrow> handle \<Rightarrow> buffer \<Rightarrow> (result, ('t, 'u) sys) comp" where
  "queue_in_tap = queue_with (\<lambda>_ _ _ s. s)"

definition instance_name :: "('t, 'u) sys \<Rightarrow> handle \<Rightarrow> string" where
  "instance_name s h = (case lock s h of Some p \<Rightarrow> a_name (actor_of s p) | None \<Rightarrow> [])"

text \<open>\<open>tap_subscribers\<close> drops the expired taps of a name and returns the others.\<close>

definition tap_subscribers :: "string \<Rightarrow> ('t, 'u) sys \<Rightarrow> handle list \<times> ('t, 'u) sys" where
  "tap_subscribers name s =
     (let keep = filter (\<lambda>(n, h). \<not> (n = name \<and> expired s h)) (taps s);
          s' = s\<lparr>taps := keep, tap_count := tap_count s - int (length (taps s) - length keep)\<rparr>
      in (mmap_equal_range name keep, s'))"

fun tap_deliver :: "handle list \<Rightarrow> buffer \<Rightarrow> ('t, 'u) sys \<Rightarrow> ('t, 'u) sys" where
  "tap_deliver [] ev s = s"
| "tap_deliver (h # subs) ev s =
     (let s = (case lock s h of Some p \<Rightarrow> snd (queue_in_tap p null_handle ev s) | None \<Rightarrow> s)
      in tap_deliver subs ev s)"

definition tap_event :: "string \<Rightarrow> string \<Rightarrow> string \<Rightarrow> buffer \<Rightarrow> buffer" where
  "tap_event name what peer m =
     cbor_array [P_str ''debug_tap'', P_str name, P_str what, P_str peer, P_buf m]"

definition tap_one :: "string \<Rightarrow> buffer \<Rightarrow> ('t, 'u) sys \<Rightarrow> ('t, 'u) sys" where
  "tap_one name ev s =
     (case tap_subscribers name s of (subs, s) \<Rightarrow> if subs \<noteq> [] then tap_deliver subs ev s else s)"

definition tap_message :: "string \<Rightarrow> handle \<Rightarrow> buffer \<Rightarrow> ('t, 'u) sys \<Rightarrow> ('t, 'u) sys" where
  "tap_message to from m s =
     (let from_name = instance_name s from;
          s = (if to \<noteq> [] then tap_one to (tap_event to ''recv'' from_name m) s else s)
      in if from_name \<noteq> [] then tap_one from_name (tap_event from_name ''send'' to m) s else s)"

definition tap_exit :: "string \<Rightarrow> buffer \<Rightarrow> ('t, 'u) sys \<Rightarrow> ('t, 'u) sys" where
  "tap_exit name m s = (if name = [] then s else tap_one name (tap_event name ''exit'' [] m) s)"

definition is_tapping :: "('t, 'u) sys \<Rightarrow> bool" where
  "is_tapping s \<longleftrightarrow> tap_count s > 0"

definition tap_add :: "string \<Rightarrow> handle \<Rightarrow> ('t, 'u) sys \<Rightarrow> ('t, 'u) sys" where
  "tap_add name sub s =
     (if \<exists>h \<in> set (mmap_equal_range name (taps s)). handle_eq s h sub then s
      else s\<lparr>taps := mmap_emplace name sub (taps s), tap_count := tap_count s + 1\<rparr>)"

text \<open>An empty name removes all taps of the subscriber.\<close>

definition tap_remove :: "string \<Rightarrow> handle \<Rightarrow> ('t, 'u) sys \<Rightarrow> bool \<times> ('t, 'u) sys" where
  "tap_remove name sub s =
     (let keep = filter (\<lambda>(n, h). \<not> ((name = [] \<or> n = name) \<and> handle_eq s h sub)) (taps s);
          removed = length (taps s) - length keep
      in (removed > 0, s\<lparr>taps := keep, tap_count := tap_count s - int removed\<rparr>))"

definition queue :: "pid \<Rightarrow> handle \<Rightarrow> buffer \<Rightarrow> (result, ('t, 'u) sys) comp" where
  "queue = queue_with tap_message"

definition schedule :: "pid \<Rightarrow> (result, ('t, 'u) sys) comp" where
  "schedule p = queue p null_handle null_value"

definition instance_send_raw :: "pid \<Rightarrow> buffer \<Rightarrow> (result, ('t, 'u) sys) comp" where
  "instance_send_raw p m s =
     queue p (case current_instance s of Some c \<Rightarrow> a_self_ref (actor_of s c) | None \<Rightarrow> null_handle) m s"

definition handle_send_raw :: "handle \<Rightarrow> buffer \<Rightarrow> (result, ('t, 'u) sys) comp" where
  "handle_send_raw h m s =
     (case lock s h of Some p \<Rightarrow> instance_send_raw p m s | None \<Rightarrow> deadsend m h s)"

definition handle_exit_to :: "handle \<Rightarrow> string \<Rightarrow> parm list \<Rightarrow> (result, ('t, 'u) sys) comp" where
  "handle_exit_to h e details = handle_send_raw h (exit_message e details)"

section \<open>Spawning\<close>

text \<open>The constructor and the registration of a new instance; \<open>eh\<close> is an exit handler or nothing.\<close>

definition instance_new ::
    "('t, 'u) prog \<Rightarrow> (string \<Rightarrow> ('t, 'u) prog) option \<Rightarrow> string \<Rightarrow> 't env_t \<Rightarrow>
     ('t, 'u) sys \<Rightarrow> pid \<times> ('t, 'u) sys" where
  "instance_new b eh name env s =
     (let p = next_instance_id s;
          a = \<lparr>a_name = name, a_receiver = R_init b, a_sync_receiver = False,
               a_exit_handlers = (case eh of Some h \<Rightarrow> [h] | None \<Rightarrow> []), a_lifetime = True,
               a_self_ref = \<lparr>h_ref = Some p, h_id = p\<rparr>, a_trap_exit = False,
               a_observe_links = False, a_in_shutdown = False, a_links = [], a_env = env,
               a_tasks = [], a_locks = 0\<rparr>
      in (p, s\<lparr>next_instance_id := p + 1, active := active s + 1, procs := (procs s)(p \<mapsto> a),
               instances := (instances s)(p \<mapsto> p)\<rparr>))"

definition instance_spawn ::
    "('t, 'u) prog \<Rightarrow> (string \<Rightarrow> ('t, 'u) prog) option \<Rightarrow> string \<Rightarrow> pid option \<Rightarrow> 't env_t \<Rightarrow>
     (error + handle, ('t, 'u) sys) comp" where
  "instance_spawn b eh name lnk env s =
     (case instance_new b eh name env s of (p, s) \<Rightarrow>
      let s = do_trace p Ch_lifetime [P_str ''spawn''] s; h = make_handle s (Some p) in
      bindS (if expired s \<lparr>h_ref = lnk, h_id = 0\<rparr> then returnS ok
             else queue p (make_handle s lnk) link_msg) (\<lambda>ret.
        case ret of Inl e \<Rightarrow> returnS (Inl e)
        | Inr _ \<Rightarrow> bindS (schedule p) (\<lambda>ret.
            case ret of Inl e \<Rightarrow> returnS (Inl e)
            | Inr _ \<Rightarrow> bindS (modifyS (register_instance h)) (\<lambda>_. returnS (Inr h)))) s)"

definition context_spawn ::
    "('t, 'u) prog \<Rightarrow> string \<Rightarrow> 't env_t \<Rightarrow> (error + handle, ('t, 'u) sys) comp" where
  "context_spawn b name env = instance_spawn b None name None env"

text \<open>\<open>context::spawn_link\<close> requires an exit handler.\<close>

definition context_spawn_link ::
    "('t, 'u) prog \<Rightarrow> (string \<Rightarrow> ('t, 'u) prog) option \<Rightarrow> string \<Rightarrow> 't env_t \<Rightarrow>
     (error + handle, ('t, 'u) sys) comp" where
  "context_spawn_link b eh name env =
     (if eh = None then throwS (Std_exn ''exit_handler required'')
      else instance_spawn b eh name None env)"

section \<open>The interface of the running actor\<close>

definition private_call :: "(pid, ('t, 'u) sys) comp" where
  "private_call s =
     (case current_instance s of None \<Rightarrow> (Inl (Std_exn context_error), s) | Some p \<Rightarrow> (Inr p, s))"

text \<open>The method \<open>instance::private_call\<close>: the caller must be the instance itself.\<close>

definition private_call_of :: "pid \<Rightarrow> (unit, ('t, 'u) sys) comp" where
  "private_call_of p s =
     (if current_instance s \<noteq> Some p then (Inl (Std_exn context_error), s) else (Inr (), s))"

definition api_receive ::
    "(handle \<Rightarrow> buffer \<Rightarrow> ('t, 'u) prog) option \<Rightarrow> (unit, ('t, 'u) sys) comp" where
  "api_receive r =
     bindS private_call (\<lambda>p. bindS (private_call_of p) (\<lambda>_.
       modifyS (\<lambda>s. upd p (\<lambda>a. a\<lparr>a_receiver := (case r of None \<Rightarrow> R_empty | Some f \<Rightarrow> R_fun f)\<rparr>)
         (do_trace p Ch_receive [P_str ''receive'', P_str ''set''] s))))"

definition api_receive_sync :: "bool \<Rightarrow> (unit, ('t, 'u) sys) comp" where
  "api_receive_sync r =
     bindS private_call (\<lambda>p. bindS (private_call_of p) (\<lambda>_.
       modifyS (\<lambda>s. upd p (\<lambda>a. a\<lparr>a_sync_receiver := r\<rparr>)
         (do_trace p Ch_receive [P_str ''receive_sync'', P_str ''set''] s))))"

definition api_send_raw :: "buffer \<Rightarrow> (result, ('t, 'u) sys) comp" where
  "api_send_raw m = bindS private_call (\<lambda>p. instance_send_raw p m)"

definition api_trap :: "(bool, ('t, 'u) sys) comp" where
  "api_trap = bindS private_call (\<lambda>p s. (Inr (a_trap_exit (actor_of s p)), s))"

definition api_set_trap :: "bool \<Rightarrow> (bool, ('t, 'u) sys) comp" where
  "api_set_trap t = bindS private_call (\<lambda>p s.
     (Inr (a_trap_exit (actor_of s p)), upd p (\<lambda>a. a\<lparr>a_trap_exit := t\<rparr>) s))"

definition api_observe_links :: "(bool, ('t, 'u) sys) comp" where
  "api_observe_links = bindS private_call (\<lambda>p s. (Inr (a_observe_links (actor_of s p)), s))"

definition api_set_observe_links :: "bool \<Rightarrow> (bool, ('t, 'u) sys) comp" where
  "api_set_observe_links t = bindS private_call (\<lambda>p s.
     (Inr (a_observe_links (actor_of s p)), upd p (\<lambda>a. a\<lparr>a_observe_links := t\<rparr>) s))"

definition add_link :: "pid \<Rightarrow> handle \<Rightarrow> ('t, 'u) sys \<Rightarrow> ('t, 'u) sys" where
  "add_link p h = upd p (\<lambda>a. a\<lparr>a_links := h # a_links a\<rparr>)"

definition instance_link :: "pid \<Rightarrow> handle \<Rightarrow> (result, ('t, 'u) sys) comp" where
  "instance_link p h =
     bindS (handle_send_raw h link_msg) (\<lambda>ret.
       case ret of Inl e \<Rightarrow> returnS (Inl e)
       | Inr _ \<Rightarrow> bindS (modifyS (\<lambda>s. add_link p h (do_trace_to p Ch_link ''link'' h [] s)))
           (\<lambda>_. returnS ok))"

text \<open>The free function \<open>link\<close> drops the result.\<close>

definition api_link :: "handle \<Rightarrow> (unit, ('t, 'u) sys) comp" where
  "api_link h = bindS private_call (\<lambda>p. bindS (instance_link p h) (\<lambda>_. returnS ()))"

definition env_or :: "'t env_t option \<Rightarrow> pid \<Rightarrow> ('t, 'u) sys \<Rightarrow> 't env_t" where
  "env_or e p s = (case e of Some env \<Rightarrow> env | None \<Rightarrow> a_env (actor_of s p))"

definition api_spawn ::
    "('t, 'u) prog \<Rightarrow> string \<Rightarrow> 't env_t option \<Rightarrow> (error + handle, ('t, 'u) sys) comp" where
  "api_spawn b name e =
     bindS private_call (\<lambda>p s. instance_spawn b None name None (env_or e p s) s)"

definition instance_spawn_link ::
    "pid \<Rightarrow> ('t, 'u) prog \<Rightarrow> string \<Rightarrow> 't env_t \<Rightarrow> (error + handle, ('t, 'u) sys) comp" where
  "instance_spawn_link p b name env s =
     bindS (instance_spawn b None name (if a_lifetime (actor_of s p) then Some p else None) env)
       (\<lambda>ret. case ret of Inl e \<Rightarrow> returnS (Inl e)
        | Inr h \<Rightarrow> bindS (modifyS (\<lambda>s. add_link p h (do_trace_to p Ch_link ''link'' h [] s)))
            (\<lambda>_. returnS (Inr h))) s"

definition api_spawn_link ::
    "('t, 'u) prog \<Rightarrow> string \<Rightarrow> 't env_t option \<Rightarrow> (error + handle, ('t, 'u) sys) comp" where
  "api_spawn_link b name e =
     bindS private_call (\<lambda>p s. instance_spawn_link p b name (env_or e p s) s)"

definition api_self :: "(handle, ('t, 'u) sys) comp" where
  "api_self = bindS private_call (\<lambda>p s.
     (Inr (make_handle s (if a_lifetime (actor_of s p) then Some p else None)), s))"

definition api_self_ref :: "(handle, ('t, 'u) sys) comp" where
  "api_self_ref = bindS private_call (\<lambda>p s. (Inr (a_self_ref (actor_of s p)), s))"

definition api_env :: "('t env_t \<Rightarrow> 't env_t) \<Rightarrow> ('t env_t, ('t, 'u) sys) comp" where
  "api_env f = bindS private_call (\<lambda>p s.
     let s' = upd p (\<lambda>a. a\<lparr>a_env := f (a_env a)\<rparr>) s in (Inr (a_env (actor_of s' p)), s'))"

text \<open>Running a program: each call of the interface in turn.\<close>

primrec exec :: "('t, 'u) prog \<Rightarrow> (result, ('t, 'u) sys) comp" where
  "exec (Ret r) = returnS r"
| "exec (Throw t) = throwS t"
| "exec (Mem f k) = (\<lambda>s. exec (k (user_mem s)) (s\<lparr>user_mem := f (user_mem s)\<rparr>))"
| "exec (Send_raw h m k) = (\<lambda>s. case handle_send_raw h m s of (r, s') \<Rightarrow> exec (k r) s')"
| "exec (Self_send m k) = (\<lambda>s. case api_send_raw m s of (r, s') \<Rightarrow> exec (k r) s')"
| "exec (Receive r k) = bindS (api_receive r) (\<lambda>_. exec k)"
| "exec (Receive_sync r k) = bindS (api_receive_sync r) (\<lambda>_. exec k)"
| "exec (Trap k) = bindS api_trap (\<lambda>r. exec (k r))"
| "exec (Set_trap t k) = bindS (api_set_trap t) (\<lambda>r. exec (k r))"
| "exec (Observe_links k) = bindS api_observe_links (\<lambda>r. exec (k r))"
| "exec (Set_observe_links t k) = bindS (api_set_observe_links t) (\<lambda>r. exec (k r))"
| "exec (Link h k) = bindS (api_link h) (\<lambda>_. exec k)"
| "exec (Spawn b n e k) = bindS (api_spawn b n e) (\<lambda>r. exec (k r))"
| "exec (Spawn_link b n e k) = bindS (api_spawn_link b n e) (\<lambda>r. exec (k r))"
| "exec (Self k) = bindS api_self (\<lambda>r. exec (k r))"
| "exec (Self_ref k) = bindS api_self_ref (\<lambda>r. exec (k r))"
| "exec (Env f k) = bindS (api_env f) (\<lambda>r. exec (k r))"
| "exec (Instance_by_id i k) = (\<lambda>s. exec (k (instance_by_id s i)) s)"

section \<open>Exit\<close>

text \<open>The reason an exit handler is given.\<close>

definition exit_reason :: "buffer \<Rightarrow> exn + string" where
  "exit_reason m =
     bindE (matches m [Pat_type Type_string, Pat_extract E_string, p_more]) (\<lambda>r.
       case r of Some (X_string err # _) \<Rightarrow> Inr err
       | _ \<Rightarrow> bindE (to_json m) (\<lambda>j. Inr (''bad_exit_message: '' @ j)))"

definition run_exit_handlers :: "pid \<Rightarrow> buffer \<Rightarrow> (unit, ('t, 'u) sys) comp" where
  "run_exit_handlers p m s =
     (let handlers = a_exit_handlers (actor_of s p) in
      if handlers = [] then (Inr (), s)
      else bindS (modifyS (upd p (\<lambda>a. a\<lparr>a_exit_handlers := []\<rparr>))) (\<lambda>_.
           bindS (liftS (exit_reason m)) (\<lambda>err.
           forS handlers (\<lambda>eh. bindS (exec (eh err)) (\<lambda>_. returnS ())))) s)"

definition handle_exit :: "pid \<Rightarrow> buffer \<Rightarrow> (unit, ('t, 'u) sys) comp" where
  "handle_exit p m =
     bindS (modifyS (upd p (\<lambda>a. a\<lparr>a_in_shutdown := True\<rparr>))) (\<lambda>_.
     bindS (\<lambda>s. forS (a_links (actor_of s p))
              (\<lambda>h. bindS (handle_send_raw h m) (\<lambda>_. returnS ())) s) (\<lambda>_.
     bindS (modifyS (do_trace p Ch_lifetime [P_str ''exit'', P_buf m])) (\<lambda>_.
     bindS (modifyS (\<lambda>s. if is_tapping s then tap_exit (a_name (actor_of s p)) m s else s)) (\<lambda>_.
     bindS (run_exit_handlers p m) (\<lambda>_.
     modifyS (upd p (\<lambda>a. a\<lparr>a_receiver := R_empty, a_sync_receiver := False,
       a_lifetime := False\<rparr>)))))))"

section \<open>Running one message\<close>

text \<open>Calling \<open>receiver_\<close>; the initial one clears itself and runs the behaviour.\<close>

definition call_receiver :: "pid \<Rightarrow> handle \<Rightarrow> buffer \<Rightarrow> (result, ('t, 'u) sys) comp" where
  "call_receiver p from m s =
     (case a_receiver (actor_of s p) of
        R_empty \<Rightarrow> (Inl (Std_exn ''bad_function_call''), s)
      | R_init b \<Rightarrow> exec b (upd p (\<lambda>a. a\<lparr>a_receiver := R_empty\<rparr>)
          (do_trace p Ch_lifetime [P_str ''init''] s))
      | R_fun f \<Rightarrow> exec (f from m) s)"

fun receiver_empty :: "('t, 'u) receiver \<Rightarrow> bool" where
  "receiver_empty R_empty = True"
| "receiver_empty _ = False"

text \<open>The body of the \<open>try\<close> block of \<open>run\<close>.\<close>

definition run_receive :: "pid \<Rightarrow> handle \<Rightarrow> buffer \<Rightarrow> (result, ('t, 'u) sys) comp" where
  "run_receive p from m =
     bindS (modifyS (\<lambda>s. if is_null m then s else do_trace_to p Ch_receive ''receive'' from [P_buf m] s))
       (\<lambda>_. bindS (call_receiver p from m) (\<lambda>ret s.
          if ret = ok \<and> current_instance s \<noteq> None \<and> receiver_empty (a_receiver (actor_of s p))
          then bindS (handle_exit p exit_noreceive_msg) (\<lambda>_. returnS ret) s
          else (Inr ret, s)))"

definition run_try :: "pid \<Rightarrow> handle \<Rightarrow> buffer \<Rightarrow> (unit, ('t, 'u) sys) comp" where
  "run_try p from m s =
     (if current_instance s \<noteq> None \<and> current_instance s \<noteq> Some p
      then (Inl (Std_exn context_error), s)
      else bindS (modifyS (\<lambda>s. s\<lparr>current_instance := Some p\<rparr>)) (\<lambda>_.
        bindS (\<lambda>s. if \<not> a_trap_exit (actor_of s p) then liftS (is_exit_msg m) s
                   else (Inr False, s)) (\<lambda>is_exit.
        bindS (if is_exit then
                 (if m \<noteq> exit_normal_msg then bindS (handle_exit p m) (\<lambda>_. returnS ok)
                  else returnS ok)
               else run_receive p from m) (\<lambda>ret.
        case ret of Inl e \<Rightarrow> handle_exit p e | Inr _ \<Rightarrow> returnS ()))) s)"

definition run_catch :: "pid \<Rightarrow> thrown \<Rightarrow> (unit, ('t, 'u) sys) comp" where
  "run_catch p t s =
     (if current_instance s = None then (Inl t, s)
      else case t of
          Std_exn what \<Rightarrow> handle_exit p (exit_message (''UNHANDLED_EXCEPTION: '' @ what) []) s
        | Other_exn \<Rightarrow> handle_exit p (exit_message ''UNHANDLED_EXCEPTION'' []) s)"

definition run_link :: "pid \<Rightarrow> handle \<Rightarrow> ('t, 'u) sys \<Rightarrow> ('t, 'u) sys" where
  "run_link p from s =
     (let observe = a_observe_links (actor_of s p);
          s = (if \<not> observe then do_trace p Ch_execute [P_str ''run''] s else s);
          s = add_link p from (do_trace_to p Ch_link ''link'' from [] s);
          s = (if isenabled s then do_trace_links p Ch_link s else s)
      in if \<not> observe then do_trace p Ch_execute [P_str ''sleep''] s else s)"

text \<open>What \<open>run\<close> does after the link message: the shutdown test, the \<open>try\<close> block and the end.\<close>

definition run_body :: "pid \<Rightarrow> handle \<Rightarrow> buffer \<Rightarrow> (unit, ('t, 'u) sys) comp" where
  "run_body p from m s =
     (if a_in_shutdown (actor_of s p) then (Inr (), s)
      else bindS (modifyS (do_trace p Ch_execute [P_str ''run''])) (\<lambda>_.
           bindS (catchS (run_try p from m) (run_catch p)) (\<lambda>_.
           modifyS (\<lambda>s. if current_instance s \<noteq> None then
               (if \<not> a_in_shutdown (actor_of s p) then do_trace p Ch_execute [P_str ''sleep''] s
                else s)\<lparr>current_instance := None\<rparr> else s))) s)"

definition run :: "pid \<Rightarrow> handle \<Rightarrow> buffer \<Rightarrow> (unit, ('t, 'u) sys) comp" where
  "run p from m s =
     (if is_link_msg m then
        (if \<not> a_observe_links (actor_of s p) then (Inr (), run_link p from s)
         else run_body p from m (run_link p from s))
      else run_body p from m s)"

definition dispatch_sync_raw :: "pid \<Rightarrow> buffer \<Rightarrow> (result, ('t, 'u) sys) comp" where
  "dispatch_sync_raw p m s =
     (let from = (case current_instance s of Some c \<Rightarrow> a_self_ref (actor_of s c)
                  | None \<Rightarrow> null_handle) in
      if a_in_shutdown (actor_of s p) then deadsend m from s
      else bindS (run p from m) (\<lambda>_. returnS ok) s)"

section \<open>Destruction and the executor's steps\<close>

text \<open>\<open>~instance\<close>: handles to the instance are already expired while it runs.\<close>

definition destroy :: "pid \<Rightarrow> ('t, 'u) sys \<Rightarrow> ('t, 'u) sys" where
  "destroy p s =
     (let a = actor_of s p; env = a_env a; me = P_buf (ref_m_instance s p); prev = active s;
          s = s\<lparr>procs := (procs s)(p := None), instances := (instances s)(p := None),
                active := prev - 1\<rparr>;
          tr = (\<lambda>c parms s. if enabled c env then do_trace_raw env (me # parms) s else s);
          s = (if isenabled s then
                 tr Ch_lifetime [P_str ''living'', P_buf (get_names s)]
                   (tr Ch_link [P_str ''links'', P_buf (links_buffer s (a_links a))] s)
               else s);
          s = tr Ch_lifetime [P_str ''destroyed'', P_uint (of_nat (prev - 1))] s
      in if prev = 1 then
           let s = tr Ch_lifetime [P_str ''last_exit''] s
           in if last_exit s then s\<lparr>log := log s @ [Ev_last_exit]\<rparr> else s
         else s)"

definition unreferenced :: "('t, 'u) actor \<Rightarrow> bool" where
  "unreferenced a \<longleftrightarrow> \<not> a_lifetime a \<and> a_tasks a = [] \<and> a_locks a = 0"

definition collect :: "pid \<Rightarrow> ('t, 'u) sys \<Rightarrow> ('t, 'u) sys" where
  "collect p s =
     (case procs s p of Some a \<Rightarrow> if unreferenced a then destroy p s else s | None \<Rightarrow> s)"

text \<open>The executor takes the oldest task of a strand, runs it, and drops its hold on the instance.\<close>

definition run_task :: "pid \<Rightarrow> (unit, ('t, 'u) sys) comp" where
  "run_task p s =
     (case procs s p of None \<Rightarrow> (Inr (), s)
      | Some a \<Rightarrow> (case a_tasks a of [] \<Rightarrow> (Inr (), s)
         | (from, m) # ts \<Rightarrow>
             (case run p from m (upd p (\<lambda>a. a\<lparr>a_tasks := ts, a_locks := a_locks a + 1\<rparr>) s) of
                (r, s) \<Rightarrow> (r, collect p (upd p (\<lambda>a. a\<lparr>a_locks := a_locks a - 1\<rparr>) s)))))"

end
