(* ===== verification/Actor_Frame.thy ===== *)
theory Actor_Frame
  imports Actor
begin

text \<open>
  What user code can do to the system. The locale \<open>sys_order\<close> states it once: a preorder on system
  states that is closed under the elementary updates of the library (a trace, a queued message, a
  registration, a new instance, a change of the running actor's own settings) is kept by every
  program, whatever it calls. The interpretations are the relations the properties rest on: the
  frame (other actors only ever gain messages) and the invariant of the system.
\<close>

section \<open>Elementary facts\<close>

lemma upd_simps [simp]:
  "current_instance (upd p f s) = current_instance s" "next_instance_id (upd p f s) = next_instance_id s"
  "instances (upd p f s) = instances s" "active (upd p f s) = active s"
  "last_exit (upd p f s) = last_exit s" "registry (upd p f s) = registry s"
  "debug_enabled (upd p f s) = debug_enabled s" "taps (upd p f s) = taps s"
  "tap_count (upd p f s) = tap_count s" "user_mem (upd p f s) = user_mem s" "log (upd p f s) = log s"
  "posted (upd p f s) = posted s"
  by (simp_all add: upd_def)

lemma procs_upd: "procs (upd p f s) q = (if q = p then map_option f (procs s p) else procs s q)"
  by (simp add: upd_def)

lemma procs_upd_same [simp]: "procs (upd p f s) p = map_option f (procs s p)"
  by (simp add: procs_upd)

lemma procs_upd_other [simp]: "q \<noteq> p \<Longrightarrow> procs (upd p f s) q = procs s q"
  by (simp add: procs_upd)

lemma dom_procs_upd [simp]: "dom (procs (upd p f s)) = dom (procs s)"
  by (auto simp: procs_upd dom_def)

lemma actor_of_upd: "procs s p \<noteq> None \<Longrightarrow> actor_of (upd p f s) p = f (actor_of s p)"
  by (auto simp: actor_of_def)

lemma actor_of_upd_other [simp]: "q \<noteq> p \<Longrightarrow> actor_of (upd p f s) q = actor_of s q"
  by (simp add: actor_of_def)

lemma lock_Some: "lock s h = Some p \<longleftrightarrow> h_ref h = Some p \<and> procs s p \<noteq> None"
  by (auto simp: lock_def split: option.splits if_splits)

section \<open>Orders that user code keeps\<close>

text \<open>
  An update of an actor that its own code may make: the receivers, the switches, the links and the
  environment change, the other fields do not.
\<close>

definition own_settings :: "(('t, 'u) actor \<Rightarrow> ('t, 'u) actor) \<Rightarrow> bool" where
  "own_settings f \<longleftrightarrow> (\<forall>a. a_name (f a) = a_name a \<and> a_exit_handlers (f a) = a_exit_handlers a
     \<and> a_lifetime (f a) = a_lifetime a \<and> a_self_ref (f a) = a_self_ref a
     \<and> a_in_shutdown (f a) = a_in_shutdown a \<and> a_tasks (f a) = a_tasks a \<and> a_locks (f a) = a_locks a)"

lemma own_settings_simps [simp]:
  "own_settings (\<lambda>a. a\<lparr>a_receiver := r\<rparr>)" "own_settings (\<lambda>a. a\<lparr>a_sync_receiver := b\<rparr>)"
  "own_settings (\<lambda>a. a\<lparr>a_trap_exit := b\<rparr>)" "own_settings (\<lambda>a. a\<lparr>a_observe_links := b\<rparr>)"
  "own_settings (\<lambda>a. a\<lparr>a_links := h # a_links a\<rparr>)" "own_settings (\<lambda>a. a\<lparr>a_env := g (a_env a)\<rparr>)"
  by (simp_all add: own_settings_def)

locale sys_order = state_order R
  for R :: "('t, 'u) sys \<Rightarrow> ('t, 'u) sys \<Rightarrow> bool" +
  assumes log: "R s (s\<lparr>log := l\<rparr>)"
    and mem: "R s (s\<lparr>user_mem := u\<rparr>)"
    and submit: "procs s p = Some a \<Longrightarrow> \<not> a_in_shutdown a \<Longrightarrow> R s (submit_msg_task p from m (record_post p from m s))"
    and reg: "R s (s\<lparr>registry := omap_update name h (registry s)\<rparr>)"
    and tap: "R s (snd (tap_subscribers name s))"
    and new: "R s (snd (instance_new b eh name env s))"
    and own: "current_instance s = Some p \<Longrightarrow> own_settings f \<Longrightarrow> R s (upd p f s)"
begin

lemma trace_raw: "R s (do_trace_raw env parms s)"
  by (auto simp: do_trace_raw_def log refl split: option.splits)

lemma trace: "R s (do_trace p c parms s)"
  by (auto simp: do_trace_def Let_def trace_raw refl)

end

lemma do_trace_raw_simps [simp]:
  "procs (do_trace_raw e ps s) = procs s" "current_instance (do_trace_raw e ps s) = current_instance s"
  "next_instance_id (do_trace_raw e ps s) = next_instance_id s" "taps (do_trace_raw e ps s) = taps s"
  "instances (do_trace_raw e ps s) = instances s" "active (do_trace_raw e ps s) = active s"
  "tap_count (do_trace_raw e ps s) = tap_count s" "registry (do_trace_raw e ps s) = registry s"
  "debug_enabled (do_trace_raw e ps s) = debug_enabled s" "last_exit (do_trace_raw e ps s) = last_exit s"
  "user_mem (do_trace_raw e ps s) = user_mem s" "posted (do_trace_raw e ps s) = posted s"
  by (auto simp: do_trace_raw_def split: option.splits)

lemma do_trace_simps [simp]:
  "procs (do_trace p c ps s) = procs s" "current_instance (do_trace p c ps s) = current_instance s"
  "next_instance_id (do_trace p c ps s) = next_instance_id s" "taps (do_trace p c ps s) = taps s"
  "instances (do_trace p c ps s) = instances s" "active (do_trace p c ps s) = active s"
  "tap_count (do_trace p c ps s) = tap_count s" "registry (do_trace p c ps s) = registry s"
  "debug_enabled (do_trace p c ps s) = debug_enabled s" "last_exit (do_trace p c ps s) = last_exit s"
  "user_mem (do_trace p c ps s) = user_mem s" "posted (do_trace p c ps s) = posted s"
  by (auto simp: do_trace_def Let_def)

lemma actor_of_trace [simp]:
  "actor_of (do_trace_raw e ps s) = actor_of s" "actor_of (do_trace p c ps s) = actor_of s"
  by (simp_all add: actor_of_def fun_eq_iff)

lemma record_post_simps [simp]:
  "procs (record_post p from m s) = procs s" "current_instance (record_post p from m s) = current_instance s"
  "next_instance_id (record_post p from m s) = next_instance_id s" "taps (record_post p from m s) = taps s"
  "instances (record_post p from m s) = instances s" "active (record_post p from m s) = active s"
  "tap_count (record_post p from m s) = tap_count s" "registry (record_post p from m s) = registry s"
  "debug_enabled (record_post p from m s) = debug_enabled s" "last_exit (record_post p from m s) = last_exit s"
  "user_mem (record_post p from m s) = user_mem s" "log (record_post p from m s) = log s"
  by (simp_all add: record_post_def)

lemma tap_subscribers_simps [simp]:
  "procs (snd (tap_subscribers n s)) = procs s"
  "current_instance (snd (tap_subscribers n s)) = current_instance s"
  by (auto simp: tap_subscribers_def Let_def)

lemma deadsend_state [simp]: "snd (deadsend m from s) = s"
  by (auto simp: deadsend_def split: option.splits sum.splits)

text \<open>\<open>queue\<close> in three steps: the trace, the tap, the task.\<close>

definition queue_traced :: "pid \<Rightarrow> handle \<Rightarrow> buffer \<Rightarrow> ('t, 'u) sys \<Rightarrow> ('t, 'u) sys" where
  "queue_traced p from m s =
     (if \<not> is_null m \<and> enabled Ch_send (a_env (actor_of s p)) then
        do_trace_raw (a_env (actor_of s p)) [P_buf (ref_m s from), P_str ''send'',
          P_buf (ref_m_instance s p), P_buf m] s
      else s)"

definition queue_tapped :: "(string \<Rightarrow> handle \<Rightarrow> buffer \<Rightarrow> ('t, 'u) sys \<Rightarrow> ('t, 'u) sys) \<Rightarrow>
    pid \<Rightarrow> handle \<Rightarrow> buffer \<Rightarrow> ('t, 'u) sys \<Rightarrow> ('t, 'u) sys" where
  "queue_tapped t p from m s =
     (if tap_count s > 0 \<and> \<not> is_null m then t (a_name (actor_of s p)) from m s else s)"

lemma queue_with_eq:
  "queue_with t p from m s =
     (if a_in_shutdown (actor_of s p) then deadsend m from (queue_traced p from m s)
      else (Inr ok, submit_msg_task p from m (record_post p from m (queue_tapped t p from m (queue_traced p from m s)))))"
  by (simp add: queue_with_def queue_traced_def queue_tapped_def Let_def)

lemma procs_queue_traced [simp]: "procs (queue_traced p from m s) = procs s"
  by (simp add: queue_traced_def)

section \<open>Queueing only adds tasks\<close>

definition task_ext :: "('t, 'u) actor \<Rightarrow> ('t, 'u) actor \<Rightarrow> bool" where
  "task_ext a a' \<longleftrightarrow> (\<exists>ts. a' = a\<lparr>a_tasks := a_tasks a @ ts\<rparr>)"

lemma task_ext_refl [simp, intro]: "task_ext a a"
  by (auto simp: task_ext_def intro: exI [of _ "[]"])

lemma task_ext_trans [trans]: "task_ext a b \<Longrightarrow> task_ext b c \<Longrightarrow> task_ext a c"
  by (auto simp: task_ext_def)

lemma task_ext_add: "task_ext a (a\<lparr>a_tasks := a_tasks a @ ts\<rparr>)"
  by (auto simp: task_ext_def)

lemma task_ext_fields:
  assumes "task_ext a a'"
  shows "a_name a' = a_name a" "a_receiver a' = a_receiver a" "a_sync_receiver a' = a_sync_receiver a"
    "a_exit_handlers a' = a_exit_handlers a" "a_lifetime a' = a_lifetime a"
    "a_self_ref a' = a_self_ref a" "a_trap_exit a' = a_trap_exit a"
    "a_observe_links a' = a_observe_links a" "a_in_shutdown a' = a_in_shutdown a"
    "a_links a' = a_links a" "a_env a' = a_env a" "a_locks a' = a_locks a"
    "\<exists>ts. a_tasks a' = a_tasks a @ ts"
  using assms by (auto simp: task_ext_def)

definition quiet :: "('t, 'u) sys \<Rightarrow> ('t, 'u) sys \<Rightarrow> bool" where
  "quiet s s' \<longleftrightarrow> current_instance s' = current_instance s \<and> rel_fun (=) (rel_option task_ext) (procs s) (procs s')"

lemma quiet_procs: "quiet s s' \<Longrightarrow> procs s p = Some a \<Longrightarrow> \<exists>a'. procs s' p = Some a' \<and> task_ext a a'"
  unfolding quiet_def rel_fun_def by (metis option_rel_Some1)

lemma quiet_None: "quiet s s' \<Longrightarrow> procs s p = None \<longleftrightarrow> procs s' p = None"
  unfolding quiet_def rel_fun_def by (metis rel_option_None1 rel_option_None2)

lemma quiet_current: "quiet s s' \<Longrightarrow> current_instance s' = current_instance s"
  by (simp add: quiet_def)

lemma quietI:
  assumes "current_instance s' = current_instance s"
    and "\<And>p. procs s p = None \<Longrightarrow> procs s' p = None"
    and "\<And>p a. procs s p = Some a \<Longrightarrow> \<exists>a'. procs s' p = Some a' \<and> task_ext a a'"
  shows "quiet s s'"
  unfolding quiet_def rel_fun_def using assms by (auto simp: rel_option_iff split: option.splits) fastforce+

interpretation quiet: state_order quiet
proof
  fix s :: "('t, 'u) sys"
  show "quiet s s" by (auto intro: quietI)
next
  fix s t u :: "('t, 'u) sys"
  assume q: "quiet s t" "quiet t u"
  show "quiet s u"
  proof (rule quietI)
    fix p a
    assume "procs s p = Some a"
    then show "\<exists>a'. procs u p = Some a' \<and> task_ext a a'"
      using quiet_procs [OF q(1)] quiet_procs [OF q(2)] task_ext_trans by metis
  qed (use q quiet_None quiet_current in metis)+
qed

lemma quiet_same: "procs s' = procs s \<Longrightarrow> current_instance s' = current_instance s \<Longrightarrow> quiet s s'"
  by (auto intro: quietI)

lemma quiet_submit: "quiet s (submit_msg_task p from m (record_post p from m s))"
  by (rule quietI) (auto simp: submit_msg_task_def procs_upd task_ext_add)

lemma quiet_queue_with:
  assumes "\<And>n h m s. quiet s (t n h m s)"
  shows "quiet s (snd (queue_with t p from m s))"
proof -
  have "quiet s (queue_traced p from m s)" by (simp add: quiet_same queue_traced_def)
  moreover have "quiet (queue_traced p from m s) (queue_tapped t p from m (queue_traced p from m s))"
    by (simp add: queue_tapped_def assms quiet.refl)
  ultimately show ?thesis
    by (auto simp: queue_with_eq intro: quiet.trans quiet_submit)
qed

lemma quiet_queue_in_tap: "quiet s (snd (queue_in_tap p from m s))"
  unfolding queue_in_tap_def by (rule quiet_queue_with) (rule quiet.refl)

lemma quiet_tap_deliver: "quiet s (tap_deliver subs ev s)"
proof (induction subs arbitrary: s)
  case (Cons h subs)
  then show ?case
    by (auto simp: Let_def split: option.splits intro: quiet.trans [OF quiet_queue_in_tap])
qed (simp add: quiet.refl)

lemma quiet_tap_one: "quiet s (tap_one n ev s)"
proof -
  have "quiet s (snd (tap_subscribers n s))" by (simp add: quiet_same)
  then show ?thesis
    by (auto simp: tap_one_def split: prod.splits intro: quiet.trans quiet_tap_deliver)
qed

lemma quiet_tap_message: "quiet s (tap_message to from m s)"
  by (auto simp: tap_message_def Let_def quiet.refl intro: quiet.trans quiet_tap_one)

lemma quiet_tap_exit: "quiet s (tap_exit n m s)"
  by (simp add: tap_exit_def quiet.refl quiet_tap_one)

lemma quiet_queue: "quiet s (snd (queue p from m s))"
  unfolding queue_def by (rule quiet_queue_with) (rule quiet_tap_message)

lemma quiet_handle_send_raw: "quiet s (snd (handle_send_raw h m s))"
  by (auto simp: handle_send_raw_def instance_send_raw_def quiet_queue quiet.refl split: option.splits)

section \<open>Programs keep the order\<close>

context sys_order
begin

lemma submit_ext:
  assumes "a_in_shutdown (actor_of s p) \<Longrightarrow> False" "quiet s t"
  shows "R t (submit_msg_task p from m (record_post p from m t))"
proof (cases "procs s p")
  case None
  then have "procs t p = None" using quiet_None [OF assms(2)] by blast
  then have "submit_msg_task p from m (record_post p from m t) = t"
    by (simp add: submit_msg_task_def record_post_def upd_def fun_upd_idem)
  then show ?thesis by (simp add: refl)
next
  case (Some a)
  then obtain a2 where a2: "procs t p = Some a2" "task_ext a a2"
    using quiet_procs [OF assms(2)] by blast
  with Some assms(1) show ?thesis
    by (intro submit [OF a2(1)]) (auto simp: task_ext_fields actor_of_def)
qed

lemma queue_with_keeps:
  assumes "\<And>n h m s. R s (t n h m s) \<and> quiet s (t n h m s)"
  shows "R s (snd (queue_with t p from m s))"
proof -
  let ?s1 = "queue_traced p from m s" and ?s2 = "queue_tapped t p from m (queue_traced p from m s)"
  have r1: "R s ?s1" by (simp add: queue_traced_def trace_raw refl)
  have r2: "R ?s1 ?s2" and q2: "quiet ?s1 ?s2"
    by (simp_all add: queue_tapped_def assms refl quiet.refl)
  have q1: "quiet s ?s1" by (simp add: quiet_same queue_traced_def)
  show ?thesis
  proof (cases "a_in_shutdown (actor_of s p)")
    case True
    with r1 show ?thesis by (simp add: queue_with_eq)
  next
    case False
    then have "R ?s2 (submit_msg_task p from m (record_post p from m ?s2))"
      using submit_ext [of s p ?s2] quiet.trans [OF q1 q2] by blast
    with r1 r2 have "R s (submit_msg_task p from m (record_post p from m ?s2))" by (blast intro: trans)
    with False show ?thesis by (simp add: queue_with_eq)
  qed
qed

lemma queue_in_tap_keeps: "R s (snd (queue_in_tap p from m s))"
  unfolding queue_in_tap_def by (rule queue_with_keeps) (simp add: refl quiet.refl)

lemma tap_deliver_keeps: "R s (tap_deliver subs ev s)"
proof (induction subs arbitrary: s)
  case (Cons h subs)
  then show ?case
    by (auto simp: Let_def split: option.splits intro: trans [OF queue_in_tap_keeps])
qed (simp add: refl)

lemma tap_one_keeps: "R s (tap_one n ev s)"
  using tap [of s n] by (auto simp: tap_one_def split: prod.splits intro: trans tap_deliver_keeps)

lemma tap_message_keeps: "R s (tap_message to from m s)"
  by (auto simp: tap_message_def Let_def refl intro: trans tap_one_keeps)

lemma tap_exit_keeps: "R s (tap_exit n m s)"
  by (simp add: tap_exit_def refl tap_one_keeps)

lemma tap_exit_if_keeps: "R s (if is_tapping s then tap_exit n m s else s)"
  by (simp add: tap_exit_keeps refl)

lemma queue_keeps [intro]: "keeps R (queue p from m)"
  unfolding queue_def
  by (intro keepsI queue_with_keeps conjI tap_message_keeps quiet_tap_message)

lemma schedule_keeps [intro]: "keeps R (schedule p)"
  unfolding schedule_def by (rule queue_keeps)

lemma instance_send_raw_keeps [intro]: "keeps R (instance_send_raw p m)"
  using queue_keeps by (simp add: keeps_def instance_send_raw_def)

lemma handle_send_raw_keeps [intro]: "keeps R (handle_send_raw h m)"
  using instance_send_raw_keeps
  by (auto simp: keeps_def handle_send_raw_def refl split: option.splits)

lemma register_keeps [intro]: "keeps R (modifyS (register_instance h))"
  by (rule keeps_modify) (auto simp: register_instance_def Let_def reg refl split: option.splits)

lemma instance_spawn_keeps [intro]: "keeps R (instance_spawn b eh name lnk env)"
proof (rule keepsI)
  fix s
  obtain p s1 where n: "instance_new b eh name env s = (p, s1)" by fastforce
  let ?s2 = "do_trace p Ch_lifetime [P_str ''spawn''] s1" and ?q = "\<lambda>s. if expired s \<lparr>h_ref = lnk, h_id = 0\<rparr>
      then returnS ok else queue p (make_handle s lnk) link_msg"
  have "R s s1" using new [of s b eh name env] n by simp
  then have r: "R s ?s2" using trace trans by blast
  have "keeps R (bindS (?q ?s2) (\<lambda>ret. case ret of Inl e \<Rightarrow> returnS (Inl e)
        | Inr _ \<Rightarrow> bindS (schedule p) (\<lambda>ret. case ret of Inl e \<Rightarrow> returnS (Inl e)
            | Inr _ \<Rightarrow> bindS (modifyS (register_instance (make_handle ?s2 (Some p))))
                (\<lambda>_. returnS (Inr (make_handle ?s2 (Some p)))))))"
    by (intro keeps_bind keeps_if keeps_case_sum keeps_return queue_keeps schedule_keeps
        register_keeps)
  then have "R ?s2 (snd (instance_spawn b eh name lnk env s))"
    by (simp add: keeps_def instance_spawn_def n Let_def)
  with r show "R s (snd (instance_spawn b eh name lnk env s))" by (rule trans)
qed

lemma own_keeps:
  assumes "\<And>s. own_settings (f s)"
  shows "keeps R (bindS private_call (\<lambda>p s. (Inr (g p s), upd p (f s) s)))"
  using own assms
  by (auto simp: keeps_def bindS_def private_call_def refl split: option.splits)

lemma private_call_keeps: "keeps R private_call" "keeps R (private_call_of p)"
  by (auto simp: keeps_def private_call_def private_call_of_def refl split: option.splits)

text \<open>What runs after \<open>private_call\<close> may assume that the caller is the current instance.\<close>

lemma private_call_bind:
  assumes "\<And>p s. current_instance s = Some p \<Longrightarrow> R s (snd (f p s))"
  shows "keeps R (bindS private_call f)"
  using assms by (auto simp: keeps_def bindS_def private_call_def refl split: option.splits)

lemma own_after_trace:
  assumes "current_instance s = Some p" "own_settings f"
  shows "R s (upd p f (do_trace q c parms s))"
  using assms own [of "do_trace q c parms s" p f] trace [of s q c parms] trans by simp

lemma api_receive_keeps: "keeps R (api_receive r)"
  unfolding api_receive_def
  by (rule private_call_bind) (simp add: bindS_def private_call_of_def own_after_trace)

lemma api_receive_sync_keeps: "keeps R (api_receive_sync r)"
  unfolding api_receive_sync_def
  by (rule private_call_bind) (simp add: bindS_def private_call_of_def own_after_trace)

lemma api_send_raw_keeps: "keeps R (api_send_raw m)"
  unfolding api_send_raw_def by (intro keeps_bind private_call_keeps instance_send_raw_keeps)

lemma api_getters_keep:
  "keeps R api_trap" "keeps R api_observe_links" "keeps R api_self" "keeps R api_self_ref"
  unfolding api_trap_def api_observe_links_def api_self_def api_self_ref_def
  by (rule private_call_bind; simp add: refl)+

lemma api_setters_keep:
  "keeps R (api_set_trap t)" "keeps R (api_set_observe_links t)" "keeps R (api_env f)"
  unfolding api_set_trap_def api_set_observe_links_def api_env_def
  by (rule private_call_bind; simp add: own Let_def)+

end

text \<open>Nothing user code calls changes which instance is the current one.\<close>

lemma submit_simps [simp]:
  "current_instance (submit_msg_task p from m s) = current_instance s"
  "next_instance_id (submit_msg_task p from m s) = next_instance_id s"
  "instances (submit_msg_task p from m s) = instances s"
  "active (submit_msg_task p from m s) = active s" "taps (submit_msg_task p from m s) = taps s"
  "tap_count (submit_msg_task p from m s) = tap_count s"
  "registry (submit_msg_task p from m s) = registry s"
  "dom (procs (submit_msg_task p from m s)) = dom (procs s)"
  by (simp_all add: submit_msg_task_def)

lemma instance_new_simps [simp]:
  "current_instance (snd (instance_new b eh name env s)) = current_instance s"
  "fst (instance_new b eh name env s) = next_instance_id s"
  by (simp_all add: instance_new_def Let_def)

interpretation current: sys_order "\<lambda>s s'. current_instance s' = current_instance s"
  by unfold_locales simp_all

context sys_order
begin

lemma instance_link_keeps:
  assumes "current_instance s = Some p"
  shows "R s (snd (instance_link p h s))"
proof -
  obtain r s1 where s1: "handle_send_raw h link_msg s = (r, s1)" by fastforce
  from keepsD [OF handle_send_raw_keeps this] have "R s s1" .
  moreover have "current_instance s1 = Some p"
    using keepsD [OF current.handle_send_raw_keeps s1] assms by simp
  then have "R s1 (add_link p h (do_trace_to p Ch_link ''link'' h [] s1))"
    by (simp add: add_link_def do_trace_to_def own_after_trace)
  ultimately show ?thesis
    using s1 by (auto simp: instance_link_def bindS_def split: sum.splits intro: trans)
qed

lemma instance_spawn_link_keeps:
  assumes "current_instance s = Some p"
  shows "R s (snd (instance_spawn_link p b name env s))"
proof -
  obtain r s1 where s1: "instance_spawn b None name
      (if a_lifetime (actor_of s p) then Some p else None) env s = (r, s1)" by fastforce
  from keepsD [OF instance_spawn_keeps this] have "R s s1" .
  moreover have "current_instance s1 = Some p"
    using keepsD [OF current.instance_spawn_keeps s1] assms by simp
  then have "R s1 (add_link p h (do_trace_to p Ch_link ''link'' h [] s1))" for h
    by (simp add: add_link_def do_trace_to_def own_after_trace)
  ultimately show ?thesis
    using s1 by (auto simp: instance_spawn_link_def bindS_def split: sum.splits intro: trans)
qed

lemma api_link_keeps: "keeps R (api_link h)"
  unfolding api_link_def
proof (rule private_call_bind)
  fix p and s :: "('t, 'u) sys"
  assume "current_instance s = Some p"
  from instance_link_keeps [OF this, of h] show "R s (snd (bindS (instance_link p h) (\<lambda>_. returnS ()) s))"
    by (auto simp: bindS_def split: prod.splits sum.splits)
qed

lemma api_spawn_keeps: "keeps R (api_spawn b name e)"
  unfolding api_spawn_def
  by (rule private_call_bind) (use instance_spawn_keeps in \<open>simp add: keeps_def\<close>)

lemma api_spawn_link_keeps: "keeps R (api_spawn_link b name e)"
  unfolding api_spawn_link_def by (rule private_call_bind) (rule instance_spawn_link_keeps)

lemmas api_keeps = api_receive_keeps api_receive_sync_keeps api_getters_keep api_setters_keep
  api_link_keeps api_spawn_keeps api_spawn_link_keeps

lemma exec_keeps: "keeps R (exec b)"
proof (induction b)
  case (Mem f k)
  from keeps_after [of "\<lambda>s. s\<lparr>user_mem := f (user_mem s)\<rparr>" "\<lambda>u. exec (k u)" user_mem, OF mem]
  show ?case using Mem.IH by simp
next
  case (Send_raw h m k)
  from keeps_seq [of "handle_send_raw h m" "\<lambda>r. exec (k r)", OF handle_send_raw_keeps]
  show ?case using Send_raw.IH by simp
next
  case (Self_send m k)
  from keeps_seq [of "api_send_raw m" "\<lambda>r. exec (k r)", OF api_send_raw_keeps]
  show ?case using Self_send.IH by simp
next
  case (Instance_by_id i k)
  then show ?case by (simp add: keeps_def)
qed (simp_all add: keeps_bind api_keeps del: comp_simps)

end

end
