(* ===== verification/Actor_Inv.thy ===== *)
theory Actor_Inv
  imports Actor_Frame
begin

text \<open>
  The invariant of the system and the frame of a running actor. \<open>sys_inv\<close>: instance ids are fresh
  and never reused, the process-wide table of instances is exactly the live instances, the counter
  of active instances is their number, the tap counter is the number of taps, the name registry
  is sorted. It is kept by user code, by exit handling, by the destructor and by every step of the
  executor. \<open>frame\<close>: while an actor runs, other actors only gain queued messages.
\<close>

section \<open>The invariant\<close>

definition ids_ok :: "('t, 'u) sys \<Rightarrow> bool" where
  "ids_ok s \<longleftrightarrow> 0 < next_instance_id s \<and> (\<forall>q \<in> dom (procs s). 0 < q \<and> q < next_instance_id s)"

definition self_refs_ok :: "('t, 'u) sys \<Rightarrow> bool" where
  "self_refs_ok s \<longleftrightarrow> (\<forall>q a. procs s q = Some a \<longrightarrow> a_self_ref a = \<lparr>h_ref = Some q, h_id = q\<rparr>)"

definition sys_inv :: "('t, 'u) sys \<Rightarrow> bool" where
  "sys_inv s \<longleftrightarrow> ids_ok s \<and> finite (dom (procs s)) \<and> active s = card (dom (procs s))
     \<and> instances s = (\<lambda>i. if procs s i = None then None else Some i)
     \<and> tap_count s = int (length (taps s))
     \<and> sorted (map fst (registry s)) \<and> distinct (map fst (registry s))
     \<and> self_refs_ok s \<and> (\<forall>p. current_instance s = Some p \<longrightarrow> procs s p \<noteq> None)"

lemma procs_eq_None_upd [simp]: "procs (upd p f s) q = None \<longleftrightarrow> procs s q = None"
  by (simp add: procs_upd)

lemma self_refs_ok_upd:
  "self_refs_ok s \<Longrightarrow> (\<And>a. a_self_ref (f a) = a_self_ref a) \<Longrightarrow> self_refs_ok (upd p f s)"
  by (auto simp: self_refs_ok_def procs_upd)

lemma sys_inv_upd:
  "sys_inv s \<Longrightarrow> (\<And>a. a_self_ref (f a) = a_self_ref a) \<Longrightarrow> sys_inv (upd p f s)"
  by (simp add: sys_inv_def ids_ok_def self_refs_ok_upd)

lemma sys_inv_tap_subscribers: "sys_inv s \<Longrightarrow> sys_inv (snd (tap_subscribers n s))"
proof -
  have "length (filter P (taps s)) \<le> length (taps s)" for P by simp
  then show "sys_inv s \<Longrightarrow> sys_inv (snd (tap_subscribers n s))"
    by (simp add: sys_inv_def ids_ok_def self_refs_ok_def tap_subscribers_def Let_def of_nat_diff)
qed

lemma procs_instance_new:
  "procs (snd (instance_new b eh name env s)) =
     (procs s)(next_instance_id s \<mapsto> the (procs (snd (instance_new b eh name env s)) (next_instance_id s)))"
  by (simp add: instance_new_def Let_def)

lemma sys_inv_new:
  assumes "sys_inv s"
  shows "sys_inv (snd (instance_new b eh name env s))"
proof -
  let ?n = "next_instance_id s"
  have fresh: "procs s ?n = None" using assms by (force simp: sys_inv_def ids_ok_def)
  then have "?n \<notin> dom (procs s)" by auto
  then have "card (insert ?n (dom (procs s))) = Suc (card (dom (procs s)))"
    using assms by (simp add: sys_inv_def)
  then show ?thesis
    using assms fresh
    by (auto simp: sys_inv_def ids_ok_def self_refs_ok_def instance_new_def Let_def fun_eq_iff
        split: if_splits intro: less_SucI)
qed

lemma sys_inv_record_post [simp]: "sys_inv (record_post p from m s) = sys_inv s"
  by (simp add: sys_inv_def ids_ok_def self_refs_ok_def)

interpretation inv: sys_order "\<lambda>s s'. sys_inv s \<longrightarrow> sys_inv s'"
  by unfold_locales
    (auto simp: submit_msg_task_def sys_inv_upd sys_inv_tap_subscribers sys_inv_new own_settings_def,
      auto simp: sys_inv_def ids_ok_def self_refs_ok_def omap_update_sorted)

section \<open>The frame of a running actor\<close>

text \<open>What its own code may change of an actor, and what a newly spawned actor is.\<close>

definition own_ext :: "('t, 'u) actor \<Rightarrow> ('t, 'u) actor \<Rightarrow> bool" where
  "own_ext a a' \<longleftrightarrow> a_name a' = a_name a \<and> a_exit_handlers a' = a_exit_handlers a
     \<and> a_lifetime a' = a_lifetime a \<and> a_self_ref a' = a_self_ref a
     \<and> a_in_shutdown a' = a_in_shutdown a \<and> a_locks a' = a_locks a
     \<and> (\<exists>ts. a_tasks a' = a_tasks a @ ts)"

definition fresh_actor :: "('t, 'u) actor \<Rightarrow> bool" where
  "fresh_actor a \<longleftrightarrow> a_lifetime a \<and> \<not> a_in_shutdown a \<and> \<not> receiver_empty (a_receiver a) \<and> a_locks a = 0"

text \<open>
  What may become of an actor while it handles a message: it may shut down and lose its receivers,
  exit handlers and lifetime; it never comes back.
\<close>

definition life_ext :: "('t, 'u) actor \<Rightarrow> ('t, 'u) actor \<Rightarrow> bool" where
  "life_ext a a' \<longleftrightarrow> a_name a' = a_name a \<and> a_self_ref a' = a_self_ref a \<and> a_locks a' = a_locks a
     \<and> (a_in_shutdown a \<longrightarrow> a_in_shutdown a') \<and> (\<not> a_lifetime a \<longrightarrow> \<not> a_lifetime a')
     \<and> (a_exit_handlers a = [] \<longrightarrow> a_exit_handlers a' = []) \<and> (\<exists>ts. a_tasks a' = a_tasks a @ ts)"

definition frame_by :: "(('t, 'u) actor \<Rightarrow> ('t, 'u) actor \<Rightarrow> bool) \<Rightarrow> pid \<Rightarrow>
    ('t, 'u) sys \<Rightarrow> ('t, 'u) sys \<Rightarrow> bool" where
  "frame_by E p s s' \<longleftrightarrow> current_instance s' = Some p \<and> ids_ok s'
     \<and> next_instance_id s \<le> next_instance_id s'
     \<and> (\<forall>q a. procs s q = Some a \<longrightarrow>
          (\<exists>a'. procs s' q = Some a' \<and> (if q = p then E a a' else task_ext a a')))
     \<and> (\<forall>q a'. procs s q = None \<longrightarrow> procs s' q = Some a' \<longrightarrow> q \<noteq> p \<longrightarrow>
          fresh_actor a' \<and> next_instance_id s \<le> q)"

abbreviation frame where
  "frame \<equiv> frame_by own_ext"

abbreviation exit_frame where
  "exit_frame \<equiv> frame_by life_ext"

lemma own_ext_refl [simp]: "own_ext a a"
  by (simp add: own_ext_def)

lemma own_ext_trans: "own_ext a b \<Longrightarrow> own_ext b c \<Longrightarrow> own_ext a c"
  by (auto simp: own_ext_def)

lemma own_ext_task_ext: "task_ext a b \<Longrightarrow> own_ext a b"
  by (auto simp: own_ext_def task_ext_def)

lemma fresh_actor_ext: "task_ext a b \<Longrightarrow> fresh_actor a \<Longrightarrow> fresh_actor b"
  by (auto simp: fresh_actor_def task_ext_def)

lemma frame_refl: "current_instance s = Some p \<Longrightarrow> ids_ok s \<Longrightarrow> frame p s s"
  by (simp add: frame_by_def)

lemma frame_old:
  assumes "frame_by E p s s'" "procs s q = Some a"
  shows "\<exists>a'. procs s' q = Some a' \<and> (if q = p then E a a' else task_ext a a')"
  using assms by (simp add: frame_by_def)

lemma frame_stateD: "frame_by E p s t \<Longrightarrow> current_instance t = Some p \<and> ids_ok t"
  by (simp add: frame_by_def)

lemma frame_by_trans:
  assumes st: "frame_by E p s t" and tu: "frame_by E p t u"
    and E: "\<And>a b c. E a b \<Longrightarrow> E b c \<Longrightarrow> E a c"
  shows "frame_by E p s u"
proof -
  have "\<exists>a'. procs u q = Some a' \<and> (if q = p then E a a' else task_ext a a')"
    if "procs s q = Some a" for q a
    using frame_old [OF st that] frame_old [OF tu] E task_ext_trans
    by (metis (full_types))
  moreover have "fresh_actor a' \<and> next_instance_id s \<le> q"
    if "procs s q = None" "procs u q = Some a'" "q \<noteq> p" for q a'
  proof (cases "procs t q")
    case None
    with that(2,3) tu have "fresh_actor a' \<and> next_instance_id t \<le> q" by (simp add: frame_by_def)
    moreover have "next_instance_id s \<le> next_instance_id t" using st by (simp add: frame_by_def)
    ultimately show ?thesis by simp
  next
    case (Some b)
    with that st have "fresh_actor b \<and> next_instance_id s \<le> q" by (simp add: frame_by_def)
    with frame_old [OF tu Some] that show ?thesis by (auto intro: fresh_actor_ext)
  qed
  ultimately show ?thesis using st tu by (auto simp: frame_by_def)
qed

lemma frame_trans: "frame p s t \<Longrightarrow> frame p t u \<Longrightarrow> frame p s u"
  by (erule (1) frame_by_trans) (rule own_ext_trans)

lemma life_ext_refl [simp]: "life_ext a a"
  by (simp add: life_ext_def)

lemma life_ext_trans: "life_ext a b \<Longrightarrow> life_ext b c \<Longrightarrow> life_ext a c"
  by (auto simp: life_ext_def)

lemma exit_frame_trans: "exit_frame p s t \<Longrightarrow> exit_frame p t u \<Longrightarrow> exit_frame p s u"
  by (erule (1) frame_by_trans) (rule life_ext_trans)

lemma frame_exit_frame: "frame p s s' \<Longrightarrow> exit_frame p s s'"
  unfolding frame_by_def own_ext_def life_ext_def by fastforce

lemma frame_same:
  "current_instance s = Some p \<Longrightarrow> ids_ok s \<Longrightarrow> procs s' = procs s \<Longrightarrow>
     current_instance s' = current_instance s \<Longrightarrow> next_instance_id s' = next_instance_id s \<Longrightarrow>
     frame p s s'"
  by (simp add: frame_by_def ids_ok_def)

lemma frame_new:
  assumes "current_instance s = Some p" "ids_ok s"
  shows "frame p s (snd (instance_new b eh name env s))"
  unfolding frame_by_def
proof (intro conjI allI impI)
  let ?n = "next_instance_id s"
  show "ids_ok (snd (instance_new b eh name env s))"
    using assms by (auto simp: ids_ok_def instance_new_def Let_def intro: less_SucI)
  fix q a
  assume "procs s q = Some a"
  moreover from this assms(2) have "q \<noteq> ?n" by (auto simp: ids_ok_def)
  ultimately show "\<exists>a'. procs (snd (instance_new b eh name env s)) q = Some a'
      \<and> (if q = p then own_ext a a' else task_ext a a')"
    by (simp add: instance_new_def Let_def)
qed (use assms in \<open>auto simp: instance_new_def Let_def fresh_actor_def split: if_splits\<close>)

interpretation run_frame: sys_order "\<lambda>s s'. current_instance s = Some p \<and> ids_ok s \<longrightarrow> frame p s s'"
proof (unfold_locales, goal_cases)
  case (1 s)
  then show ?case by (simp add: frame_refl)
next
  case (2 s t u)
  then show ?case using frame_trans frame_stateD by blast
next
  case (3 s l)
  then show ?case by (simp add: frame_same)
next
  case (4 s u)
  then show ?case by (simp add: frame_same)
next
  case (5 s q a "from" m)
  then show ?case
    by (auto simp: frame_by_def ids_ok_def submit_msg_task_def procs_upd task_ext_add
        own_ext_task_ext split: if_splits)
next
  case (6 s name h)
  then show ?case by (simp add: frame_same)
next
  case (7 s name)
  then show ?case by (simp add: frame_same tap_subscribers_def Let_def)
next
  case (8 s b eh name env)
  then show ?case by (simp add: frame_new)
next
  case (9 s q f)
  then show ?case
    by (auto simp: frame_by_def ids_ok_def own_settings_def own_ext_def procs_upd split: if_splits)
qed

text \<open>User code run by \<open>p\<close>: the frame and the invariant, for every program.\<close>

lemma exec_frame:
  assumes "exec b s = (r, s')" "current_instance s = Some p" "sys_inv s"
  shows "frame p s s'" "sys_inv s'"
  using keepsD [OF run_frame.exec_keeps assms(1)] keepsD [OF inv.exec_keeps assms(1)] assms
  by (simp_all add: sys_inv_def)

section \<open>Exit handling\<close>

lemma exit_frame_upd:
  assumes "current_instance s = Some p" "ids_ok s" "\<And>a. procs s p = Some a \<Longrightarrow> life_ext a (f a)"
  shows "exit_frame p s (upd p f s)"
  using assms by (auto simp: frame_by_def ids_ok_def procs_upd)

text \<open>A computation of \<open>p\<close> that keeps the frame and the invariant.\<close>

definition runs :: "pid \<Rightarrow> ('a, ('t, 'u) sys) comp \<Rightarrow> bool" where
  "runs p m \<longleftrightarrow> keeps (\<lambda>s s'. current_instance s = Some p \<and> sys_inv s \<longrightarrow>
     exit_frame p s s' \<and> sys_inv s') m"

interpretation runs: state_order
  "\<lambda>s s'. current_instance s = Some p \<and> sys_inv s \<longrightarrow> exit_frame p s s' \<and> sys_inv s'"
proof (unfold_locales, goal_cases)
  case (1 s)
  then show ?case by (auto simp: frame_by_def sys_inv_def)
next
  case (2 s t u)
  then show ?case using exit_frame_trans frame_stateD by blast
qed

lemma sys_inv_ids: "sys_inv s \<Longrightarrow> ids_ok s"
  by (simp add: sys_inv_def)

lemma runs_of_orders:
  assumes "keeps (\<lambda>s s'. current_instance s = Some p \<and> ids_ok s \<longrightarrow> frame p s s') m"
    and "keeps (\<lambda>s s'. sys_inv s \<longrightarrow> sys_inv s') m"
  shows "runs p m"
  using assms frame_exit_frame sys_inv_ids unfolding runs_def keeps_def by blast

lemma runs_exec: "runs p (exec b)"
  by (rule runs_of_orders [OF run_frame.exec_keeps inv.exec_keeps])

lemma runs_send: "runs p (handle_send_raw h m)"
  by (rule runs_of_orders [OF run_frame.handle_send_raw_keeps inv.handle_send_raw_keeps])

lemma runs_modify:
  assumes "\<And>s. current_instance s = Some p \<Longrightarrow> sys_inv s \<Longrightarrow> exit_frame p s (f s) \<and> sys_inv (f s)"
  shows "runs p (modifyS f)"
  using assms by (simp add: runs_def keeps_def)

lemma runs_own:
  fixes f :: "('t, 'u) actor \<Rightarrow> ('t, 'u) actor"
  assumes "\<And>a. life_ext a (f a)"
  shows "runs p (modifyS (upd p f))"
proof (rule runs_modify)
  fix s :: "('t, 'u) sys"
  assume "current_instance s = Some p" "sys_inv s"
  moreover have "\<And>a. a_self_ref (f a) = a_self_ref a" using assms by (simp add: life_ext_def)
  ultimately show "exit_frame p s (upd p f s) \<and> sys_inv (upd p f s)"
    using assms by (simp add: exit_frame_upd sys_inv_upd sys_inv_ids)
qed

lemma runs_trace: "runs p (modifyS (do_trace q c parms))"
  by (intro runs_of_orders run_frame.keeps_modify inv.keeps_modify run_frame.trace inv.trace)

lemma runs_tap_exit: "runs p (modifyS (\<lambda>s. if is_tapping s then tap_exit (n s) m s else s))"
  by (intro runs_of_orders run_frame.keeps_modify inv.keeps_modify run_frame.tap_exit_if_keeps
      inv.tap_exit_if_keeps)

lemmas runs_combinators = runs.keeps_bind [folded runs_def] runs.keeps_return [folded runs_def]
  runs.keeps_throw [folded runs_def] runs.keeps_lift [folded runs_def] runs.keeps_if [folded runs_def]
  runs.keeps_for [folded runs_def] runs.keeps_case_sum [folded runs_def] runs.keeps_catch [folded runs_def]

lemma runs_state: "(\<And>t. runs p (f t)) \<Longrightarrow> runs p (\<lambda>s. f (g s) s)"
  by (simp add: runs_def keeps_def)

lemma runs_guard: "runs p m \<Longrightarrow> runs p (\<lambda>s. if c s then m s else (Inr x, s))"
  using runs.refl [where p = p] by (auto simp: runs_def keeps_def)

lemma runs_exit_handlers: "runs p (run_exit_handlers p m :: (unit, ('t, 'u) sys) comp)"
proof -
  let ?F = "\<lambda>hs :: (string \<Rightarrow> ('t, 'u) prog) list. if hs = [] then returnS () else
      bindS (modifyS (upd p (\<lambda>a. a\<lparr>a_exit_handlers := []\<rparr>))) (\<lambda>_.
      bindS (liftS (exit_reason m)) (\<lambda>err.
        forS hs (\<lambda>eh. bindS (exec (eh err)) (\<lambda>_. returnS ()))))"
  have "runs p (?F hs)" for hs
    by (intro runs_combinators runs_own runs_exec) (simp add: life_ext_def)
  then have "runs p (\<lambda>s. ?F (a_exit_handlers (actor_of s p)) s)" by (rule runs_state)
  moreover have "run_exit_handlers p m = (\<lambda>s. ?F (a_exit_handlers (actor_of s p)) s)"
    by (simp add: fun_eq_iff run_exit_handlers_def Let_def)
  ultimately show ?thesis by (simp only:)
qed

lemma runs_handle_exit: "runs p (handle_exit p m)"
proof -
  have "runs p (\<lambda>s. forS (a_links (actor_of s p))
      (\<lambda>h. bindS (handle_send_raw h m) (\<lambda>_. returnS ())) s)"
    by (rule runs_state) (intro runs_combinators runs_send)
  then show ?thesis
    unfolding handle_exit_def
    by (intro runs_combinators runs_own runs_trace runs_tap_exit runs_exit_handlers)
      (simp_all add: life_ext_def)
qed

end
