(* ===== verification/Actor_Run.thy ===== *)
theory Actor_Run
  imports Actor_Inv
begin

text \<open>
  What one message does: the functional behaviour of sending, of exit handling and of \<open>run\<close>, on
  every branch, and that a run leaves every actor either alive with a receiver or completely shut
  down (\<open>settled\<close>).
\<close>

section \<open>Sending\<close>

definition sender :: "('t, 'u) sys \<Rightarrow> handle" where
  "sender s = (case current_instance s of Some c \<Rightarrow> a_self_ref (actor_of s c) | None \<Rightarrow> null_handle)"

lemma queue_delivers:
  assumes "procs s q = Some a" "\<not> a_in_shutdown a"
  obtains s' a' where "queue q from m s = (Inr ok, s')" "procs s' q = Some a'" "task_ext a a'"
    "a_tasks a' \<noteq> []" "last (a_tasks a') = (from, m)" "length (a_tasks a) < length (a_tasks a')"
proof -
  let ?s2 = "queue_tapped tap_message q from m (queue_traced q from m s)"
  have "quiet (queue_traced q from m s) ?s2"
    by (simp add: queue_tapped_def quiet_tap_message quiet.refl)
  then obtain b where b: "procs ?s2 q = Some b" "task_ext a b"
    using quiet_procs [of "queue_traced q from m s" ?s2 q a] assms(1) by auto
  have "queue q from m s = (Inr ok, submit_msg_task q from m (record_post q from m ?s2))"
    using assms by (simp add: queue_def queue_with_eq actor_of_def)
  then show thesis
  proof (rule that)
    show "procs (submit_msg_task q from m (record_post q from m ?s2)) q = Some (b\<lparr>a_tasks := a_tasks b @ [(from, m)]\<rparr>)"
      using b by (simp add: submit_msg_task_def)
    show "task_ext a (b\<lparr>a_tasks := a_tasks b @ [(from, m)]\<rparr>)"
      by (rule task_ext_trans [OF b(2) task_ext_add])
    show "length (a_tasks a) < length (a_tasks (b\<lparr>a_tasks := a_tasks b @ [(from, m)]\<rparr>))"
      using task_ext_fields(13) [OF b(2)] by auto
  qed simp_all
qed

lemma handle_send_live:
  assumes "lock s h = Some q" "procs s q = Some a" "\<not> a_in_shutdown a"
  obtains s' a' where "handle_send_raw h m s = (Inr ok, s')" "procs s' q = Some a'" "task_ext a a'"
    "a_tasks a' \<noteq> []" "last (a_tasks a') = (sender s, m)" "length (a_tasks a) < length (a_tasks a')"
  using queue_delivers [OF assms(2,3), of "sender s" m] assms(1)
  by (auto simp: handle_send_raw_def instance_send_raw_def sender_def)

text \<open>A handle that reaches no running actor: expired, or its actor is shutting down.\<close>

definition dead_handle :: "('t, 'u) sys \<Rightarrow> handle \<Rightarrow> bool" where
  "dead_handle s h \<longleftrightarrow> (case lock s h of None \<Rightarrow> True | Some q \<Rightarrow> a_in_shutdown (actor_of s q))"

lemma deadsend_ok:
  "current_instance s = Some p \<Longrightarrow> a_in_shutdown (actor_of s p) \<Longrightarrow> deadsend m from s = (Inr ok, s)"
  by (simp add: deadsend_def)

lemma handle_send_dead:
  assumes "dead_handle s h"
  shows "\<exists>from. fst (handle_send_raw h m s) = fst (deadsend m from s)"
proof -
  have cur: "fst (deadsend m from (queue_traced q from m s)) = fst (deadsend m from s)" for q "from"
    by (simp add: deadsend_def queue_traced_def ref_m_def ref_m_instance_def lock_def
        split: option.splits sum.splits)
  show ?thesis
  proof (cases "lock s h")
    case None
    then show ?thesis by (auto simp: handle_send_raw_def)
  next
    case (Some q)
    with assms have "a_in_shutdown (actor_of s q)" by (simp add: dead_handle_def)
    with Some show ?thesis
      using cur [of "sender s" q]
      by (auto simp: handle_send_raw_def instance_send_raw_def queue_def queue_with_eq sender_def)
  qed
qed

text \<open>An actor that shuts down can send to anyone without an error or an exception.\<close>

lemma send_in_shutdown:
  assumes "current_instance s = Some p" "a_in_shutdown (actor_of s p)"
  shows "fst (handle_send_raw h m s) = Inr ok"
proof (cases "dead_handle s h")
  case True
  then obtain "from" where "fst (handle_send_raw h m s) = fst (deadsend m from s)"
    using handle_send_dead by blast
  with assms show ?thesis by (simp add: deadsend_ok)
next
  case False
  then obtain q a where "lock s h = Some q" "procs s q = Some a" "\<not> a_in_shutdown a"
    by (auto simp: dead_handle_def lock_Some actor_of_def split: option.splits)
  then show ?thesis by (rule handle_send_live [of s h q a m]) simp
qed

section \<open>Exit reaches the links\<close>

text \<open>Between \<open>s\<close> and \<open>s'\<close> the message was added to the queue of \<open>q\<close>.\<close>

definition received :: "('t, 'u) sys \<Rightarrow> ('t, 'u) sys \<Rightarrow> pid \<Rightarrow> handle \<times> buffer \<Rightarrow> bool" where
  "received s s' q t \<longleftrightarrow> (\<exists>a'. procs s' q = Some a' \<and>
     t \<in> set (drop (length (a_tasks (actor_of s q))) (a_tasks a')))"

lemma received_ext:
  assumes "received s t q x" "\<And>a. procs t q = Some a \<Longrightarrow> \<exists>a'. procs u q = Some a' \<and> (\<exists>ts. a_tasks a' = a_tasks a @ ts)"
  shows "received s u q x"
  using assms unfolding received_def by fastforce

lemma received_quiet: "received s t q x \<Longrightarrow> quiet t u \<Longrightarrow> received s u q x"
  by (erule received_ext) (metis quiet_procs task_ext_fields(13))

lemma quiet_actor: "quiet s t \<Longrightarrow> procs s q = Some a \<Longrightarrow> task_ext (actor_of s q) (actor_of t q)"
  using quiet_procs [of s t q a] by (auto simp: actor_of_def)

lemma quiet_lock: "quiet s t \<Longrightarrow> lock t h = lock s h"
  using quiet_None [of s t] by (auto simp: lock_def split: option.splits)

lemma received_earlier:
  assumes "quiet s t" "procs s q = Some a" "received t u q x"
  shows "received s u q x"
proof -
  obtain ts where "a_tasks (actor_of t q) = a_tasks (actor_of s q) @ ts"
    using task_ext_fields(13) [OF quiet_actor [OF assms(1,2)]] by blast
  then have len: "length (a_tasks (actor_of s q)) \<le> length (a_tasks (actor_of t q))" by simp
  obtain b where b: "procs u q = Some b"
      "x \<in> set (drop (length (a_tasks (actor_of t q))) (a_tasks b))"
    using assms(3) by (auto simp: received_def)
  from set_drop_subset_set_drop [OF len] b(2)
  have "x \<in> set (drop (length (a_tasks (actor_of s q))) (a_tasks b))" by (rule subsetD)
  with b(1) show ?thesis by (simp add: received_def)
qed

lemma send_received:
  assumes "lock s h = Some q" "\<not> a_in_shutdown (actor_of s q)"
  shows "received s (snd (handle_send_raw h m s)) q (sender s, m)"
proof -
  obtain a where a: "procs s q = Some a" using assms(1) by (auto simp: lock_Some)
  with assms have nsd: "\<not> a_in_shutdown a" by (simp add: actor_of_def)
  obtain s' a' where s': "handle_send_raw h m s = (Inr ok, s')" "procs s' q = Some a'"
      "last (a_tasks a') = (sender s, m)" "length (a_tasks a) < length (a_tasks a')"
    by (rule handle_send_live [OF assms(1) a nsd, of m]) (rule that)
  let ?d = "drop (length (a_tasks a)) (a_tasks a')"
  have "?d \<noteq> []" "last ?d = (sender s, m)" using s'(3,4) by simp_all
  then have "(sender s, m) \<in> set ?d" using last_in_set [of ?d] by simp
  with s' a show ?thesis by (simp add: received_def actor_of_def)
qed

lemma quiet_sender: "quiet s t \<Longrightarrow> current_instance s = Some p \<Longrightarrow> procs s p = Some a \<Longrightarrow> sender t = sender s"
  using quiet_actor [of s t p a] by (simp add: sender_def quiet_current task_ext_fields)

lemma exit_sends:
  assumes "current_instance s = Some p" "procs s p = Some a" "a_in_shutdown a"
  obtains s' where "forS hs (\<lambda>h. bindS (handle_send_raw h m) (\<lambda>_. returnS ())) s = (Inr (), s')"
    "quiet s s'" "\<And>h q. h \<in> set hs \<Longrightarrow> lock s h = Some q \<Longrightarrow> \<not> a_in_shutdown (actor_of s q) \<Longrightarrow>
      received s s' q (sender s, m)"
  using assms
proof (induction hs arbitrary: s a thesis)
  case Nil
  then show ?case by (auto intro: quiet.refl)
next
  case (Cons h hs)
  have sd: "a_in_shutdown (actor_of s p)" using Cons.prems by (simp add: actor_of_def)
  obtain t where ok: "handle_send_raw h m s = (Inr ok, t)"
    using send_in_shutdown [OF Cons.prems(2) sd, of h m] by (metis prod.collapse)
  have q: "quiet s t" using quiet_handle_send_raw [of s h m] ok by simp
  obtain b where b: "procs t p = Some b" "task_ext a b" using quiet_procs [OF q Cons.prems(3)] by blast
  have cur: "current_instance t = Some p" using q Cons.prems(2) by (simp add: quiet_current)
  have "a_in_shutdown b" using b Cons.prems(4) by (simp add: task_ext_fields)
  from cur b(1) this show ?case
  proof (rule Cons.IH [rotated])
    fix s'
    assume s': "forS hs (\<lambda>h. bindS (handle_send_raw h m) (\<lambda>_. returnS ())) t = (Inr (), s')"
      "quiet t s'" "\<And>h q. h \<in> set hs \<Longrightarrow> lock t h = Some q \<Longrightarrow> \<not> a_in_shutdown (actor_of t q) \<Longrightarrow>
        received t s' q (sender t, m)"
    have snd: "sender t = sender s" by (rule quiet_sender [OF q Cons.prems(2,3)])
    show ?case
    proof (rule Cons.prems(1))
      show "forS (h # hs) (\<lambda>h. bindS (handle_send_raw h m) (\<lambda>_. returnS ())) s = (Inr (), s')"
        using s'(1) ok by (simp add: bindS_def)
      show "quiet s s'" by (rule quiet.trans [OF q s'(2)])
      fix g r
      assume g: "g \<in> set (h # hs)" "lock s g = Some r" "\<not> a_in_shutdown (actor_of s r)"
      then obtain c where c: "procs s r = Some c" by (auto simp: lock_Some)
      show "received s s' r (sender s, m)"
      proof (cases "g = h")
        case True
        with g show ?thesis
          using send_received [of s h r m] received_quiet [OF _ s'(2)] ok by simp
      next
        case False
        with g have "received t s' r (sender t, m)"
          using quiet_actor [OF q c] by (intro s'(3)) (simp_all add: quiet_lock [OF q] task_ext_fields)
        then show ?thesis using received_earlier [OF q c] by (simp add: snd)
      qed
    qed
  qed
qed

text \<open>The part of \<open>handle_exit\<close> after the links have been told.\<close>

definition exit_rest :: "pid \<Rightarrow> buffer \<Rightarrow> (unit, ('t, 'u) sys) comp" where
  "exit_rest p m =
     bindS (modifyS (do_trace p Ch_lifetime [P_str ''exit'', P_buf m])) (\<lambda>_.
     bindS (modifyS (\<lambda>s. if is_tapping s then tap_exit (a_name (actor_of s p)) m s else s)) (\<lambda>_.
     bindS (run_exit_handlers p m) (\<lambda>_.
     modifyS (upd p (\<lambda>a. a\<lparr>a_receiver := R_empty, a_sync_receiver := False,
       a_lifetime := False\<rparr>)))))"

lemma runs_exit_rest: "runs p (exit_rest p m)"
  unfolding exit_rest_def
  by (intro runs_combinators runs_own runs_trace runs_tap_exit runs_exit_handlers)
    (simp_all add: life_ext_def)

lemma runsD:
  assumes "runs p m" "m s = (r, s')" "current_instance s = Some p" "sys_inv s"
  shows "exit_frame p s s'" "sys_inv s'"
  using keepsD [OF assms(1) [unfolded runs_def] assms(2)] assms(3,4) by simp_all

lemma exit_frame_self:
  "exit_frame p s s' \<Longrightarrow> procs s p = Some a \<Longrightarrow> \<exists>a'. procs s' p = Some a' \<and> life_ext a a'"
  using frame_old [of life_ext p s s' p a] by simp

lemma exit_frame_other:
  "exit_frame p s s' \<Longrightarrow> procs s q = Some a \<Longrightarrow> q \<noteq> p \<Longrightarrow> \<exists>a'. procs s' q = Some a' \<and> task_ext a a'"
  using frame_old [of life_ext p s s' q a] by simp

lemma handle_exit_stages:
  assumes "current_instance s = Some p" "procs s p = Some a"
  obtains s2 where "handle_exit p m s = exit_rest p m s2" "sys_inv s \<Longrightarrow> sys_inv s2"
    "quiet (upd p (\<lambda>a. a\<lparr>a_in_shutdown := True\<rparr>) s) s2"
    "\<And>h q. h \<in> set (a_links a) \<Longrightarrow> lock s h = Some q \<Longrightarrow> q \<noteq> p \<Longrightarrow> \<not> a_in_shutdown (actor_of s q) \<Longrightarrow>
       received s s2 q (a_self_ref a, m)"
proof -
  let ?s1 = "upd p (\<lambda>a. a\<lparr>a_in_shutdown := True\<rparr>) s"
  have "current_instance ?s1 = Some p" "procs ?s1 p = Some (a\<lparr>a_in_shutdown := True\<rparr>)"
    "a_in_shutdown (a\<lparr>a_in_shutdown := True\<rparr>)" using assms by simp_all
  then show thesis
  proof (rule exit_sends [where hs = "a_links a" and m = m])
    fix s2
    assume s2: "forS (a_links a) (\<lambda>h. bindS (handle_send_raw h m) (\<lambda>_. returnS ())) ?s1 = (Inr (), s2)"
      "quiet ?s1 s2" "\<And>h q. h \<in> set (a_links a) \<Longrightarrow> lock ?s1 h = Some q \<Longrightarrow>
        \<not> a_in_shutdown (actor_of ?s1 q) \<Longrightarrow> received ?s1 s2 q (sender ?s1, m)"
    show thesis
    proof (rule that)
      show "handle_exit p m s = exit_rest p m s2"
        using s2(1) assms(2) by (simp add: handle_exit_def exit_rest_def bindS_def actor_of_def)
      show "quiet ?s1 s2" by (rule s2(2))
      have "keeps (\<lambda>s s'. sys_inv s \<longrightarrow> sys_inv s')
          (forS (a_links a) (\<lambda>h. bindS (handle_send_raw h m) (\<lambda>_. returnS ())))"
        by (intro inv.keeps_for inv.keeps_bind inv.handle_send_raw_keeps inv.keeps_return)
      from keepsD [OF this s2(1)] show "sys_inv s \<Longrightarrow> sys_inv s2" by (simp add: sys_inv_upd)
      fix h q
      assume "h \<in> set (a_links a)" "lock s h = Some q" "q \<noteq> p" "\<not> a_in_shutdown (actor_of s q)"
      then have "received ?s1 s2 q (sender ?s1, m)" by (intro s2(3)) (auto simp: lock_Some)
      then show "received s s2 q (a_self_ref a, m)"
        using assms \<open>q \<noteq> p\<close> by (simp add: received_def sender_def actor_of_def)
    qed
  qed
qed

lemma run_exit_handlers_clears:
  assumes "run_exit_handlers p m s = (Inr (), s')" "current_instance s = Some p" "sys_inv s"
    "procs s p = Some a"
  shows "\<exists>a'. procs s' p = Some a' \<and> a_exit_handlers a' = []"
proof (cases "a_exit_handlers a = []")
  case True
  with assms show ?thesis by (simp add: run_exit_handlers_def actor_of_def)
next
  case False
  let ?s1 = "upd p (\<lambda>a. a\<lparr>a_exit_handlers := []\<rparr>) s"
  from False assms(1,4) obtain err where
    f: "forS (a_exit_handlers a) (\<lambda>eh. bindS (exec (eh err)) (\<lambda>_. returnS ())) ?s1 = (Inr (), s')"
    by (auto simp: run_exit_handlers_def actor_of_def bindS_def split: prod.splits sum.splits)
  have "keeps (\<lambda>s s'. current_instance s = Some p \<and> ids_ok s \<longrightarrow> frame p s s')
      (forS (a_exit_handlers a) (\<lambda>eh. bindS (exec (eh err)) (\<lambda>_. returnS ())))"
    by (intro run_frame.keeps_for run_frame.keeps_bind run_frame.exec_keeps run_frame.keeps_return)
  from keepsD [OF this f] assms(2,3) have "frame p ?s1 s'" by (simp add: sys_inv_def ids_ok_def)
  from frame_old [OF this, of p "a\<lparr>a_exit_handlers := []\<rparr>"] assms(4) show ?thesis
    by (auto simp: own_ext_def)
qed

text \<open>
  The fate of an actor that exits: it is in shutdown, and once exit handling has completed it has
  no receivers, no exit handlers and no hold on its own lifetime.
\<close>

definition gone :: "('t, 'u) actor \<Rightarrow> bool" where
  "gone a \<longleftrightarrow> a_in_shutdown a \<and> \<not> a_lifetime a \<and> receiver_empty (a_receiver a)
     \<and> \<not> a_sync_receiver a \<and> a_exit_handlers a = []"

lemma exit_rest_gone:
  assumes "exit_rest p m s = (Inr (), s')" "current_instance s = Some p" "sys_inv s"
    "procs s p = Some a" "a_in_shutdown a"
  shows "\<exists>a'. procs s' p = Some a' \<and> gone a'"
proof -
  let ?first = "bindS (modifyS (do_trace p Ch_lifetime [P_str ''exit'', P_buf m])) (\<lambda>_.
      modifyS (\<lambda>s. if is_tapping s then tap_exit (a_name (actor_of s p)) m s else s))"
  obtain t where t: "?first s = (Inr (), t)" by (simp add: bindS_def)
  from assms(1) t obtain u where u: "run_exit_handlers p m t = (Inr (), u)"
      "s' = upd p (\<lambda>a. a\<lparr>a_receiver := R_empty, a_sync_receiver := False, a_lifetime := False\<rparr>) u"
    by (auto simp: exit_rest_def bindS_def split: prod.splits sum.splits)
  have "runs p ?first" by (intro runs_combinators runs_trace runs_tap_exit)
  note ft = runsD [OF this t assms(2,3)]
  from exit_frame_self [OF ft(1) assms(4)] obtain b where b: "procs t p = Some b" "life_ext a b"
    by blast
  have cur: "current_instance t = Some p" using ft(1) by (simp add: frame_by_def)
  note fu = runsD [OF runs_exit_handlers u(1) cur ft(2)]
  from exit_frame_self [OF fu(1) b(1)] obtain c where c: "procs u p = Some c" "life_ext b c" by blast
  have "a_in_shutdown c" using b c assms(5) by (simp add: life_ext_def)
  moreover have "a_exit_handlers c = []"
    using run_exit_handlers_clears [OF u(1) cur ft(2) b(1)] c(1) by simp
  ultimately show ?thesis using u(2) c(1) by (simp add: gone_def)
qed

lemma handle_exit_effect:
  assumes "handle_exit p m s = (r, s')" "current_instance s = Some p" "sys_inv s" "procs s p = Some a"
  shows "exit_frame p s s'" "sys_inv s'"
    and "\<exists>a'. procs s' p = Some a' \<and> a_in_shutdown a' \<and> (r = Inr () \<longrightarrow> gone a')"
    and "\<And>h q. h \<in> set (a_links a) \<Longrightarrow> lock s h = Some q \<Longrightarrow> q \<noteq> p \<Longrightarrow> \<not> a_in_shutdown (actor_of s q) \<Longrightarrow>
       received s s' q (a_self_ref a, m)"
proof -
  show "exit_frame p s s'" "sys_inv s'" by (rule runsD [OF runs_handle_exit assms(1-3)])+
  let ?s1 = "upd p (\<lambda>a. a\<lparr>a_in_shutdown := True\<rparr>) s"
  obtain s2 where s2: "handle_exit p m s = exit_rest p m s2" "sys_inv s \<Longrightarrow> sys_inv s2" "quiet ?s1 s2"
    "\<And>h q. h \<in> set (a_links a) \<Longrightarrow> lock s h = Some q \<Longrightarrow> q \<noteq> p \<Longrightarrow> \<not> a_in_shutdown (actor_of s q) \<Longrightarrow>
       received s s2 q (a_self_ref a, m)"
    by (rule handle_exit_stages [OF assms(2,4), of m]) (rule that)
  have r: "exit_rest p m s2 = (r, s')" using assms(1) s2(1) by simp
  have i2: "sys_inv s2" by (rule s2(2) [OF assms(3)])
  have c2: "current_instance s2 = Some p" using quiet_current [OF s2(3)] assms(2) by simp
  have "procs ?s1 p = Some (a\<lparr>a_in_shutdown := True\<rparr>)" using assms(4) by simp
  from quiet_procs [OF s2(3) this] obtain b where b: "procs s2 p = Some b" "a_in_shutdown b"
    by (auto simp: task_ext_fields)
  note f = runsD [OF runs_exit_rest r c2 i2]
  from exit_frame_self [OF f(1) b(1)] obtain c where c: "procs s' p = Some c" "life_ext b c" by blast
  show "\<exists>a'. procs s' p = Some a' \<and> a_in_shutdown a' \<and> (r = Inr () \<longrightarrow> gone a')"
    using c b exit_rest_gone [OF _ c2 i2 b, of m s'] r by (auto simp: life_ext_def)
  fix h q
  assume "h \<in> set (a_links a)" "lock s h = Some q" "q \<noteq> p" "\<not> a_in_shutdown (actor_of s q)"
  then have "received s s2 q (a_self_ref a, m)" by (rule s2(4))
  then show "received s s' q (a_self_ref a, m)"
    by (rule received_ext) (use exit_frame_other [OF f(1)] \<open>q \<noteq> p\<close> in \<open>fastforce simp: task_ext_def\<close>)
qed

section \<open>One run\<close>

definition settled :: "('t, 'u) actor \<Rightarrow> bool" where
  "settled a \<longleftrightarrow> (\<not> a_in_shutdown a \<and> a_lifetime a \<and> \<not> receiver_empty (a_receiver a)) \<or> gone a"

lemma runs_call_receiver: "runs p (call_receiver p from m :: (result, ('t, 'u) sys) comp)"
proof -
  let ?F = "\<lambda>r :: ('t, 'u) receiver. case r of R_empty \<Rightarrow> throwS (Std_exn ''bad_function_call'')
      | R_init b \<Rightarrow> bindS (modifyS (do_trace p Ch_lifetime [P_str ''init''])) (\<lambda>_.
          bindS (modifyS (upd p (\<lambda>a. a\<lparr>a_receiver := R_empty\<rparr>))) (\<lambda>_. exec b))
      | R_fun f \<Rightarrow> exec (f from m)"
  have "runs p (?F r)" for r
    by (cases r) (auto intro!: runs_combinators runs_own runs_exec runs_trace simp: life_ext_def
        simp del: comp_simps)
  then have "runs p (\<lambda>s. ?F (a_receiver (actor_of s p)) s)" by (rule runs_state)
  moreover have "call_receiver p from m = (\<lambda>s. ?F (a_receiver (actor_of s p)) s)"
    by (simp add: fun_eq_iff call_receiver_def bindS_def split: receiver.splits)
  ultimately show ?thesis by (simp only:)
qed

lemma call_receiver_alive:
  assumes "call_receiver p from m s = (r, s')" "current_instance s = Some p" "sys_inv s" "procs s p = Some a"
  shows "\<exists>a'. procs s' p = Some a' \<and> a_in_shutdown a' = a_in_shutdown a \<and> a_lifetime a' = a_lifetime a"
proof (cases "a_receiver a")
  case R_empty
  with assms show ?thesis by (simp add: call_receiver_def actor_of_def)
next
  case (R_init b)
  let ?s1 = "upd p (\<lambda>a. a\<lparr>a_receiver := R_empty\<rparr>) (do_trace p Ch_lifetime [P_str ''init''] s)"
  have "sys_inv (do_trace p Ch_lifetime [P_str ''init''] s)" using inv.trace assms(3) by blast
  then have i: "sys_inv ?s1" by (rule sys_inv_upd) simp
  have e: "exec b ?s1 = (r, s')" using assms R_init by (simp add: call_receiver_def actor_of_def)
  have "current_instance ?s1 = Some p" using assms(2) by simp
  from exec_frame(1) [OF e this i] have "frame p ?s1 s'" .
  from frame_old [OF this, of p "a\<lparr>a_receiver := R_empty\<rparr>"] assms(4) show ?thesis
    by (auto simp: own_ext_def)
next
  case (R_fun f)
  then have "exec (f from m) s = (r, s')" using assms by (simp add: call_receiver_def actor_of_def)
  from frame_old [OF exec_frame(1) [OF this assms(2,3)] assms(4)] show ?thesis
    by (auto simp: own_ext_def)
qed

lemma runs_receive: "runs p (run_receive p from m)"
proof -
  have t: "runs p (modifyS (\<lambda>s. if is_null m then s
      else do_trace_to p Ch_receive ''receive'' from [P_buf m] s))"
    unfolding do_trace_to_def
    by (intro runs_of_orders run_frame.keeps_modify inv.keeps_modify)
      (auto simp: run_frame.trace inv.trace frame_refl)
  have k: "runs p (\<lambda>s. if ret = ok \<and> current_instance s \<noteq> None \<and> receiver_empty (a_receiver (actor_of s p))
      then bindS (handle_exit p exit_noreceive_msg) (\<lambda>_. returnS ret) s else (Inr ret, s))" for ret
    by (rule runs_guard) (intro runs_combinators runs_handle_exit)
  show ?thesis unfolding run_receive_def by (intro runs_combinators t runs_call_receiver k)
qed

lemma run_receive_settled:
  assumes "run_receive p from m s = (Inr ok, s')" "current_instance s = Some p" "sys_inv s"
    "procs s p = Some a" "\<not> a_in_shutdown a" "a_lifetime a"
  shows "\<exists>a'. procs s' p = Some a' \<and> settled a'"
proof -
  define t where "t = (if is_null m then s else do_trace_to p Ch_receive ''receive'' from [P_buf m] s)"
  have t: "current_instance t = Some p" "procs t = procs s" "sys_inv t"
    using assms(2,3) inv.trace by (auto simp: t_def do_trace_to_def)
  obtain r u where u: "call_receiver p from m t = (r, u)" by fastforce
  with assms(1) obtain ret where ret: "r = Inr ret"
    by (cases r) (auto simp: run_receive_def bindS_def t_def split: if_splits)
  have pt: "procs t p = Some a" using t(2) assms(4) by simp
  obtain b where b: "procs u p = Some b" "\<not> a_in_shutdown b" "a_lifetime b"
    using call_receiver_alive [OF u t(1,3) pt] assms(5,6) by auto
  note fu = runsD [OF runs_call_receiver u t(1,3)]
  have cu: "current_instance u = Some p" using fu(1) by (simp add: frame_by_def)
  show ?thesis
  proof (cases "ret = ok \<and> receiver_empty (a_receiver b)")
    case True
    then have "handle_exit p exit_noreceive_msg u = (Inr (), s')"
      using assms(1) u ret cu b
      by (auto simp: run_receive_def bindS_def t_def [symmetric] actor_of_def
          split: prod.splits sum.splits)
    from handle_exit_effect(3) [OF this cu fu(2) b(1)] show ?thesis by (auto simp: settled_def)
  next
    case False
    then have "s' = u" "ret = ok"
      using assms(1) u ret cu b
      by (auto simp: run_receive_def bindS_def t_def [symmetric] actor_of_def split: if_splits)
    with False b show ?thesis by (auto simp: settled_def)
  qed
qed

text \<open>The \<open>try\<close> block once the instance has become the current one.\<close>

definition try_body :: "pid \<Rightarrow> handle \<Rightarrow> buffer \<Rightarrow> (unit, ('t, 'u) sys) comp" where
  "try_body p from m =
     bindS (\<lambda>s. if \<not> a_trap_exit (actor_of s p) then liftS (is_exit_msg m) s
                else (Inr False, s)) (\<lambda>is_exit.
     bindS (if is_exit then
              (if m \<noteq> exit_normal_msg then bindS (handle_exit p m) (\<lambda>_. returnS ok)
               else returnS ok)
            else run_receive p from m) (\<lambda>ret.
     case ret of Inl e \<Rightarrow> handle_exit p e | Inr _ \<Rightarrow> returnS ()))"

lemma run_try_eq:
  "current_instance s = None \<or> current_instance s = Some p \<Longrightarrow>
     run_try p from m s = try_body p from m (s\<lparr>current_instance := Some p\<rparr>)"
proof -
  assume "current_instance s = None \<or> current_instance s = Some p"
  then have "(current_instance s \<noteq> None \<and> current_instance s \<noteq> Some p) = False" by auto
  then show ?thesis unfolding run_try_def try_body_def by (simp only: if_False bindS_modify)
qed

lemma runs_try_body: "runs p (try_body p from m)"
proof -
  have "runs p (\<lambda>s. if \<not> a_trap_exit (actor_of s p) then liftS (is_exit_msg m) s else (Inr False, s))"
    by (rule runs_guard) (rule runs_combinators)
  then show ?thesis
    unfolding try_body_def by (intro runs_combinators runs_handle_exit runs_receive)
qed

lemma try_body_settled:
  assumes "try_body p from m s = (Inr (), s')" "current_instance s = Some p" "sys_inv s"
    "procs s p = Some a" "settled a" "\<not> a_in_shutdown a"
  shows "\<exists>a'. procs s' p = Some a' \<and> settled a'"
proof -
  have life: "a_lifetime a" using assms(5,6) by (auto simp: settled_def gone_def)
  have ge: "\<exists>a'. procs t p = Some a' \<and> settled a'"
    if "handle_exit p e u = (Inr (), t)" "current_instance u = Some p" "sys_inv u" "procs u p \<noteq> None"
    for e t u
    using handle_exit_effect(3) [OF that(1-3)] that(4) by (auto simp: settled_def)
  obtain x where x: "(if \<not> a_trap_exit a then lift_exn (is_exit_msg m) else Inr False) = Inr x"
    using assms(1,4) by (auto simp: try_body_def bindS_def actor_of_def split: if_splits sum.splits)
  show ?thesis
  proof (cases x)
    case True
    then have "if m \<noteq> exit_normal_msg then handle_exit p m s = (Inr (), s') else s' = s"
      using assms(1,4) x
      by (auto simp: try_body_def bindS_def actor_of_def ok_def split: if_splits sum.splits prod.splits)
    then show ?thesis using ge [OF _ assms(2,3), of m s'] assms(4,5) by (auto split: if_splits)
  next
    case False
    then obtain ret t where t: "run_receive p from m s = (Inr ret, t)"
        "(case ret of Inl e \<Rightarrow> handle_exit p e t = (Inr (), s') | Inr _ \<Rightarrow> s' = t)"
      using assms(1,4) x
      by (auto simp: try_body_def bindS_def actor_of_def split: if_splits sum.splits prod.splits)
    note ft = runsD [OF runs_receive t(1) assms(2,3)]
    obtain b where b: "procs t p = Some b" using exit_frame_self [OF ft(1) assms(4)] by blast
    have ct: "current_instance t = Some p" using ft(1) by (simp add: frame_by_def)
    show ?thesis
    proof (cases ret)
      case (Inl e)
      with t(2) ge [OF _ ct ft(2)] b show ?thesis by simp
    next
      case (Inr u)
      then have "run_receive p from m s = (Inr ok, s')" using t by (simp add: ok_def)
      then show ?thesis by (rule run_receive_settled [OF _ assms(2-4,6) life])
    qed
  qed
qed

text \<open>
  The frame of a run as the executor sees it, which starts and ends with no current instance.
\<close>

definition step_frame :: "pid \<Rightarrow> ('t, 'u) sys \<Rightarrow> ('t, 'u) sys \<Rightarrow> bool" where
  "step_frame p s s' \<longleftrightarrow>
     exit_frame p (s\<lparr>current_instance := Some p\<rparr>) (s'\<lparr>current_instance := Some p\<rparr>)"

lemma set_current_same: "current_instance s = Some p \<Longrightarrow> s\<lparr>current_instance := Some p\<rparr> = s"
  by simp

lemma sys_inv_current: "sys_inv s \<Longrightarrow> procs s p \<noteq> None \<Longrightarrow> sys_inv (s\<lparr>current_instance := Some p\<rparr>)"
  by (simp add: sys_inv_def ids_ok_def self_refs_ok_def)

lemma sys_inv_no_current: "sys_inv s \<Longrightarrow> sys_inv (s\<lparr>current_instance := None\<rparr>)"
  by (simp add: sys_inv_def ids_ok_def self_refs_ok_def)

lemma runs_catch: "runs p (run_catch p t)"
proof -
  have "runs p (case t of Std_exn what \<Rightarrow> handle_exit p (exit_message (''UNHANDLED_EXCEPTION: '' @ what) [])
      | Other_exn \<Rightarrow> handle_exit p (exit_message ''UNHANDLED_EXCEPTION'' []))"
    by (cases t) (simp_all add: runs_handle_exit)
  then show ?thesis
    by (cases t) (simp_all add: runs_def keeps_def run_catch_def)
qed

lemma run_catch_settled:
  assumes "run_catch p t s = (Inr (), s')" "current_instance s = Some p" "sys_inv s" "procs s p = Some a"
  shows "\<exists>a'. procs s' p = Some a' \<and> settled a'"
proof -
  obtain m where "handle_exit p m s = (Inr (), s')"
    using assms(1,2) by (auto simp: run_catch_def split: thrown.splits)
  from handle_exit_effect(3) [OF this assms(2-4)] show ?thesis by (auto simp: settled_def)
qed

lemma try_catch_settled:
  assumes "catchS (try_body p from m) (run_catch p) s = (r, s')" "current_instance s = Some p"
    "sys_inv s" "procs s p = Some a" "settled a" "\<not> a_in_shutdown a"
  shows "exit_frame p s s'" "sys_inv s'" "r = Inr () \<Longrightarrow> \<exists>a'. procs s' p = Some a' \<and> settled a'"
proof -
  have "runs p (catchS (try_body p from m) (run_catch p))"
    by (intro runs_combinators runs_try_body runs_catch)
  from runsD [OF this assms(1-3)] show "exit_frame p s s'" "sys_inv s'" .
  obtain r1 t where t: "try_body p from m s = (r1, t)" by fastforce
  note ft = runsD [OF runs_try_body t assms(2,3)]
  obtain b where b: "procs t p = Some b" using exit_frame_self [OF ft(1) assms(4)] by blast
  have ct: "current_instance t = Some p" using ft(1) by (simp add: frame_by_def)
  assume "r = Inr ()"
  then show "\<exists>a'. procs s' p = Some a' \<and> settled a'"
    using assms(1) t try_body_settled [OF _ assms(2-6), of "from" m s']
      run_catch_settled [OF _ ct ft(2) b] by (cases r1) (auto simp: catchS_def)
qed

lemma step_frame_same:
  assumes "ids_ok s" "procs s' = procs s" "next_instance_id s' = next_instance_id s"
  shows "step_frame p s s'"
  unfolding step_frame_def
  by (rule frame_exit_frame, rule frame_same) (use assms in \<open>simp_all add: ids_ok_def\<close>)

lemma step_frame_trans: "step_frame p s t \<Longrightarrow> step_frame p t u \<Longrightarrow> step_frame p s u"
  unfolding step_frame_def by (rule exit_frame_trans)

definition run_end :: "pid \<Rightarrow> ('t, 'u) sys \<Rightarrow> ('t, 'u) sys" where
  "run_end p s = (if current_instance s \<noteq> None then
     (if \<not> a_in_shutdown (actor_of s p) then do_trace p Ch_execute [P_str ''sleep''] s
      else s)\<lparr>current_instance := None\<rparr> else s)"

lemma run_end_simps [simp]:
  "procs (run_end p s) = procs s" "next_instance_id (run_end p s) = next_instance_id s"
  "current_instance (run_end p s) = None"
  by (simp_all add: run_end_def)

lemma sys_inv_run_end: "sys_inv s \<Longrightarrow> sys_inv (run_end p s)"
  using inv.trace [of s] by (auto simp: run_end_def intro: sys_inv_no_current)

lemma run_body_eq:
  assumes "current_instance s = None" "\<not> a_in_shutdown (actor_of s p)"
  shows "run_body p from m s = bindS (catchS (try_body p from m) (run_catch p)) (\<lambda>_. modifyS (run_end p))
    ((do_trace p Ch_execute [P_str ''run''] s)\<lparr>current_instance := Some p\<rparr>)"
proof -
  let ?s1 = "do_trace p Ch_execute [P_str ''run''] s"
  have "catchS (run_try p from m) (run_catch p) ?s1
      = catchS (try_body p from m) (run_catch p) (?s1\<lparr>current_instance := Some p\<rparr>)"
    using assms(1) by (simp add: catchS_def run_try_eq)
  then show ?thesis
    using assms(2) by (auto simp: run_body_def bindS_def run_end_def split: prod.splits sum.splits)
qed

lemma run_body_frame:
  assumes "run_body p from m s = (r, s')" "current_instance s = None" "sys_inv s"
    "procs s p = Some a" "settled a"
  shows "step_frame p s s'" "sys_inv s'"
    "r = Inr () \<Longrightarrow> current_instance s' = None \<and> (\<exists>a'. procs s' p = Some a' \<and> settled a')"
proof -
  note ids = sys_inv_ids [OF assms(3)]
  have "step_frame p s s' \<and> sys_inv s' \<and>
    (r = Inr () \<longrightarrow> current_instance s' = None \<and> (\<exists>a'. procs s' p = Some a' \<and> settled a'))"
  proof (cases "a_in_shutdown a")
    case True
    then have "r = Inr ()" "s' = s" using assms(1,4) by (auto simp: run_body_def actor_of_def)
    with assms ids show ?thesis by (simp add: step_frame_same)
  next
    case False
    let ?t0 = "(do_trace p Ch_execute [P_str ''run''] s)\<lparr>current_instance := Some p\<rparr>"
    have i0: "sys_inv ?t0"
      using inv.trace [of s p] assms(3,4) by (intro sys_inv_current) auto
    have p0: "procs ?t0 p = Some a" "current_instance ?t0 = Some p" using assms(4) by simp_all
    obtain r2 t where t: "catchS (try_body p from m) (run_catch p) ?t0 = (r2, t)" by fastforce
    note st = try_catch_settled [OF t p0(2) i0 p0(1) assms(5) False]
    have f0: "step_frame p s ?t0" using ids by (rule step_frame_same) simp_all
    have "t\<lparr>current_instance := Some p\<rparr> = t" using frame_stateD [OF st(1)] by simp
    with st(1) have "step_frame p ?t0 t" by (simp add: step_frame_def)
    with f0 have ft: "step_frame p s t" by (rule step_frame_trans)
    have res: "run_body p from m s = (case r2 of Inl e \<Rightarrow> (Inl e, t) | Inr _ \<Rightarrow> (Inr (), run_end p t))"
      using run_body_eq [OF assms(2), of p "from" m] False assms(4) t
      by (simp add: bindS_def actor_of_def split: sum.splits)
    show ?thesis
    proof (cases r2)
      case (Inl e)
      with res assms(1) ft st(2) show ?thesis by simp
    next
      case (Inr u)
      then have s': "r = Inr ()" "s' = run_end p t" using res assms(1) by simp_all
      have "step_frame p t s'" unfolding s' using sys_inv_ids [OF st(2)] by (rule step_frame_same) simp_all
      with ft have "step_frame p s s'" by (rule step_frame_trans)
      with s' st Inr sys_inv_run_end [OF st(2)] show ?thesis by simp
    qed
  qed
  then show "step_frame p s s'" "sys_inv s'"
    "r = Inr () \<Longrightarrow> current_instance s' = None \<and> (\<exists>a'. procs s' p = Some a' \<and> settled a')" by blast+
qed

end
