(* ===== verification/Actor_Step.thy ===== *)
theory Actor_Step
  imports Actor_Run
begin

text \<open>
  The executor's view: a step relation on system states between tasks, and the invariant of all
  reachable states. A step runs the oldest task of one strand, or is something that happens
  outside the actors: a spawn or a send by a thread that is no actor, the start, the completion
  or the end of an asynchronous operation that holds an actor alive, a debugging switch. A task
  whose exception escapes \<open>run\<close> ends the program and has no step.
\<close>

section \<open>Linking and running\<close>

lemma sys_inv_trace: "sys_inv s \<Longrightarrow> sys_inv (do_trace p c ps s)"
  using inv.trace by blast

lemma run_link_simps:
  "procs (run_link p from s) q = procs (add_link p from s) q"
  "current_instance (run_link p from s) = current_instance s"
  "next_instance_id (run_link p from s) = next_instance_id s"
  by (simp_all add: run_link_def Let_def do_trace_to_def do_trace_links_def add_link_def procs_upd)

lemma sys_inv_run_link: "sys_inv s \<Longrightarrow> sys_inv (run_link p from s)"
  by (simp add: run_link_def Let_def do_trace_to_def do_trace_links_def add_link_def sys_inv_trace
      sys_inv_upd)

lemma run_link_frame:
  assumes "sys_inv s" "procs s p = Some a" "settled a"
  shows "step_frame p s (run_link p from s)" "\<exists>a'. procs (run_link p from s) p = Some a' \<and> settled a'"
proof -
  show "\<exists>a'. procs (run_link p from s) p = Some a' \<and> settled a'"
    using assms(2,3) by (simp add: run_link_simps add_link_def settled_def gone_def)
  have "ids_ok (run_link p from s)" by (rule sys_inv_ids [OF sys_inv_run_link [OF assms(1)]])
  then show "step_frame p s (run_link p from s)"
    using assms(2)
    by (auto simp: step_frame_def frame_by_def run_link_simps add_link_def procs_upd ids_ok_def
        life_ext_def dom_def)
qed

lemma run_step_frame:
  assumes "run p from m s = (r, s')" "current_instance s = None" "sys_inv s"
    "procs s p = Some a" "settled a"
  shows "step_frame p s s' \<and> sys_inv s' \<and>
    (r = Inr () \<longrightarrow> current_instance s' = None \<and> (\<exists>a'. procs s' p = Some a' \<and> settled a'))"
proof -
  let ?l = "run_link p from s"
  note lk = run_link_frame [OF assms(3-5), of "from"]
  obtain b where b: "procs ?l p = Some b" "settled b" using lk(2) by auto
  have c: "current_instance ?l = None" using assms(2) by (simp add: run_link_simps)
  note il = sys_inv_run_link [OF assms(3), of p "from"]
  consider "run_body p from m s = (r, s')" | "r = Inr ()" "s' = ?l" | "run_body p from m ?l = (r, s')"
    using assms(1) unfolding run_def by (metis prod.inject)
  then show ?thesis
  proof cases
    case 1
    from run_body_frame [OF this assms(2-5)] show ?thesis by simp
  next
    case 2
    with lk c il b show ?thesis by simp
  next
    case 3
    note f = run_body_frame [OF this c il b]
    from step_frame_trans [OF lk(1) f(1)] f(2,3) show ?thesis by simp
  qed
qed

section \<open>Destruction\<close>

lemma destroy_simps:
  "procs (destroy p s) = (procs s)(p := None)" "instances (destroy p s) = (instances s)(p := None)"
  "active (destroy p s) = active s - 1" "next_instance_id (destroy p s) = next_instance_id s"
  "current_instance (destroy p s) = current_instance s" "taps (destroy p s) = taps s"
  "tap_count (destroy p s) = tap_count s" "registry (destroy p s) = registry s"
  by (simp_all add: destroy_def Let_def)

lemma sys_inv_destroy:
  assumes "sys_inv s" "procs s p \<noteq> None" "current_instance s = None"
  shows "sys_inv (destroy p s)"
proof -
  have "p \<in> dom (procs s)" using assms(2) by auto
  then have "card (dom (procs s) - {p}) = card (dom (procs s)) - 1" by simp
  with assms show ?thesis
    by (auto simp: sys_inv_def destroy_simps ids_ok_def self_refs_ok_def fun_eq_iff split: if_splits)
qed

section \<open>Steps\<close>

inductive outside :: "('t, 'u) sys \<Rightarrow> ('t, 'u) sys \<Rightarrow> bool" where
  spawn: "instance_spawn b eh name None env s = (r, s') \<Longrightarrow> outside s s'"
| send: "handle_send_raw h m s = (r, s') \<Longrightarrow> outside s s'"
| hold: "procs s p = Some a \<Longrightarrow> a_lifetime a \<Longrightarrow> outside s (upd p (\<lambda>a. a\<lparr>a_locks := a_locks a + 1\<rparr>) s)"
| complete: "procs s p = Some a \<Longrightarrow> a_locks a > 0 \<Longrightarrow> instance_send_raw p m s = (r, s') \<Longrightarrow> outside s s'"
| sync: "procs s p = Some a \<Longrightarrow> a_locks a > 0 \<Longrightarrow> dispatch_sync_raw p m s = (Inr r, s') \<Longrightarrow> outside s s'"
| release: "procs s p = Some a \<Longrightarrow> a_locks a > 0 \<Longrightarrow>
    outside s (collect p (upd p (\<lambda>a. a\<lparr>a_locks := a_locks a - 1\<rparr>) s))"
| debug: "s' \<in> {debug_enable s, debug_disable s, on_last_exit h s, tap_add n sub s,
    snd (tap_remove n sub s), unregister_instance n s} \<Longrightarrow> outside s s'"

inductive step :: "('t, 'u) sys \<Rightarrow> ('t, 'u) sys \<Rightarrow> bool" where
  task: "procs s p = Some a \<Longrightarrow> a_tasks a \<noteq> [] \<Longrightarrow> run_task p s = (Inr (), s') \<Longrightarrow> step s s'"
| outside: "outside s s' \<Longrightarrow> step s s'"

inductive reachable :: "('t, 'u) sys \<Rightarrow> bool" where
  init: "reachable (context_create u)"
| step: "reachable s \<Longrightarrow> step s s' \<Longrightarrow> reachable s'"

text \<open>The states between tasks.\<close>

definition idle :: "('t, 'u) sys \<Rightarrow> bool" where
  "idle s \<longleftrightarrow> sys_inv s \<and> current_instance s = None
     \<and> (\<forall>q a. procs s q = Some a \<longrightarrow> settled a \<and> \<not> unreferenced a)"

text \<open>An actor of which only the queue has grown stays settled and referenced.\<close>

lemma settled_ext: "task_ext a b \<Longrightarrow> settled a \<Longrightarrow> settled b"
  by (auto simp: task_ext_def settled_def gone_def)

lemma unreferenced_ext: "task_ext a b \<Longrightarrow> unreferenced b \<Longrightarrow> unreferenced a"
  by (auto simp: task_ext_def unreferenced_def)

lemma fresh_settled: "fresh_actor a \<Longrightarrow> settled a \<and> \<not> unreferenced a"
  by (simp add: fresh_actor_def settled_def unreferenced_def)

lemma settled_locks [simp]: "settled (a\<lparr>a_locks := n\<rparr>) = settled a"
  by (simp add: settled_def gone_def)

lemma settled_tasks [simp]: "settled (a\<lparr>a_tasks := ts\<rparr>) = settled a"
  by (simp add: settled_def gone_def)

lemma idle_collect:
  assumes "sys_inv s" "current_instance s = None" "procs s p = Some b" "settled b"
    "\<And>q a. procs s q = Some a \<Longrightarrow> q \<noteq> p \<Longrightarrow> settled a \<and> \<not> unreferenced a"
  shows "idle (collect p s)"
proof (cases "unreferenced b")
  case True
  with assms show ?thesis
    using sys_inv_destroy [of s p] by (auto simp: collect_def idle_def destroy_simps split: if_splits)
next
  case False
  have "settled a \<and> \<not> unreferenced a" if "procs s q = Some a" for q a
    using assms(3-5) False that by (cases "q = p") auto
  with False assms(1-3) show ?thesis by (simp add: collect_def idle_def)
qed

lemma step_frame_others:
  assumes "step_frame p s s'" "procs s' q = Some a'" "q \<noteq> p"
    "\<And>q a. procs s q = Some a \<Longrightarrow> q \<noteq> p \<Longrightarrow> settled a \<and> \<not> unreferenced a"
  shows "settled a' \<and> \<not> unreferenced a'"
proof (cases "procs s q")
  case None
  with assms have "fresh_actor a'" by (simp add: step_frame_def frame_by_def)
  then show ?thesis by (rule fresh_settled)
next
  case (Some a)
  with assms(1,2,3) have "task_ext a a'" by (fastforce simp: step_frame_def frame_by_def)
  with assms(4) [OF Some assms(3)] show ?thesis using settled_ext unreferenced_ext by blast
qed

lemma idle_run_task:
  assumes "idle s" "run_task p s = (Inr (), s')"
  shows "idle s'"
proof (cases "procs s p = None \<or> a_tasks (actor_of s p) = []")
  case True
  with assms show ?thesis by (cases "procs s p") (auto simp: run_task_def actor_of_def)
next
  case False
  then obtain a "from" m ts where a: "procs s p = Some a" "a_tasks a = (from, m) # ts"
    by (cases "a_tasks (actor_of s p)") (auto simp: actor_of_def)
  let ?s1 = "upd p (\<lambda>a. a\<lparr>a_tasks := ts, a_locks := a_locks a + 1\<rparr>) s"
  from assms(2) a obtain t where t: "run p from m ?s1 = (Inr (), t)"
    "s' = collect p (upd p (\<lambda>a. a\<lparr>a_locks := a_locks a - 1\<rparr>) t)"
    by (auto simp: run_task_def split: prod.splits)
  have i: "sys_inv s" "current_instance s = None" "settled a"
    and others: "\<And>q a. procs s q = Some a \<Longrightarrow> settled a \<and> \<not> unreferenced a"
    using assms(1) a(1) by (auto simp: idle_def)
  have i1: "sys_inv ?s1" by (rule sys_inv_upd [OF i(1)]) simp
  have p1: "procs ?s1 p = Some (a\<lparr>a_tasks := ts, a_locks := a_locks a + 1\<rparr>)" using a by simp
  have "settled (a\<lparr>a_tasks := ts, a_locks := a_locks a + 1\<rparr>)"
    using i(3) by (simp add: settled_def gone_def)
  then have rt: "step_frame p ?s1 t" "sys_inv t" "current_instance t = None"
    "\<exists>b. procs t p = Some b \<and> settled b"
    using run_step_frame [OF t(1) _ i1 p1] i(2) by simp_all
  obtain b where b: "procs t p = Some b" "settled b" using rt(4) by auto
  have it: "sys_inv (upd p (\<lambda>a. a\<lparr>a_locks := a_locks a - 1\<rparr>) t)"
    by (rule sys_inv_upd [OF rt(2)]) simp
  show ?thesis
    unfolding t(2)
  proof (rule idle_collect [OF it])
    show "procs (upd p (\<lambda>a. a\<lparr>a_locks := a_locks a - 1\<rparr>) t) p = Some (b\<lparr>a_locks := a_locks b - 1\<rparr>)"
      "settled (b\<lparr>a_locks := a_locks b - 1\<rparr>)"
      using b by (simp_all add: settled_def gone_def)
    fix q c
    assume "procs (upd p (\<lambda>a. a\<lparr>a_locks := a_locks a - 1\<rparr>) t) q = Some c" "q \<noteq> p"
    then show "settled c \<and> \<not> unreferenced c"
      using step_frame_others [OF rt(1), of q c] others by simp
  qed (use rt(3) in simp)
qed

text \<open>
  What threads outside the actors call (no instance is current): spawning and sending.
\<close>

lemma idle_same:
  "idle s \<Longrightarrow> sys_inv s' \<Longrightarrow> procs s' = procs s \<Longrightarrow> current_instance s' = current_instance s \<Longrightarrow> idle s'"
  by (simp add: idle_def)

lemma idle_sys_inv: "idle s \<Longrightarrow> sys_inv s"
  by (simp add: idle_def)

lemma idle_submit:
  assumes "idle s"
  shows "idle (submit_msg_task p from m (record_post p from m s))"
proof -
  have "sys_inv (submit_msg_task p from m (record_post p from m s))"
    using idle_sys_inv [OF assms] by (simp add: submit_msg_task_def sys_inv_upd)
  moreover have "settled b \<and> \<not> unreferenced b" if "procs (submit_msg_task p from m (record_post p from m s)) q = Some b" for q b
    using assms that
    by (auto simp: idle_def submit_msg_task_def procs_upd unreferenced_def split: if_splits)
  ultimately show ?thesis using assms by (simp add: idle_def)
qed

lemma idle_new:
  assumes "idle s"
  shows "idle (snd (instance_new b eh name env s))"
proof -
  have "sys_inv (snd (instance_new b eh name env s))" using sys_inv_new [OF idle_sys_inv [OF assms]] .
  moreover have "settled a \<and> \<not> unreferenced a"
    if "procs (snd (instance_new b eh name env s)) q = Some a" for q a
    using assms that
    by (auto simp: idle_def instance_new_def Let_def settled_def unreferenced_def split: if_splits)
  ultimately show ?thesis using assms by (simp add: idle_def)
qed

interpretation idle: sys_order "\<lambda>s s'. idle s \<longrightarrow> idle s'"
proof (unfold_locales, goal_cases)
  case (3 s l)
  show ?case using inv.log [of s l] by (auto dest: idle_sys_inv intro: idle_same)
next
  case (4 s u)
  show ?case using inv.mem [of s u] by (auto dest: idle_sys_inv intro: idle_same)
next
  case (5 s p a "from" m)
  show ?case by (simp add: idle_submit)
next
  case (6 s name h)
  show ?case using inv.reg [of s name h] by (auto dest: idle_sys_inv intro: idle_same)
next
  case (7 s name)
  show ?case
  proof
    assume "idle s"
    then show "idle (snd (tap_subscribers name s))"
      by (rule idle_same) (simp_all add: sys_inv_tap_subscribers idle_sys_inv \<open>idle s\<close>)
  qed
next
  case (8 s b eh name env)
  show ?case by (simp add: idle_new)
next
  case (9 s p f)
  then show ?case by (simp add: idle_def)
qed simp_all

lemma idle_upd_locks:
  assumes "idle s" "procs s p = Some a"
  shows "idle (upd p (\<lambda>a. a\<lparr>a_locks := a_locks a + 1\<rparr>) s)"
proof -
  have "sys_inv (upd p (\<lambda>a. a\<lparr>a_locks := a_locks a + 1\<rparr>) s)"
    using assms(1) by (intro sys_inv_upd) (simp_all add: idle_def)
  with assms show ?thesis
    by (auto simp: idle_def procs_upd unreferenced_def split: if_splits)
qed

lemma idle_release:
  assumes "idle s" "procs s p = Some a"
  shows "idle (collect p (upd p (\<lambda>a. a\<lparr>a_locks := a_locks a - 1\<rparr>) s))"
proof (rule idle_collect)
  show "sys_inv (upd p (\<lambda>a. a\<lparr>a_locks := a_locks a - 1\<rparr>) s)"
    using assms(1) by (intro sys_inv_upd) (simp_all add: idle_def)
qed (use assms in \<open>auto simp: idle_def\<close>)

lemma idle_sync:
  assumes "idle s" "procs s p = Some a" "a_locks a > 0" "dispatch_sync_raw p m s = (Inr r, s')"
  shows "idle s'"
proof (cases "a_in_shutdown a")
  case True
  then show ?thesis
    using assms deadsend_state [of m null_handle s] by (auto simp: dispatch_sync_raw_def actor_of_def idle_def)
next
  case False
  have i: "sys_inv s" "current_instance s = None" "settled a"
    and others: "\<And>q a. procs s q = Some a \<Longrightarrow> settled a \<and> \<not> unreferenced a"
    using assms(1,2) by (auto simp: idle_def)
  have run: "run p null_handle m s = (Inr (), s')"
    using assms(2,4) False i(2)
    by (auto simp: dispatch_sync_raw_def actor_of_def bindS_def split: prod.splits sum.splits)
  note f = run_step_frame [OF run i(2,1) assms(2) i(3)]
  have "\<not> unreferenced b" if "procs s' p = Some b" for b
    using f assms(2,3) that
    by (fastforce simp: step_frame_def frame_by_def life_ext_def unreferenced_def)
  then have "settled c \<and> \<not> unreferenced c" if "procs s' q = Some c" for q c
    using f that step_frame_others [of p s s' q c] others by (cases "q = p") auto
  with f show ?thesis by (simp add: idle_def)
qed

text \<open>The debugging switches and tables; none of them touches an actor.\<close>

lemma filter_count: "int (length (filter P xs)) = int (length xs) - int (length xs - length (filter P xs))"
  using length_filter_le [of P xs] by linarith

lemma sys_inv_debug:
  assumes "sys_inv s"
  shows "sys_inv (debug_enable s)" "sys_inv (debug_disable s)" "sys_inv (on_last_exit h s)"
    "sys_inv (tap_add n sub s)" "sys_inv (snd (tap_remove n sub s))" "sys_inv (unregister_instance n s)"
proof -
  note d = sys_inv_def ids_ok_def self_refs_ok_def
  show "sys_inv (debug_enable s)" "sys_inv (debug_disable s)" "sys_inv (on_last_exit h s)"
    using assms by (simp_all add: d debug_enable_def debug_disable_def on_last_exit_def Let_def)
  show "sys_inv (tap_add n sub s)"
    using assms by (simp add: d tap_add_def length_mmap_emplace)
  show "sys_inv (snd (tap_remove n sub s))"
    using assms by (simp add: d tap_remove_def Let_def flip: filter_count)
  show "sys_inv (unregister_instance n s)"
    using assms omap_erase_sorted [of "registry s" n] by (simp add: d unregister_instance_def)
qed

lemma debug_frame:
  assumes "s' \<in> {debug_enable s, debug_disable s, on_last_exit h s, tap_add n sub s,
    snd (tap_remove n sub s), unregister_instance n s}"
  shows "procs s' = procs s" "current_instance s' = current_instance s"
  using assms by (auto simp: debug_enable_def debug_disable_def on_last_exit_def tap_add_def
      tap_remove_def unregister_instance_def Let_def)

lemma idle_debug:
  assumes "idle s" "s' \<in> {debug_enable s, debug_disable s, on_last_exit h s, tap_add n sub s,
    snd (tap_remove n sub s), unregister_instance n s}"
  shows "idle s'"
proof (rule idle_same [OF assms(1) _ debug_frame [OF assms(2)]])
  show "sys_inv s'" using sys_inv_debug [OF idle_sys_inv [OF assms(1)]] assms(2) by auto
qed

lemma idle_outside: "outside s s' \<Longrightarrow> idle s \<Longrightarrow> idle s'"
proof (induction rule: outside.induct)
  case (spawn b eh name env s r s')
  then show ?case using keepsD [OF idle.instance_spawn_keeps] by blast
next
  case (send h m s r s')
  then show ?case using keepsD [OF idle.handle_send_raw_keeps] by blast
next
  case (complete s p a m r s')
  then show ?case using keepsD [OF idle.instance_send_raw_keeps] by blast
qed (blast intro: idle_upd_locks idle_release idle_sync idle_debug)+

lemma idle_step: "step s s' \<Longrightarrow> idle s \<Longrightarrow> idle s'"
  by (induction rule: step.induct) (blast intro: idle_run_task idle_outside)+

lemma idle_init: "idle (context_create u)"
  by (simp add: idle_def sys_inv_def ids_ok_def self_refs_ok_def context_create_def)

lemma reachable_idle: "reachable s \<Longrightarrow> idle s"
  by (induction rule: reachable.induct) (auto intro: idle_init idle_step)

end
