(* ===== verification/Actor_Demo.thy ===== *)
theory Actor_Demo
  imports Actor_Step
begin

text \<open>
  A small system for witnesses, and the facts about the library's own messages that evaluation
  settles.
\<close>

lemma is_exit_link_msg: "is_exit_msg link_msg = Inr False"
  by code_simp

lemma is_exit_normal_msg: "is_exit_msg exit_normal_msg = Inr True"
  by code_simp

lemma link_msg_not_null: "\<not> is_null link_msg" "link_msg \<noteq> exit_normal_msg"
  by code_simp+

text \<open>
  Running a system of explicit records: the definitions that the simplifier unfolds, and the facts it
  needs about the messages.
\<close>

lemmas actor_eval = run_task_def run_def run_body_def run_try_def run_catch_def run_receive_def
  call_receiver_def handle_exit_def run_exit_handlers_def collect_def unreferenced_def destroy_def
  upd_def actor_of_def do_trace_def do_trace_raw_def do_trace_to_def instance_spawn_def
  instance_new_def make_handle_def lock_def expired_def queue_def queue_with_def schedule_def
  deadsend_def submit_msg_task_def register_instance_def isenabled_def is_tapping_def
  api_receive_def api_set_trap_def private_call_def private_call_of_def api_spawn_link_def
  instance_spawn_link_def env_or_def add_link_def handle_send_raw_def instance_send_raw_def
  run_link_def do_trace_links_def is_link_msg_def enabled_def env_init_def context_create_def
  bindS_def catchS_def modifyS_def liftS_def returnS_def null_handle_def ok_def Let_def

lemma null_value_msg: "is_null null_value" "null_value \<noteq> link_msg" "is_exit_msg null_value = Inr False"
  by code_simp+

lemma boom_msg:
  "\<not> is_null (exit_message ''boom'' [])" "exit_message ''boom'' [] \<noteq> link_msg"
  "is_exit_msg (exit_message ''boom'' []) = Inr True" "exit_message ''boom'' [] \<noteq> exit_normal_msg"
  by code_simp+

lemmas demo_msgs = null_value_msg boom_msg link_msg_not_null

text \<open>
  A system for the witnesses: an actor \<open>a\<close> whose behaviour spawns a linked actor \<open>b\<close> and then
  receives; both answer nothing. First the system before any task has run, then after \<open>a\<close> has run.
\<close>

definition demo_idle :: "handle \<Rightarrow> buffer \<Rightarrow> (unit, unit) prog" where
  "demo_idle from m = Ret ok"

definition demo_a :: "(unit, unit) prog" where
  "demo_a = Spawn_link (Receive (Some demo_idle) (Ret ok)) ''b'' None
     (\<lambda>_. Receive (Some demo_idle) (Ret ok))"

definition demo_spawned :: "(unit, unit) sys" where
  "demo_spawned = snd (instance_spawn demo_a None ''a'' None env_init (context_create ()))"

definition demo_running :: "(unit, unit) sys" where
  "demo_running = snd (run_task 1 demo_spawned)"

lemma demo_spawned_reachable: "reachable demo_spawned"
  unfolding demo_spawned_def
  by (rule reachable.step [OF reachable.init step.outside [OF outside.spawn [OF surjective_pairing]]])

lemma demo_eval:
  "procs demo_spawned 1 \<noteq> None" "a_tasks (actor_of demo_spawned 1) = [(null_handle, null_value)]"
  "fst (run_task 1 demo_spawned) = Inr ()" "procs demo_running 1 \<noteq> None"
  "procs demo_running 2 \<noteq> None" "a_links (actor_of demo_running 1) = [\<lparr>h_ref = Some 2, h_id = 2\<rparr>]"
  "\<not> a_in_shutdown (actor_of demo_running 1)" "\<not> a_in_shutdown (actor_of demo_running 2)"
  "\<not> a_trap_exit (actor_of demo_running 1)"
  by (simp_all add: demo_running_def demo_spawned_def demo_a_def actor_eval demo_msgs)

lemma demo_running_reachable: "reachable demo_running"
proof -
  obtain a where a: "procs demo_spawned 1 = Some a" using demo_eval(1) by auto
  then have "a_tasks a \<noteq> []" using demo_eval(2) by (simp add: actor_of_def)
  moreover have "run_task 1 demo_spawned = (Inr (), demo_running)"
    using demo_eval(3) by (metis demo_running_def prod.collapse)
  ultimately show ?thesis by (rule reachable.step [OF demo_spawned_reachable step.task [OF a]])
qed

text \<open>
  Three more: an actor that traps exits, one whose receiver throws and that has a linked child, and
  one that is held by a pending operation and whose behaviour sets no receiver.
\<close>

definition spawned :: "(unit, unit) prog \<Rightarrow> (unit, unit) sys" where
  "spawned b = snd (instance_spawn b None ''a'' None env_init (context_create ()))"

definition demo_trap :: "(unit, unit) prog" where
  "demo_trap = Set_trap True (\<lambda>_. Receive (Some demo_idle) (Ret ok))"

definition demo_throw :: "(unit, unit) prog" where
  "demo_throw = Spawn_link (Receive (Some demo_idle) (Ret ok)) ''b'' None
     (\<lambda>_. Receive (Some (\<lambda>_ _. Throw (Std_exn ''bad''))) (Ret ok))"

definition demo_trapping :: "(unit, unit) sys" where
  "demo_trapping = snd (run_task 1 (spawned demo_trap))"

definition demo_throwing :: "(unit, unit) sys" where
  "demo_throwing = snd (run_task 1 (spawned demo_throw))"

definition demo_held :: "(unit, unit) sys" where
  "demo_held = upd 1 (\<lambda>a. a\<lparr>a_locks := a_locks a + 1\<rparr>) (spawned (Ret ok))"

definition demo_down :: "(unit, unit) sys" where
  "demo_down = snd (run_task 1 demo_held)"

text \<open>The outcome of the first task of \<open>p\<close>, evaluated once.\<close>

definition first_task :: "((unit, unit) sys \<Rightarrow> bool) \<Rightarrow> pid \<Rightarrow> (unit, unit) sys \<Rightarrow> bool" where
  "first_task P p s \<longleftrightarrow> (case procs s p of None \<Rightarrow> False | Some a \<Rightarrow> a_tasks a \<noteq> [] \<and>
     (case run_task p s of (Inl _, _) \<Rightarrow> False | (Inr _, s') \<Rightarrow> P s'))"

lemma first_taskD:
  assumes "first_task P p s" "reachable s"
  shows "reachable (snd (run_task p s))" "P (snd (run_task p s))"
proof -
  obtain a s' where a: "procs s p = Some a" "a_tasks a \<noteq> []" "run_task p s = (Inr (), s')" "P s'"
    using assms(1) by (auto simp: first_task_def split: option.splits prod.splits sum.splits)
  then show "reachable (snd (run_task p s))" "P (snd (run_task p s))"
    using reachable.step [OF assms(2) step.task [OF a(1-3)]] by simp_all
qed

lemma spawned_reachable: "reachable (spawned b)"
  unfolding spawned_def
  by (rule reachable.step [OF reachable.init step.outside [OF outside.spawn [OF surjective_pairing]]])

text \<open>The receiver of an actor called on a message, in the state in which \<open>run\<close> calls it.\<close>

definition at_receiver :: "(unit, unit) sys \<Rightarrow> buffer \<Rightarrow> (result, (unit, unit) sys) comp \<Rightarrow> bool" where
  "at_receiver s m c \<longleftrightarrow> (\<exists>a f. procs s 1 = Some a \<and> \<not> a_in_shutdown a \<and> a_receiver a = R_fun f \<and> exec (f null_handle m) = c)"

lemma at_receiverI:
  "(case procs s 1 of None \<Rightarrow> False | Some a \<Rightarrow> \<not> a_in_shutdown a \<and>
     (case a_receiver a of R_fun f \<Rightarrow> (case f null_handle m of Ret (Inr _) \<Rightarrow> True | _ \<Rightarrow> False) | _ \<Rightarrow> False))
   \<Longrightarrow> at_receiver s m (returnS ok)"
  "(case procs s 1 of None \<Rightarrow> False | Some a \<Rightarrow> \<not> a_in_shutdown a \<and>
     (case a_receiver a of R_fun f \<Rightarrow> (case f null_handle m of Throw t \<Rightarrow> t = x | _ \<Rightarrow> False) | _ \<Rightarrow> False))
   \<Longrightarrow> at_receiver s m (throwS x)"
  by (auto simp: at_receiver_def ok_def split: option.splits receiver.splits prog.splits sum.splits)

lemma demo_trapping:
  "reachable demo_trapping" "a_trap_exit (actor_of demo_trapping 1)"
  "at_receiver demo_trapping (exit_message ''boom'' []) (returnS ok)"
proof -
  have "first_task (\<lambda>s. case procs s 1 of None \<Rightarrow> False | Some a \<Rightarrow> a_trap_exit a \<and> \<not> a_in_shutdown a \<and>
     (case a_receiver a of R_fun f \<Rightarrow> (case f null_handle (exit_message ''boom'' []) of Ret (Inr _) \<Rightarrow> True
        | _ \<Rightarrow> False) | _ \<Rightarrow> False)) 1 (spawned demo_trap)"
    by (simp add: first_task_def spawned_def demo_trap_def demo_idle_def actor_eval demo_msgs)
  from first_taskD [OF this spawned_reachable, folded demo_trapping_def]
  show "reachable demo_trapping" "a_trap_exit (actor_of demo_trapping 1)"
    "at_receiver demo_trapping (exit_message ''boom'' []) (returnS ok)"
    by (auto simp: actor_of_def intro: at_receiverI split: option.splits)
qed

lemma demo_throwing:
  "reachable demo_throwing" "procs demo_throwing 2 \<noteq> None" "\<not> a_in_shutdown (actor_of demo_throwing 2)"
  "a_links (actor_of demo_throwing 1) = [\<lparr>h_ref = Some 2, h_id = 2\<rparr>]"
  "at_receiver demo_throwing [0x80] (throwS (Std_exn ''bad''))"
proof -
  have "first_task (\<lambda>s. (case procs s 1 of None \<Rightarrow> False | Some a \<Rightarrow> a_links a = [\<lparr>h_ref = Some 2, h_id = 2\<rparr>] \<and> \<not> a_in_shutdown a \<and>
     (case a_receiver a of R_fun f \<Rightarrow> (case f null_handle [0x80] of Throw t \<Rightarrow> t = Std_exn ''bad''
        | _ \<Rightarrow> False) | _ \<Rightarrow> False)) \<and> (case procs s 2 of None \<Rightarrow> False | Some a \<Rightarrow> \<not> a_in_shutdown a))
     1 (spawned demo_throw)"
    by (simp add: first_task_def spawned_def demo_throw_def demo_idle_def actor_eval demo_msgs)
  from first_taskD [OF this spawned_reachable, folded demo_throwing_def]
  show "reachable demo_throwing" "procs demo_throwing 2 \<noteq> None" "\<not> a_in_shutdown (actor_of demo_throwing 2)"
    "a_links (actor_of demo_throwing 1) = [\<lparr>h_ref = Some 2, h_id = 2\<rparr>]"
    "at_receiver demo_throwing [0x80] (throwS (Std_exn ''bad''))"
    by (auto simp: actor_of_def intro: at_receiverI split: option.splits)
qed

lemma demo_down:
  "reachable demo_down" "procs demo_down 1 \<noteq> None" "a_in_shutdown (actor_of demo_down 1)"
proof -
  have "procs (spawned (Ret ok)) 1 \<noteq> None" "a_lifetime (actor_of (spawned (Ret ok)) 1)"
    by (simp_all add: spawned_def actor_eval demo_msgs)
  then obtain a where "procs (spawned (Ret ok)) 1 = Some a" "a_lifetime a" by (auto simp: actor_of_def)
  from reachable.step [OF spawned_reachable step.outside [OF outside.hold [OF this]]]
  have r: "reachable demo_held" by (simp add: demo_held_def)
  have "first_task (\<lambda>s. case procs s 1 of None \<Rightarrow> False | Some a \<Rightarrow> a_in_shutdown a) 1 demo_held"
    by (simp add: first_task_def demo_held_def spawned_def actor_eval demo_msgs)
  from first_taskD [OF this r, folded demo_down_def]
  show "reachable demo_down" "procs demo_down 1 \<noteq> None" "a_in_shutdown (actor_of demo_down 1)"
    by (auto simp: actor_of_def split: option.splits)
qed

end
