(* ===== verification/Actor_Props.thy ===== *)
theory Actor_Props
  imports Actor_Demo
begin

text \<open>
  The properties of the actor core: the invariant of reachable systems, delivery and order of
  messages, what happens when an actor exits, fails or is sent to after its death, spawning and
  linking.
\<close>

section \<open>Lemmas about one run\<close>

lemma run_not_link:
  "m \<noteq> link_msg \<Longrightarrow> run p from m s = run_body p from m s"
  by (simp add: run_def is_link_msg_def)

text \<open>The state in which the \<open>try\<close> block starts.\<close>

definition run_start :: "pid \<Rightarrow> ('t, 'u) sys \<Rightarrow> ('t, 'u) sys" where
  "run_start p s = (do_trace p Ch_execute [P_str ''run''] s)\<lparr>current_instance := Some p\<rparr>"

lemma run_start_simps [simp]:
  "procs (run_start p s) = procs s" "current_instance (run_start p s) = Some p"
  "lock (run_start p s) h = lock s h" "actor_of (run_start p s) = actor_of s"
  by (simp_all add: run_start_def lock_def actor_of_def fun_eq_iff split: option.splits)

lemma run_start_inv: "sys_inv s \<Longrightarrow> procs s p \<noteq> None \<Longrightarrow> sys_inv (run_start p s)"
  unfolding run_start_def by (rule sys_inv_current) (simp_all add: sys_inv_trace)

lemma start_trace:
  "actor_of (do_trace_to p c tag h ps (run_start q s)) = actor_of s"
  "lock (do_trace_to p c tag h ps (run_start q s)) g = lock s g"
  "received (do_trace_to p c tag h ps (run_start q s)) = received s"
  by (simp_all add: do_trace_to_def lock_def received_def fun_eq_iff split: option.splits)

lemma run_eq:
  assumes "m \<noteq> link_msg" "current_instance s = None" "procs s p = Some a" "\<not> a_in_shutdown a"
  shows "run p from m s =
    bindS (catchS (try_body p from m) (run_catch p)) (\<lambda>_. modifyS (run_end p)) (run_start p s)"
  using assms run_body_eq [of s p "from" m] by (simp add: run_not_link run_start_def actor_of_def)

text \<open>
  When exit handling has been entered, the rest of the run only adds to the queues of others and
  leaves the actor in shutdown.
\<close>

lemma after_exit:
  assumes "catchS m (run_catch p) s = (r, s')" "m s = (r1, t)" "current_instance t = Some p"
    "sys_inv t" "procs t p = Some b" "a_in_shutdown b"
  shows "exit_frame p t s'" "\<exists>c. procs s' p = Some c \<and> a_in_shutdown c"
proof -
  have "exit_frame p t s'"
  proof (cases r1)
    case (Inl e)
    then have "run_catch p e t = (r, s')" using assms(1,2) by (simp add: catchS_def)
    from runsD(1) [OF runs_catch this assms(3,4)] show ?thesis .
  next
    case (Inr x)
    then have "s' = t" using assms(1,2) by (simp add: catchS_def)
    then show ?thesis using runs.refl [where p = p and s = t] assms(3,4) by simp
  qed
  then show "exit_frame p t s'" "\<exists>c. procs s' p = Some c \<and> a_in_shutdown c"
    using exit_frame_self [of p t s' b] assms(5,6) by (auto simp: life_ext_def)
qed

lemma received_exit_frame:
  "received s t q x \<Longrightarrow> exit_frame p t u \<Longrightarrow> q \<noteq> p \<Longrightarrow> received s u q x"
  by (erule received_ext) (use exit_frame_other [of p t u q] in \<open>fastforce simp: task_ext_def\<close>)

text \<open>Exit messages and thrown exceptions both end in \<open>handle_exit\<close>.\<close>

lemma run_exits:
  assumes "run p from m s = (r, s')" "m \<noteq> link_msg" "current_instance s = None" "sys_inv s"
    "procs s p = Some a" "\<not> a_in_shutdown a"
    and ex: "catchS (try_body p from m) (run_catch p) (run_start p s) = (r2, v)"
      "handle_exit p e t = (r1, u)" "exit_frame p u v"
    and t: "current_instance t = Some p" "sys_inv t" "procs t p = Some b"
  shows "(\<exists>a'. procs s' p = Some a' \<and> a_in_shutdown a') \<and>
    (\<forall>h \<in> set (a_links b). \<forall>q. lock t h = Some q \<and> q \<noteq> p \<and> \<not> a_in_shutdown (actor_of t q) \<longrightarrow>
       received t s' q (a_self_ref b, e))"
proof -
  note he = handle_exit_effect [OF ex(2) t]
  obtain c where c: "procs u p = Some c" "a_in_shutdown c" using he(3) by auto
  have sd: "\<exists>c. procs v p = Some c \<and> a_in_shutdown c"
    using exit_frame_self [OF ex(3) c(1)] c(2) by (auto simp: life_ext_def)
  have s': "s' = v \<or> s' = run_end p v"
    using assms(1) run_eq [OF assms(2,3,5,6), of "from"] ex(1)
    by (auto simp: bindS_def split: sum.splits)
  then have pv: "procs s' = procs v" by auto
  have "received t s' q (a_self_ref b, e)"
    if h: "h \<in> set (a_links b)" "lock t h = Some q" "q \<noteq> p" "\<not> a_in_shutdown (actor_of t q)" for h q
    using received_exit_frame [OF he(4) [OF h] ex(3) h(3)] pv by (simp add: received_def)
  with sd pv show ?thesis by auto
qed

lemma run_exit_msg:
  assumes "current_instance s = None" "sys_inv s" "procs s p = Some a" "\<not> a_in_shutdown a" "\<not> a_trap_exit a"
    "is_exit_msg m = Inr True" "m \<noteq> exit_normal_msg" "run p from m s = (r, s')"
  shows "(\<exists>a'. procs s' p = Some a' \<and> a_in_shutdown a') \<and>
    (\<forall>h \<in> set (a_links a). \<forall>q. lock s h = Some q \<and> q \<noteq> p \<and> \<not> a_in_shutdown (actor_of s q) \<longrightarrow>
       received s s' q (a_self_ref a, m))"
proof -
  have l: "m \<noteq> link_msg" using assms(6) is_exit_link_msg by auto
  have st: "current_instance (run_start p s) = Some p" "sys_inv (run_start p s)" "procs (run_start p s) p = Some a"
    using run_start_inv [OF assms(2)] assms(3) by simp_all
  obtain r1 u where u: "handle_exit p m (run_start p s) = (r1, u)" by fastforce
  note he = handle_exit_effect [OF u st]
  obtain d where d: "procs u p = Some d" "a_in_shutdown d" using he(3) by auto
  have cu: "current_instance u = Some p" using frame_stateD [OF he(1)] by simp
  obtain r2 v where v: "catchS (handle_exit p m) (run_catch p) (run_start p s) = (r2, v)" by fastforce
  have "catchS (try_body p from m) (run_catch p) (run_start p s) = (r2, v)"
    unfolding v [symmetric] using assms(3,5-7)
    by (simp add: catchS_def try_body_def bindS_def actor_of_def ok_def split: prod.splits sum.splits)
  from run_exits [OF assms(8) l assms(1-4) this u after_exit(1) [OF v u cu he(2) d] st] show ?thesis
    by (simp add: received_def)
qed

section \<open>Properties\<close>

text \<open>
  C1. In every reachable system the counter of active instances is the number of live actors, the
  process-wide table finds exactly the live actors under their ids, ids are below the counter they
  are drawn from (so they are never reused), and every live actor is settled: it is running with a
  receiver, or has shut down completely and is only kept by queued tasks or pending operations.
\<close>

theorem reachable_consistent:
  assumes "reachable s"
  shows "active s = card (dom (procs s))
    \<and> (\<forall>i. lock s (instance_by_id s i) = (if procs s i = None then None else Some i))
    \<and> (\<forall>p a. procs s p = Some a \<longrightarrow> p < next_instance_id s \<and> settled a \<and> \<not> unreferenced a)"
proof -
  have i: "idle s" using assms by (rule reachable_idle)
  then have "lock s (instance_by_id s i) = (if procs s i = None then None else Some i)" for i
    by (simp add: idle_def sys_inv_def instance_by_id_def make_handle_def lock_def)
  with i show ?thesis by (auto simp: idle_def sys_inv_def ids_ok_def)
qed

theorem reachable_consistent_witness: "active demo_running = card (dom (procs demo_running))"
  using reachable_consistent [OF demo_running_reachable] by blast

text \<open>
  C2. An exit message other than a normal exit stops an actor that does not trap exits, and the same
  message, from the actor itself, is in the queue of every live actor it is linked to.
\<close>

theorem exit_propagates:
  assumes "idle s" "procs s p = Some a" "\<not> a_in_shutdown a" "\<not> a_trap_exit a"
    "is_exit_msg m = Inr True" "m \<noteq> exit_normal_msg" "run p from m s = (r, s')"
  shows "(\<exists>a'. procs s' p = Some a' \<and> a_in_shutdown a') \<and>
    (\<forall>h \<in> set (a_links a). \<forall>q. lock s h = Some q \<and> q \<noteq> p \<and> \<not> a_in_shutdown (actor_of s q) \<longrightarrow>
       received s s' q (a_self_ref a, m))"
  using assms(1) by (intro run_exit_msg [OF _ _ assms(2-7)]) (simp_all add: idle_def)

theorem exit_propagates_witness:
  "received demo_running (snd (run 1 null_handle (exit_message ''boom'' []) demo_running)) 2
     (a_self_ref (actor_of demo_running 1), exit_message ''boom'' [])"
proof -
  obtain a where a: "procs demo_running 1 = Some a" using demo_eval(4) by auto
  have m: "is_exit_msg (exit_message ''boom'' []) = Inr True" "exit_message ''boom'' [] \<noteq> exit_normal_msg"
    by code_simp+
  have "lock demo_running \<lparr>h_ref = Some 2, h_id = 2\<rparr> = Some 2" using demo_eval(5) by (simp add: lock_Some)
  with exit_propagates [OF reachable_idle [OF demo_running_reachable] a _ _ m surjective_pairing]
    demo_eval(6-9) a show ?thesis by (simp add: actor_of_def)
qed

text \<open>
  A normal exit message is ignored by an actor that does not trap exits: no actor changes.
\<close>

theorem exit_normal_ignored:
  assumes "idle s" "procs s p = Some a" "\<not> a_trap_exit a"
  shows "fst (run p from exit_normal_msg s) = Inr () \<and> procs (snd (run p from exit_normal_msg s)) = procs s
    \<and> current_instance (snd (run p from exit_normal_msg s)) = None"
proof (cases "a_in_shutdown a")
  case True
  with assms link_msg_not_null(2) show ?thesis
    by (auto simp: run_not_link run_body_def actor_of_def idle_def)
next
  case False
  have c: "current_instance s = None" using assms(1) by (simp add: idle_def)
  have "try_body p from exit_normal_msg (run_start p s) = (Inr (), run_start p s)"
    using assms(2,3) by (simp add: try_body_def bindS_def actor_of_def is_exit_normal_msg ok_def)
  then show ?thesis
    using run_eq [of exit_normal_msg s p a "from"] c assms(2) False link_msg_not_null(2)
    by (auto simp: bindS_def catchS_def)
qed

theorem exit_normal_ignored_witness:
  "procs (snd (run 1 null_handle exit_normal_msg demo_running)) = procs demo_running"
proof -
  obtain a where a: "procs demo_running 1 = Some a" using demo_eval(4) by auto
  with demo_eval(9) show ?thesis
    using exit_normal_ignored [OF reachable_idle [OF demo_running_reachable] a] by (simp add: actor_of_def)
qed

text \<open>
  C3. An exception thrown by a receiver stops its actor, and every live actor it is linked to gets
  an exit message that carries the exception's text.
\<close>

theorem exception_propagates:
  assumes "idle s" "procs s p = Some a" "\<not> a_in_shutdown a" "a_receiver a = R_fun f"
    "m \<noteq> link_msg" "\<not> a_trap_exit a \<longrightarrow> is_exit_msg m = Inr False"
    "exec (f from m) (if is_null m then run_start p s
       else do_trace_to p Ch_receive ''receive'' from [P_buf m] (run_start p s)) = (Inl (Std_exn what), t)"
    "run p from m s = (r, s')"
  shows "(\<exists>a'. procs s' p = Some a' \<and> a_in_shutdown a') \<and>
    (\<forall>h \<in> set (a_links (actor_of t p)). \<forall>q. lock t h = Some q \<and> q \<noteq> p
         \<and> \<not> a_in_shutdown (actor_of t q) \<longrightarrow>
       received t s' q (a_self_ref (actor_of t p), exit_message (''UNHANDLED_EXCEPTION: '' @ what) []))"
proof -
  have c: "current_instance s = None" "sys_inv s" using assms(1) by (simp_all add: idle_def)
  define t0 where "t0 = (if is_null m then run_start p s
       else do_trace_to p Ch_receive ''receive'' from [P_buf m] (run_start p s))"
  have t0: "current_instance t0 = Some p" "procs t0 = procs s" "sys_inv t0"
    using run_start_inv [OF c(2)] assms(2) by (auto simp: t0_def do_trace_to_def sys_inv_trace)
  have e: "exec (f from m) t0 = (Inl (Std_exn what), t)" using assms(7) by (simp add: t0_def)
  note ft = runsD [OF runs_exec e t0(1,3)]
  have ct: "current_instance t = Some p" using frame_stateD [OF ft(1)] by simp
  obtain b where b: "procs t p = Some b" using exit_frame_self [OF ft(1)] t0(2) assms(2) by fastforce
  obtain r1 u where u: "handle_exit p (exit_message (''UNHANDLED_EXCEPTION: '' @ what) []) t = (r1, u)"
    by fastforce
  have "try_body p from m (run_start p s) = (Inl (Std_exn what), t)"
    using assms(2,4,6) e t0(2)
    by (auto simp: try_body_def run_receive_def call_receiver_def bindS_def actor_of_def
        t0_def [symmetric] split: if_splits)
  then have x: "catchS (try_body p from m) (run_catch p) (run_start p s) = (r1, u)"
    using u ct by (simp add: catchS_def run_catch_def)
  have "exit_frame p u u"
    using handle_exit_effect(1,2) [OF u ct ft(2) b] runs.refl [where p = p and s = u]
    by (simp add: frame_by_def)
  from run_exits [OF assms(8,5) c assms(2,3) x u this ct ft(2) b] b show ?thesis
    by (simp add: actor_of_def)
qed

theorem exception_propagates_witness:
  "received demo_throwing (snd (run 1 null_handle [0x80] demo_throwing)) 2
     (a_self_ref (actor_of demo_throwing 1), exit_message ''UNHANDLED_EXCEPTION: bad'' [])"
proof -
  let ?t = "do_trace_to 1 Ch_receive ''receive'' null_handle [P_buf [0x80]] (run_start 1 demo_throwing)"
  obtain a f where a: "procs demo_throwing 1 = Some a" "\<not> a_in_shutdown a" "a_receiver a = R_fun f"
      "exec (f null_handle [0x80]) = throwS (Std_exn ''bad'')"
    using demo_throwing(5) by (auto simp: at_receiver_def)
  have m: "[0x80] \<noteq> link_msg" "is_exit_msg [0x80] = Inr False" "\<not> is_null [0x80]" by code_simp+
  have x: "exec (f null_handle [0x80]) (if is_null [0x80] then run_start 1 demo_throwing else ?t)
      = (Inl (Std_exn ''bad''), ?t)" using m(3) by (simp add: a(4))
  have "lock demo_throwing \<lparr>h_ref = Some 2, h_id = 2\<rparr> = Some 2" using demo_throwing(2) by (simp add: lock_Some)
  with exception_propagates [OF reachable_idle [OF demo_throwing(1)] a(1-3) m(1) _ x surjective_pairing]
    demo_throwing(3,4) m(2) show ?thesis by (simp add: start_trace)
qed

end
