(* ===== verification/Actor_Queue.thy ===== *)
theory Actor_Queue
  imports Actor_Props
begin

text \<open>
  What running a message does to the queues. The locale \<open>run_order\<close> extends \<open>sys_order\<close> from the
  interface of the running actor to \<open>run\<close> itself: a relation that does not depend on the settings of an
  actor and on who is current is kept by the whole run, exits and exceptions included. It is
  interpreted by the history of the queues: they grow by exactly what \<open>queue\<close> has accepted.
\<close>

section \<open>Orders that a run keeps\<close>

locale run_order = sys_order R
  for R :: "('t, 'u) sys \<Rightarrow> ('t, 'u) sys \<Rightarrow> bool" +
  assumes settings: "(\<And>a. a_tasks (f a) = a_tasks a) \<Longrightarrow> R s (upd p f s)"
    and current: "R s (s\<lparr>current_instance := c\<rparr>)"
begin

lemma settings_keeps: "(\<And>a. a_tasks (f a) = a_tasks a) \<Longrightarrow> keeps R (modifyS (upd p f))"
  by (rule keeps_modify) (rule settings)

lemma trace_keeps: "keeps R (modifyS (do_trace p c parms))"
  by (rule keeps_modify) (rule trace)

lemma run_exit_handlers_keeps: "keeps R (run_exit_handlers p m)"
proof (rule keepsI)
  fix s :: "('t, 'u) sys"
  let ?hs = "a_exit_handlers (actor_of s p)"
  have "keeps R (bindS (modifyS (upd p (\<lambda>a. a\<lparr>a_exit_handlers := []\<rparr>))) (\<lambda>_. bindS (liftS (exit_reason m)) (\<lambda>err.
      forS ?hs (\<lambda>eh. bindS (exec (eh err)) (\<lambda>_. returnS ())))))"
    by (intro keeps_bind settings_keeps keeps_lift keeps_for exec_keeps keeps_return) simp
  then show "R s (snd (run_exit_handlers p m s))"
    by (simp add: run_exit_handlers_def Let_def refl keeps_def)
qed

lemma exit_links_keeps:
  "keeps R (\<lambda>s. forS (a_links (actor_of s p)) (\<lambda>h. bindS (handle_send_raw h m) (\<lambda>_. returnS ())) s)"
proof (rule keepsI)
  fix s :: "('t, 'u) sys"
  have "keeps R (forS (a_links (actor_of s p)) (\<lambda>h. bindS (handle_send_raw h m) (\<lambda>_. returnS ())))"
    by (intro keeps_for keeps_bind handle_send_raw_keeps keeps_return)
  then show "R s (snd (forS (a_links (actor_of s p)) (\<lambda>h. bindS (handle_send_raw h m) (\<lambda>_. returnS ())) s))"
    by (simp add: keeps_def)
qed

lemma handle_exit_keeps: "keeps R (handle_exit p m)"
  unfolding handle_exit_def
  by (intro keeps_bind settings_keeps exit_links_keeps trace_keeps run_exit_handlers_keeps
      keeps_modify [of "\<lambda>s. if is_tapping s then tap_exit (a_name (actor_of s p)) m s else s"] tap_exit_if_keeps) simp_all

lemma call_receiver_keeps: "keeps R (call_receiver p from m)"
proof (rule keepsI)
  fix s
  have "R s (upd p (\<lambda>a. a\<lparr>a_receiver := R_empty\<rparr>) (do_trace p Ch_lifetime [P_str ''init''] s))"
    using trans [OF trace settings, of "\<lambda>a. a\<lparr>a_receiver := R_empty\<rparr>"] by simp
  then show "R s (snd (call_receiver p from m s))"
    using exec_keeps by (auto simp: call_receiver_def refl keeps_def split: receiver.splits intro: trans)
qed

lemma run_receive_keeps: "keeps R (run_receive p from m)"
proof -
  have "keeps R (\<lambda>s. if ret = ok \<and> current_instance s \<noteq> None \<and> receiver_empty (a_receiver (actor_of s p))
      then bindS (handle_exit p exit_noreceive_msg) (\<lambda>_. returnS ret) s else (Inr ret, s))" for ret
  proof (rule keepsI)
    fix s
    have "keeps R (bindS (handle_exit p exit_noreceive_msg) (\<lambda>_. returnS ret))"
      by (intro keeps_bind handle_exit_keeps keeps_return)
    then show "R s (snd (if ret = ok \<and> current_instance s \<noteq> None \<and> receiver_empty (a_receiver (actor_of s p))
        then bindS (handle_exit p exit_noreceive_msg) (\<lambda>_. returnS ret) s else (Inr ret, s)))"
      by (auto simp: keeps_def refl)
  qed
  then show ?thesis
    unfolding run_receive_def
    by (intro keeps_bind call_receiver_keeps keeps_modify) (simp_all add: refl trace do_trace_to_def)
qed

lemma run_try_keeps: "keeps R (run_try p from m)"
proof (rule keepsI)
  fix s
  have e: "keeps R (\<lambda>s. if \<not> a_trap_exit (actor_of s p) then liftS (is_exit_msg m) s else (Inr False, s))"
    by (rule keepsI) (auto simp: refl split: sum.splits)
  have "keeps R (bindS (modifyS (\<lambda>s. s\<lparr>current_instance := Some p\<rparr>)) (\<lambda>_.
      bindS (\<lambda>s. if \<not> a_trap_exit (actor_of s p) then liftS (is_exit_msg m) s else (Inr False, s)) (\<lambda>is_exit.
      bindS (if is_exit then (if m \<noteq> exit_normal_msg then bindS (handle_exit p m) (\<lambda>_. returnS ok) else returnS ok)
             else run_receive p from m) (\<lambda>ret.
      case ret of Inl e \<Rightarrow> handle_exit p e | Inr _ \<Rightarrow> returnS ()))))"
    by (intro keeps_bind keeps_modify current e keeps_if keeps_case_sum handle_exit_keeps run_receive_keeps keeps_return)
  then show "R s (snd (run_try p from m s))" by (simp add: run_try_def refl keeps_def)
qed

lemma run_catch_keeps: "keeps R (run_catch p t)"
  using handle_exit_keeps by (intro keepsI) (auto simp: run_catch_def refl keeps_def split: thrown.splits)

lemma run_body_keeps: "keeps R (run_body p from m)"
proof (rule keepsI)
  fix s
  have "R s ((if \<not> a_in_shutdown (actor_of s p) then do_trace p Ch_execute [P_str ''sleep''] s else s)\<lparr>current_instance := None\<rparr>)" for s
    using trans [OF trace current] current by auto
  then have "keeps R (bindS (modifyS (do_trace p Ch_execute [P_str ''run''])) (\<lambda>_.
      bindS (catchS (run_try p from m) (run_catch p)) (\<lambda>_. modifyS (\<lambda>s. if current_instance s \<noteq> None then
        (if \<not> a_in_shutdown (actor_of s p) then do_trace p Ch_execute [P_str ''sleep''] s
         else s)\<lparr>current_instance := None\<rparr> else s))))"
    by (intro keeps_bind trace_keeps keeps_catch run_try_keeps run_catch_keeps keeps_modify) (simp add: refl)
  then show "R s (snd (run_body p from m s))" by (simp add: run_body_def refl keeps_def)
qed

lemma run_link_keeps: "R s (run_link p from s)"
proof -
  have l: "R s (add_link p from (do_trace_to p Ch_link ''link'' from [] s))" for s
    unfolding add_link_def do_trace_to_def
    by (rule trans [OF trace settings]) simp
  have t: "R s (if b then do_trace p c ps s else s)" "R s (if b then do_trace_links p c s else s)" for b c ps s
    by (simp_all add: trace refl do_trace_links_def)
  show ?thesis
    unfolding run_link_def Let_def by (rule trans [OF trans [OF trans [OF t(1) l] t(2)] t(1)])
qed

lemma run_keeps: "keeps R (run p from m)"
proof (rule keepsI)
  fix s
  have "R s (snd (run_body p from m (run_link p from s)))"
    by (rule trans [OF run_link_keeps [of s p "from"]]) (use run_body_keeps in \<open>simp add: keeps_def\<close>)
  moreover have "R s (snd (run_body p from m s))" using run_body_keeps by (auto simp: keeps_def)
  ultimately show "R s (snd (run p from m s))" by (simp add: run_def run_link_keeps)
qed

lemma dispatch_sync_raw_keeps: "keeps R (dispatch_sync_raw p m)"
proof (rule keepsI)
  fix s
  have "keeps R (bindS (run p from m) (\<lambda>_. returnS ok))" for "from"
    by (intro keeps_bind run_keeps keeps_return)
  then show "R s (snd (dispatch_sync_raw p m s))"
    by (simp add: dispatch_sync_raw_def Let_def refl keeps_def)
qed

end

section \<open>The history of the queues\<close>

definition queue_of :: "('t, 'u) sys \<Rightarrow> pid \<Rightarrow> (handle \<times> buffer) list" where
  "queue_of s q = (case procs s q of None \<Rightarrow> [] | Some a \<Rightarrow> a_tasks a)"

text \<open>What of a history was posted to \<open>q\<close>.\<close>

definition posts_to :: "pid \<Rightarrow> (pid \<times> handle \<times> buffer) list \<Rightarrow> (handle \<times> buffer) list" where
  "posts_to q ps = map snd (filter (\<lambda>x. fst x = q) ps)"

lemma posts_to_simps [simp]:
  "posts_to q [] = []" "posts_to q (xs @ ys) = posts_to q xs @ posts_to q ys"
  "posts_to q [(p, from, m)] = (if p = q then [(from, m)] else [])"
  by (simp_all add: posts_to_def)

text \<open>From \<open>s\<close> to \<open>s'\<close> every queue grows at its end by what was posted to it.\<close>

definition grows :: "('t, 'u) sys \<Rightarrow> ('t, 'u) sys \<Rightarrow> bool" where
  "grows s s' \<longleftrightarrow> (\<exists>ps. posted s' = posted s @ ps \<and> (\<forall>q. queue_of s' q = queue_of s q @ posts_to q ps))"

lemma grows_same:
  "posted s' = posted s \<Longrightarrow> (\<And>q. queue_of s' q = queue_of s q) \<Longrightarrow> grows s s'"
  by (auto simp: grows_def intro!: exI [of _ "[]"])

lemma grows_trans: "grows s t \<Longrightarrow> grows t u \<Longrightarrow> grows s u"
  by (auto simp: grows_def)

lemma grows_submit: "procs s p = Some a \<Longrightarrow> grows s (submit_msg_task p from m (record_post p from m s))"
  by (auto simp: grows_def submit_msg_task_def record_post_def queue_of_def procs_upd intro!: exI [of _ "[(p, from, m)]"])

lemma queue_of_upd: "(\<And>a. a_tasks (f a) = a_tasks a) \<Longrightarrow> queue_of (upd p f s) q = queue_of s q"
  by (simp add: queue_of_def procs_upd split: option.splits)

lemma grows_new: "ids_ok s \<Longrightarrow> grows s (snd (instance_new b eh name env s))"
  by (rule grows_same) (auto simp: instance_new_def Let_def queue_of_def ids_ok_def dom_def split: option.splits)

interpretation queues: run_order "\<lambda>s s'. ids_ok s \<longrightarrow> ids_ok s' \<and> grows s s'"
proof (unfold_locales, goal_cases)
  case (2 s t u)
  then show ?case using grows_trans by blast
next
  case (5 s p a "from" m)
  then show ?case using grows_submit [OF 5(1)] by (simp add: ids_ok_def submit_msg_task_def)
next
  case (8 s b eh name env)
  then show ?case
    using grows_new [of s b eh name env] by (auto simp: instance_new_def Let_def ids_ok_def less_Suc_eq)
next
  case (9 s p f)
  then show ?case using queue_of_upd [of f p s] by (auto simp: ids_ok_def own_settings_def intro!: grows_same)
next
  case (10 f s p)
  then show ?case using queue_of_upd [of f p s] by (auto simp: ids_ok_def intro!: grows_same)
qed (auto simp: ids_ok_def tap_subscribers_def Let_def queue_of_def intro!: grows_same)

end
