(* ===== verification/Actor_Fair.thy ===== *)
theory Actor_Fair
  imports Actor_Queue
begin

text \<open>
  Executions: infinite sequences of steps, each labelled with the strand that ran a task or with
  nothing when the step came from outside. What every strand runs is what was queued, in order; and
  when the executor is fair to a strand, every queued message is run. From this follows that an exit
  ends the actors that are linked to the one that exits.
\<close>

section \<open>What a step leaves\<close>

definition stopped :: "('t, 'u) sys \<Rightarrow> pid \<Rightarrow> bool" where
  "stopped s q \<longleftrightarrow> (case procs s q of None \<Rightarrow> True | Some a \<Rightarrow> a_in_shutdown a)"

lemma queue_of_simps [simp]:
  "procs s q = None \<Longrightarrow> queue_of s q = []" "procs s q = Some a \<Longrightarrow> queue_of s q = a_tasks a"
  "procs s q = None \<Longrightarrow> stopped s q" "procs s q = Some a \<Longrightarrow> stopped s q = a_in_shutdown a"
  by (simp_all add: queue_of_def stopped_def)

text \<open>No queue loses or reorders a task, no actor comes back, and no id is given twice.\<close>

definition evolves :: "('t, 'u) sys \<Rightarrow> ('t, 'u) sys \<Rightarrow> bool" where
  "evolves s s' \<longleftrightarrow> next_instance_id s \<le> next_instance_id s' \<and>
     (\<forall>q a. procs s q = Some a \<longrightarrow> (\<exists>a' us. procs s' q = Some a' \<and> a_tasks a' = a_tasks a @ us
        \<and> (a_in_shutdown a \<longrightarrow> a_in_shutdown a'))) \<and>
     (\<forall>q < next_instance_id s. procs s q = None \<longrightarrow> procs s' q = None)"

lemma evolvesD:
  assumes "evolves s s'"
  shows "procs s q = Some a \<Longrightarrow> \<exists>a' us. procs s' q = Some a' \<and> a_tasks a' = a_tasks a @ us
      \<and> (a_in_shutdown a \<longrightarrow> a_in_shutdown a')"
    and "q < next_instance_id s \<Longrightarrow> procs s q = None \<Longrightarrow> procs s' q = None"
    and "next_instance_id s \<le> next_instance_id s'"
  using assms by (simp_all add: evolves_def)

lemma evolves_same: "procs s' = procs s \<Longrightarrow> next_instance_id s' = next_instance_id s \<Longrightarrow> evolves s s'"
  by (simp add: evolves_def)

lemma evolves_trans:
  assumes "evolves s t" "evolves t u"
  shows "evolves s u"
  unfolding evolves_def
proof (intro conjI allI impI)
  fix q a
  assume "procs s q = Some a"
  then obtain b us where b: "procs t q = Some b" "a_tasks b = a_tasks a @ us" "a_in_shutdown a \<longrightarrow> a_in_shutdown b"
    using evolvesD(1) [OF assms(1)] by blast
  then show "\<exists>a' us. procs u q = Some a' \<and> a_tasks a' = a_tasks a @ us \<and> (a_in_shutdown a \<longrightarrow> a_in_shutdown a')"
    using evolvesD(1) [OF assms(2) b(1)] by auto
qed (use evolvesD(2,3) [OF assms(1)] evolvesD(2,3) [OF assms(2)] in auto)

interpretation evolve: sys_order "\<lambda>s s'. ids_ok s \<longrightarrow> ids_ok s' \<and> evolves s s'"
proof (unfold_locales, goal_cases)
  case (2 s t u)
  then show ?case using evolves_trans by blast
next
  case (8 s b eh name env)
  show ?case by (auto simp: instance_new_def Let_def ids_ok_def evolves_def dom_def less_Suc_eq)
next
  case (9 s p f)
  then show ?case
    by (auto simp: ids_ok_def evolves_def procs_upd own_settings_def)
qed (auto simp: evolves_def ids_ok_def submit_msg_task_def procs_upd tap_subscribers_def Let_def)

lemma step_frame_evolves:
  assumes "step_frame p s s'" "procs s p \<noteq> None"
  shows "evolves s s'"
  unfolding evolves_def
proof (intro conjI allI impI)
  have f: "exit_frame p (s\<lparr>current_instance := Some p\<rparr>) (s'\<lparr>current_instance := Some p\<rparr>)"
    using assms(1) by (simp add: step_frame_def)
  then show "next_instance_id s \<le> next_instance_id s'" by (simp add: frame_by_def)
  fix q
  show "\<exists>a' us. procs s' q = Some a' \<and> a_tasks a' = a_tasks a @ us \<and> (a_in_shutdown a \<longrightarrow> a_in_shutdown a')"
    if "procs s q = Some a" for a
    using frame_old [OF f, of q a] that by (auto simp: life_ext_def task_ext_def split: if_splits)
  show "procs s' q = None" if "q < next_instance_id s" "procs s q = None"
  proof (rule ccontr)
    assume "procs s' q \<noteq> None"
    moreover have "q \<noteq> p" using assms(2) that(2) by auto
    ultimately have "next_instance_id s \<le> q" using f that(2) by (auto simp: frame_by_def)
    with that(1) show False by simp
  qed
qed

section \<open>One strand\<close>

text \<open>
  From \<open>s\<close> to \<open>s'\<close> the strand \<open>q\<close> has taken \<open>n\<close> tasks from its queue, which has grown by what was posted
  to it; what has stopped stays so.
\<close>

definition strand_moves :: "pid \<Rightarrow> nat \<Rightarrow> ('t, 'u) sys \<Rightarrow> ('t, 'u) sys \<Rightarrow> bool" where
  "strand_moves q n s s' \<longleftrightarrow> (\<exists>ps. posted s' = posted s @ ps \<and> queue_of s' q = drop n (queue_of s q) @ posts_to q ps)
     \<and> next_instance_id s \<le> next_instance_id s'
     \<and> (q < next_instance_id s \<and> stopped s q \<longrightarrow> stopped s' q)"

lemma moves_refl: "strand_moves q 0 s s"
  by (simp add: strand_moves_def)

lemma moves_trans: "strand_moves q n s t \<Longrightarrow> strand_moves q 0 t u \<Longrightarrow> strand_moves q n s u"
  by (auto simp: strand_moves_def)

lemma moves_evolves:
  assumes "evolves s s'" "grows s s'"
  shows "strand_moves q 0 s s'"
proof -
  have "q < next_instance_id s \<and> stopped s q \<longrightarrow> stopped s' q"
    using evolvesD(1,2) [OF assms(1), of q] by (cases "procs s q") auto
  then show ?thesis using assms(2) evolvesD(3) [OF assms(1)] by (auto simp: strand_moves_def grows_def)
qed

lemma destroy_posted: "posted (destroy p s) = posted s"
  by (simp add: destroy_def Let_def)

lemma procs_collect:
  assumes "procs s p = Some b"
  shows "procs (collect p s) q = (if q = p \<and> unreferenced b then None else procs s q)"
    "next_instance_id (collect p s) = next_instance_id s" "posted (collect p s) = posted s"
  using assms by (simp_all add: collect_def destroy_simps destroy_posted)

lemma moves_release:
  assumes "procs s p = Some b"
  shows "strand_moves q 0 s (collect p (upd p (\<lambda>a. a\<lparr>a_locks := n\<rparr>) s))"
proof (cases "procs s q")
  case None
  with assms have "procs (collect p (upd p (\<lambda>a. a\<lparr>a_locks := n\<rparr>) s)) q = None"
    by (cases "q = p") (simp_all add: procs_collect)
  with None assms show ?thesis by (simp add: strand_moves_def procs_collect)
next
  case (Some a)
  with assms show ?thesis
    by (cases "q = p") (auto simp: strand_moves_def queue_of_def stopped_def procs_collect procs_upd unreferenced_def)
qed

lemma run_task_step:
  assumes "idle s" "run_task p s = (Inr (), s')" "queue_of s p = (from, m) # ts"
  obtains a t b where "procs s p = Some a" "a_tasks a = (from, m) # ts"
    "run p from m (upd p (\<lambda>a. a\<lparr>a_tasks := ts, a_locks := a_locks a + 1\<rparr>) s) = (Inr (), t)"
    "sys_inv (upd p (\<lambda>a. a\<lparr>a_tasks := ts, a_locks := a_locks a + 1\<rparr>) s)" "current_instance s = None"
    "evolves (upd p (\<lambda>a. a\<lparr>a_tasks := ts, a_locks := a_locks a + 1\<rparr>) s) t" "procs t p = Some b"
    "s' = collect p (upd p (\<lambda>a. a\<lparr>a_locks := a_locks b - 1\<rparr>) t)"
    "grows (upd p (\<lambda>a. a\<lparr>a_tasks := ts, a_locks := a_locks a + 1\<rparr>) s) t"
proof -
  obtain a where a: "procs s p = Some a" "a_tasks a = (from, m) # ts"
    using assms(3) by (cases "procs s p") auto
  let ?s1 = "upd p (\<lambda>a. a\<lparr>a_tasks := ts, a_locks := a_locks a + 1\<rparr>) s"
  from assms(2) a obtain t where t: "run p from m ?s1 = (Inr (), t)"
    "s' = collect p (upd p (\<lambda>a. a\<lparr>a_locks := a_locks a - 1\<rparr>) t)"
    by (auto simp: run_task_def split: prod.splits)
  have i: "sys_inv s" "current_instance s = None" "settled a" using assms(1) a(1) by (auto simp: idle_def)
  have i1: "sys_inv ?s1" by (rule sys_inv_upd [OF i(1)]) simp
  moreover have "settled (a\<lparr>a_tasks := ts, a_locks := a_locks a + 1\<rparr>)"
    using i(3) by (simp add: settled_def gone_def)
  ultimately have "step_frame p ?s1 t"
    using run_step_frame [OF t(1)] i(2) a(1) by simp
  then have e: "evolves ?s1 t" by (rule step_frame_evolves) (simp add: a)
  obtain b where b: "procs t p = Some b" using evolvesD(1) [OF e, of p] a(1) by auto
  then have "upd p (\<lambda>a. a\<lparr>a_locks := a_locks a - 1\<rparr>) t = upd p (\<lambda>a. a\<lparr>a_locks := a_locks b - 1\<rparr>) t"
    by (simp add: upd_def)
  moreover have "grows ?s1 t" using keepsD [OF queues.run_keeps t(1)] sys_inv_ids [OF i1] by blast
  ultimately show ?thesis using that [OF a t(1) i1 i(2) e b] t(2) by simp
qed

lemma moves_task:
  assumes "idle s" "run_task p s = (Inr (), s')" "queue_of s p \<noteq> []"
  shows "strand_moves q (if p = q then 1 else 0) s s'"
proof -
  obtain "from" m ts where "queue_of s p = (from, m) # ts" using assms(3) by (cases "queue_of s p") auto
  then obtain a t b where t: "procs s p = Some a" "a_tasks a = (from, m) # ts"
    "evolves (upd p (\<lambda>a. a\<lparr>a_tasks := ts, a_locks := a_locks a + 1\<rparr>) s) t" "procs t p = Some b"
    "s' = collect p (upd p (\<lambda>a. a\<lparr>a_locks := a_locks b - 1\<rparr>) t)"
    "grows (upd p (\<lambda>a. a\<lparr>a_tasks := ts, a_locks := a_locks a + 1\<rparr>) s) t"
    by (rule run_task_step [OF assms(1,2)])
  let ?s1 = "upd p (\<lambda>a. a\<lparr>a_tasks := ts, a_locks := a_locks a + 1\<rparr>) s"
  have 1: "strand_moves q (if p = q then 1 else 0) s ?s1"
    using t(1,2) by (cases "p = q") (auto simp: strand_moves_def queue_of_def stopped_def procs_upd)
  have 2: "strand_moves q 0 t s'" unfolding t(5) using t(4) by (rule moves_release)
  from moves_trans [OF moves_trans [OF 1 moves_evolves [OF t(3,6)]] 2] show ?thesis by simp
qed

lemma idle_ids: "idle s \<Longrightarrow> ids_ok s"
  by (simp add: idle_def sys_inv_ids)

lemma sync_evolves:
  assumes "idle s" "procs s p = Some c" "a_locks c > 0" "dispatch_sync_raw p m s = (Inr r, s')"
  shows "evolves s s'"
proof (cases "a_in_shutdown c")
  case True
  then have "s' = s"
    using assms deadsend_state [of m null_handle s] by (auto simp: idle_def dispatch_sync_raw_def actor_of_def)
  then show ?thesis by (simp add: evolves_same)
next
  case False
  have i: "sys_inv s" "current_instance s = None" "settled c" using assms(1,2) by (auto simp: idle_def)
  have "run p null_handle m s = (Inr (), s')"
    using assms(2,4) False i(2)
    by (auto simp: dispatch_sync_raw_def actor_of_def bindS_def split: prod.splits sum.splits)
  from run_step_frame [OF this i(2,1) assms(2) i(3)] assms(2) show ?thesis by (blast intro: step_frame_evolves)
qed

lemma moves_order:
  assumes "idle s" "keeps (\<lambda>s s'. ids_ok s \<longrightarrow> ids_ok s' \<and> evolves s s') m"
    "keeps (\<lambda>s s'. ids_ok s \<longrightarrow> ids_ok s' \<and> grows s s') m" "m s = (r, s')"
  shows "strand_moves q 0 s s'"
  using keepsD [OF assms(2,4)] keepsD [OF assms(3,4)] idle_ids [OF assms(1)] by (blast intro: moves_evolves)

lemma moves_outside:
  assumes "idle s" "outside s s'"
  shows "strand_moves q 0 s s'"
  using assms(2)
proof cases
  case (spawn b eh name env r)
  then show ?thesis by (rule moves_order [OF assms(1) evolve.instance_spawn_keeps queues.instance_spawn_keeps])
next
  case (send h m r)
  then show ?thesis by (rule moves_order [OF assms(1) evolve.handle_send_raw_keeps queues.handle_send_raw_keeps])
next
  case (hold p c)
  then show ?thesis
    by (intro moves_evolves grows_same) (auto simp: evolves_def procs_upd queue_of_def split: option.splits)
next
  case (complete p c m r)
  from complete(3) show ?thesis
    by (rule moves_order [OF assms(1) evolve.instance_send_raw_keeps queues.instance_send_raw_keeps])
next
  case (sync p c m r)
  have "grows s s'" using keepsD [OF queues.dispatch_sync_raw_keeps sync(3)] idle_ids [OF assms(1)] by blast
  with sync_evolves [OF assms(1) sync] show ?thesis by (rule moves_evolves)
next
  case (release p c)
  have "upd p (\<lambda>a. a\<lparr>a_locks := a_locks a - 1\<rparr>) s = upd p (\<lambda>a. a\<lparr>a_locks := a_locks c - 1\<rparr>) s"
    using release(2) by (simp add: upd_def)
  then show ?thesis using moves_release [OF release(2)] release(1) by simp
next
  case (debug h n sub)
  then have "next_instance_id s' = next_instance_id s" "posted s' = posted s"
    by (auto simp: debug_enable_def debug_disable_def on_last_exit_def tap_add_def tap_remove_def
        unregister_instance_def Let_def)
  with debug_frame(1) [OF debug] show ?thesis
    by (auto intro!: moves_evolves evolves_same grows_same simp: queue_of_def)
qed

section \<open>Executions\<close>

definition step_by :: "pid option \<Rightarrow> ('t, 'u) sys \<Rightarrow> ('t, 'u) sys \<Rightarrow> bool" where
  "step_by l s s' = (case l of None \<Rightarrow> outside s s'
     | Some p \<Rightarrow> queue_of s p \<noteq> [] \<and> run_task p s = (Inr (), s'))"

lemma step_iff_step_by: "step s s' \<longleftrightarrow> (\<exists>l. step_by l s s')"
proof
  assume "step s s'"
  then show "\<exists>l. step_by l s s'"
  proof cases
    case (task p a) then show ?thesis by (intro exI [of _ "Some p"]) (simp add: step_by_def)
  next
    case outside then show ?thesis by (intro exI [of _ None]) (simp add: step_by_def)
  qed
next
  assume "\<exists>l. step_by l s s'"
  then obtain l where "step_by l s s'" by blast
  then show "step s s'"
    by (auto simp: step_by_def queue_of_def split: option.splits intro: step.intros)
qed

definition execution :: "(nat \<Rightarrow> ('t, 'u) sys) \<Rightarrow> (nat \<Rightarrow> pid option) \<Rightarrow> bool" where
  "execution f l \<longleftrightarrow> reachable (f 0) \<and> (\<forall>i. step_by (l i) (f i) (f (Suc i)))"

text \<open>The executor is fair to a strand: when there is something to run, it runs something.\<close>

definition fair :: "pid \<Rightarrow> (nat \<Rightarrow> ('t, 'u) sys) \<Rightarrow> (nat \<Rightarrow> pid option) \<Rightarrow> bool" where
  "fair q f l \<longleftrightarrow> (\<forall>i. queue_of (f i) q \<noteq> [] \<longrightarrow> (\<exists>j \<ge> i. l j = Some q))"

text \<open>The tasks the strand \<open>q\<close> runs from time \<open>i\<close> to before time \<open>j\<close>.\<close>

definition ran :: "(nat \<Rightarrow> ('t, 'u) sys) \<Rightarrow> (nat \<Rightarrow> pid option) \<Rightarrow> pid \<Rightarrow> nat \<Rightarrow> nat \<Rightarrow> (handle \<times> buffer) list" where
  "ran f l q i j = map (\<lambda>k. hd (queue_of (f k) q)) (filter (\<lambda>k. l k = Some q) [i..<j])"

lemma execution_reachable: "execution f l \<Longrightarrow> reachable (f i)"
proof (induction i)
  case (Suc i)
  then have "step (f i) (f (Suc i))" by (auto simp: execution_def step_iff_step_by)
  with Suc show ?case by (blast intro: reachable.step)
qed (simp add: execution_def)

lemma execution_idle: "execution f l \<Longrightarrow> idle (f i)"
  by (blast intro: execution_reachable reachable_idle)

lemma execution_moves:
  assumes "execution f l"
  shows "strand_moves q (if l i = Some q then 1 else 0) (f i) (f (Suc i))"
proof -
  have "step_by (l i) (f i) (f (Suc i))" using assms by (simp add: execution_def)
  with moves_task [OF execution_idle [OF assms], of _ i "f (Suc i)" q]
    moves_outside [OF execution_idle [OF assms], of i "f (Suc i)" q]
  show ?thesis by (fastforce simp: step_by_def split: option.splits)
qed

lemma turn_of:
  assumes "execution f l" "l i = Some q"
  shows "queue_of (f i) q \<noteq> []" "run_task q (f i) = (Inr (), f (Suc i))"
proof -
  have "step_by (l i) (f i) (f (Suc i))" using assms(1) by (simp add: execution_def)
  with assms(2) show "queue_of (f i) q \<noteq> []" "run_task q (f i) = (Inr (), f (Suc i))"
    by (simp_all add: step_by_def)
qed

lemma ran_Suc:
  "i \<le> j \<Longrightarrow> ran f l q i (Suc j) = ran f l q i j @ (if l j = Some q then [hd (queue_of (f j) q)] else [])"
  by (simp add: ran_def)

lemma ran_none: "(\<And>k. i \<le> k \<Longrightarrow> k < j \<Longrightarrow> l k \<noteq> Some q) \<Longrightarrow> ran f l q i j = []"
  by (simp add: ran_def filter_empty_conv)

lemma ran_skip:
  assumes "h \<le> i" "i \<le> j" "\<And>k. i \<le> k \<Longrightarrow> k < j \<Longrightarrow> l k \<noteq> Some q"
  shows "ran f l q h j = ran f l q h i"
proof -
  have "[h..<j] = [h..<i] @ [i..<j]" using assms(1,2) upt_add_eq_append [of h i "j - i"] by simp
  then show ?thesis using ran_none [of i j l q, OF assms(3)] by (simp add: ran_def)
qed

text \<open>What was posted to \<open>q\<close> from time \<open>i\<close> to time \<open>j\<close>.\<close>

definition posted_to :: "(nat \<Rightarrow> ('t, 'u) sys) \<Rightarrow> pid \<Rightarrow> nat \<Rightarrow> nat \<Rightarrow> (handle \<times> buffer) list" where
  "posted_to f q i j = posts_to q (drop (length (posted (f i))) (posted (f j)))"

lemma queue_history:
  assumes "execution f l" "i \<le> j"
  shows "(\<exists>ps. posted (f j) = posted (f i) @ ps)
    \<and> queue_of (f i) q @ posted_to f q i j = ran f l q i j @ queue_of (f j) q"
  using assms(2)
proof (induction rule: dec_induct)
  case base
  show ?case by (simp add: ran_def posted_to_def)
next
  case (step j)
  obtain ps where ps: "posted (f j) = posted (f i) @ ps"
    "queue_of (f i) q @ posts_to q ps = ran f l q i j @ queue_of (f j) q" using step.IH by (auto simp: posted_to_def)
  obtain us where us: "posted (f (Suc j)) = posted (f j) @ us"
    "queue_of (f (Suc j)) q = drop (if l j = Some q then 1 else 0) (queue_of (f j) q) @ posts_to q us"
    using execution_moves [OF assms(1), of q j] by (auto simp: strand_moves_def)
  have "l j = Some q \<Longrightarrow> queue_of (f j) q \<noteq> []" using turn_of(1) [OF assms(1)] .
  then have "ran f l q i (Suc j) @ queue_of (f (Suc j)) q = ran f l q i j @ queue_of (f j) q @ posts_to q us"
    using us(2) step.hyps(1) by (cases "queue_of (f j) q") (auto simp: ran_Suc)
  also have "\<dots> = queue_of (f i) q @ posts_to q (ps @ us)" using ps(2) by simp
  finally show ?case using ps(1) us(1) by (simp add: posted_to_def)
qed

lemma queue_split:
  assumes "execution f l" "i \<le> j"
  shows "\<exists>sent. queue_of (f i) q @ sent = ran f l q i j @ queue_of (f j) q"
  using queue_history [OF assms] by blast

lemma stopped_later:
  assumes "execution f l" "q < next_instance_id (f i)" "stopped (f i) q" "i \<le> j"
  shows "stopped (f j) q"
proof -
  have "stopped (f j) q \<and> q < next_instance_id (f j)"
    using assms(4)
  proof (induction rule: dec_induct)
    case (step j)
    then show ?case using execution_moves [OF assms(1), of q j] by (auto simp: strand_moves_def)
  qed (use assms(2,3) in simp)
  then show ?thesis ..
qed

text \<open>The first turn of \<open>q\<close> from \<open>i\<close> on.\<close>

lemma next_turn:
  assumes "fair q f l" "queue_of (f i) q \<noteq> []"
  obtains j where "j \<ge> i" "l j = Some q" "\<And>k. i \<le> k \<Longrightarrow> k < j \<Longrightarrow> l k \<noteq> Some q"
proof -
  obtain j where j: "j \<ge> i" "l j = Some q" using assms by (auto simp: fair_def)
  let ?P = "\<lambda>j. j \<ge> i \<and> l j = Some q"
  have "?P (LEAST j. ?P j)" using j by (intro LeastI [of ?P j]) simp
  moreover have "l k \<noteq> Some q" if "i \<le> k" "k < (LEAST j. ?P j)" for k
    using not_less_Least [OF that(2)] that(1) by simp
  ultimately show ?thesis using that by blast
qed

lemma turn_comes:
  assumes "execution f l" "fair q f l" "n < length (queue_of (f i) q)"
  shows "\<exists>j \<ge> i. l j = Some q \<and> length (ran f l q i j) = n"
  using assms(3)
proof (induction n)
  case 0
  then have "queue_of (f i) q \<noteq> []" by auto
  then obtain j where "j \<ge> i" "l j = Some q" "\<And>k. i \<le> k \<Longrightarrow> k < j \<Longrightarrow> l k \<noteq> Some q"
    using next_turn [OF assms(2)] by metis
  then show ?case using ran_none [of i j l q f] by auto
next
  case (Suc n)
  then obtain j where j: "j \<ge> i" "l j = Some q" "length (ran f l q i j) = n" by auto
  have n: "length (ran f l q i (Suc j)) = Suc n" using j by (simp add: ran_Suc)
  obtain sent where "queue_of (f i) q @ sent = ran f l q i (Suc j) @ queue_of (f (Suc j)) q"
    using queue_split [OF assms(1), of i "Suc j"] j(1) by auto
  from arg_cong [OF this, of length] have "queue_of (f (Suc j)) q \<noteq> []" using n Suc.prems by auto
  then obtain k where k: "k \<ge> Suc j" "l k = Some q" "\<And>m. Suc j \<le> m \<Longrightarrow> m < k \<Longrightarrow> l m \<noteq> Some q"
    using next_turn [OF assms(2)] by metis
  have "ran f l q i k = ran f l q i (Suc j)" by (rule ran_skip [OF _ k(1,3)]) (use j(1) in simp)
  with k(1,2) n j(1) show ?case by (intro exI [of _ k]) simp
qed

lemma message_runs:
  assumes "execution f l" "fair q f l" "n < length (queue_of (f i) q)"
  obtains j where "j \<ge> i" "l j = Some q" "length (ran f l q i j) = n"
    "hd (queue_of (f j) q) = queue_of (f i) q ! n"
proof -
  obtain j where j: "j \<ge> i" "l j = Some q" "length (ran f l q i j) = n" using turn_comes [OF assms] by blast
  obtain sent where s: "queue_of (f i) q @ sent = ran f l q i j @ queue_of (f j) q"
    using queue_split [OF assms(1) j(1)] by blast
  have "queue_of (f j) q \<noteq> []" using turn_of(1) [OF assms(1) j(2)] .
  then have "hd (queue_of (f j) q) = (queue_of (f i) q @ sent) ! n"
    unfolding s using j(3) by (simp add: nth_append hd_conv_nth)
  with assms(3) have "hd (queue_of (f j) q) = queue_of (f i) q ! n" by (simp add: nth_append)
  with j that show ?thesis by blast
qed

section \<open>Properties\<close>

text \<open>A turn of \<open>q\<close> with the task \<open>x\<close>: the task leaves the queue, \<open>run\<close> is called with it, and the hold on the actor ends.\<close>

definition runs_task :: "pid \<Rightarrow> handle \<times> buffer \<Rightarrow> ('t, 'u) sys \<Rightarrow> ('t, 'u) sys \<Rightarrow> bool" where
  "runs_task q x s s' \<longleftrightarrow> (\<exists>t.
     run q (fst x) (snd x) (upd q (\<lambda>a. a\<lparr>a_tasks := tl (queue_of s q), a_locks := a_locks a + 1\<rparr>) s) = (Inr (), t)
     \<and> s' = collect q (upd q (\<lambda>a. a\<lparr>a_locks := a_locks a - 1\<rparr>) t))"

lemma turn_runs:
  assumes "execution f l" "l k = Some q"
  shows "runs_task q (hd (queue_of (f k) q)) (f k) (f (Suc k))"
proof -
  note t = turn_of [OF assms]
  obtain a x ts where a: "procs (f k) q = Some a" "a_tasks a = x # ts"
    using t(1) by (cases "procs (f k) q"; cases "queue_of (f k) q") auto
  then show ?thesis using t(2) by (cases x) (auto simp: runs_task_def run_task_def split: prod.splits)
qed

text \<open>
  C7. In every execution, and for every strand: what was queued at one time, followed by every message
  that \<open>queue\<close> has accepted for it since, is what the strand has run since followed by what is still
  queued; and each of its turns calls \<open>run\<close> with the oldest task. So messages are run in the order in
  which they were accepted, none is lost and none is run twice.
\<close>

theorem queue_in_order:
  assumes "execution f l" "i \<le> j"
  shows "queue_of (f i) q @ posted_to f q i j = ran f l q i j @ queue_of (f j) q
    \<and> (\<forall>k. l k = Some q \<longrightarrow> runs_task q (hd (queue_of (f k) q)) (f k) (f (Suc k)))"
  using queue_history [OF assms, of q] turn_runs [OF assms(1), of _ q] by blast

text \<open>
  C8. When the executor is fair to a strand, every message in its queue is run, after exactly those that
  were queued before it.
\<close>

theorem queued_message_runs:
  assumes "execution f l" "fair q f l" "n < length (queue_of (f i) q)"
  shows "\<exists>j \<ge> i. l j = Some q \<and> ran f l q i j = take n (queue_of (f i) q)
    \<and> hd (queue_of (f j) q) = queue_of (f i) q ! n"
proof -
  obtain j where j: "j \<ge> i" "l j = Some q" "length (ran f l q i j) = n"
    "hd (queue_of (f j) q) = queue_of (f i) q ! n"
    using message_runs [OF assms] .
  obtain sent where "queue_of (f i) q @ sent = ran f l q i j @ queue_of (f j) q"
    using queue_split [OF assms(1) j(1)] by blast
  from arg_cong [OF this, of "take n"] j(3) assms(3) have "ran f l q i j = take n (queue_of (f i) q)" by simp
  with j show ?thesis by blast
qed

lemma exit_task_stops:
  assumes "idle s" "queue_of s p = (from, m) # ts" "run_task p s = (Inr (), s')"
    "is_exit_msg m = Inr True" "m \<noteq> exit_normal_msg" "procs s p = Some a" "\<not> a_trap_exit a" "\<not> a_in_shutdown a"
  shows "stopped s' p"
    and "h \<in> set (a_links a) \<Longrightarrow> lock s h = Some q \<Longrightarrow> q \<noteq> p \<Longrightarrow> \<not> a_in_shutdown (actor_of s q) \<Longrightarrow>
      (a_self_ref a, m) \<in> set (queue_of s' q)"
proof -
  let ?s1 = "upd p (\<lambda>a. a\<lparr>a_tasks := ts, a_locks := a_locks a + 1\<rparr>) s"
  obtain t b where t: "run p from m ?s1 = (Inr (), t)" "sys_inv ?s1" "current_instance s = None"
      "procs t p = Some b" "s' = collect p (upd p (\<lambda>a. a\<lparr>a_locks := a_locks b - 1\<rparr>) t)"
    by (rule run_task_step [OF assms(1,3,2)])
  have p1: "procs ?s1 p = Some (a\<lparr>a_tasks := ts, a_locks := a_locks a + 1\<rparr>)" using assms(6) by simp
  note ex = run_exit_msg [OF _ t(2) p1 _ _ assms(4,5) t(1)]
  then have b: "a_in_shutdown b" using assms(7,8) t(3,4) by simp
  then show "stopped s' p" using t(4) by (simp add: t(5) stopped_def procs_collect procs_upd)
  assume h: "h \<in> set (a_links a)" "lock s h = Some q" "q \<noteq> p" "\<not> a_in_shutdown (actor_of s q)"
  then have "received ?s1 t q (a_self_ref a, m)"
    using ex assms(7,8) t(3) by (simp add: lock_def actor_of_def split: option.splits if_splits)
  then have "(a_self_ref a, m) \<in> set (queue_of t q)" by (auto simp: received_def dest: in_set_dropD)
  then show "(a_self_ref a, m) \<in> set (queue_of s' q)"
    using t(4) h(3) by (simp add: t(5) queue_of_def procs_collect)
qed

lemma queued_exit_stops:
  assumes ex: "execution f l" and fair: "fair q f l" and m: "(from, m) \<in> set (queue_of (f i) q)"
    and exit: "is_exit_msg m = Inr True" "m \<noteq> exit_normal_msg"
    and trap: "\<And>j b. j \<ge> i \<Longrightarrow> procs (f j) q = Some b \<Longrightarrow> \<not> a_trap_exit b"
  shows "\<exists>j \<ge> i. \<forall>k \<ge> j. stopped (f k) q"
proof -
  obtain n where n: "n < length (queue_of (f i) q)" "queue_of (f i) q ! n = (from, m)"
    using m by (auto simp: in_set_conv_nth)
  obtain j where j: "j \<ge> i" "l j = Some q" "hd (queue_of (f j) q) = (from, m)"
    using message_runs [OF ex fair n(1)] n(2) by metis
  note st = turn_of [OF ex j(2)]
  then have q: "queue_of (f j) q = (from, m) # tl (queue_of (f j) q)" using j(3) by (cases "queue_of (f j) q") auto
  obtain b where b: "procs (f j) q = Some b" using st(1) by (cases "procs (f j) q") auto
  have id: "q < next_instance_id (f j)"
    using idle_ids [OF execution_idle [OF ex]] b by (auto simp: ids_ok_def)
  have "stopped (f (Suc j)) q"
  proof (cases "a_in_shutdown b")
    case True
    then show ?thesis using stopped_later [OF ex id, of "Suc j"] b by simp
  next
    case False
    from exit_task_stops(1) [OF execution_idle [OF ex] q st(2) exit b trap [OF j(1) b] False] show ?thesis .
  qed
  moreover have "q < next_instance_id (f (Suc j))"
    using execution_moves [OF ex, of q j] id by (simp add: strand_moves_def)
  ultimately have "stopped (f k) q" if "k \<ge> Suc j" for k using stopped_later [OF ex] that by blast
  with j(1) show ?thesis by (intro exI [of _ "Suc j"]) auto
qed

text \<open>
  C9. When an actor runs an exit message other than a normal exit and does not trap exits, every live
  actor it is linked to that does not trap exits either stops for good, if the executor is fair to it.
\<close>

theorem linked_actor_stops:
  assumes "execution f l" "fair q f l"
    and "l i = Some p" "hd (queue_of (f i) p) = (from, m)" "is_exit_msg m = Inr True" "m \<noteq> exit_normal_msg"
    and "procs (f i) p = Some a" "\<not> a_in_shutdown a" "\<not> a_trap_exit a"
    and "h \<in> set (a_links a)" "lock (f i) h = Some q" "q \<noteq> p"
    and "\<And>j b. j \<ge> i \<Longrightarrow> procs (f j) q = Some b \<Longrightarrow> \<not> a_trap_exit b"
  shows "\<exists>j \<ge> i. \<forall>k \<ge> j. stopped (f k) q"
proof (cases "a_in_shutdown (actor_of (f i) q)")
  case True
  obtain b where b: "procs (f i) q = Some b" using assms(11) by (auto simp: lock_Some)
  then have "q < next_instance_id (f i)"
    using idle_ids [OF execution_idle [OF assms(1)]] by (auto simp: ids_ok_def)
  with stopped_later [OF assms(1)] True b show ?thesis by (auto simp: actor_of_def)
next
  case False
  note st = turn_of [OF assms(1,3)]
  then have q: "queue_of (f i) p = (from, m) # tl (queue_of (f i) p)" using assms(4) by (cases "queue_of (f i) p") auto
  have "(a_self_ref a, m) \<in> set (queue_of (f (Suc i)) q)"
    using exit_task_stops(2) [OF execution_idle [OF assms(1)] q st(2) assms(5-7,9,8,10-12)] False by blast
  from queued_exit_stops [OF assms(1,2) this assms(5,6)] assms(13) show ?thesis by (meson Suc_leD)
qed

section \<open>A fair execution\<close>

text \<open>
  The system \<open>demo_running\<close> after \<open>a\<close> was sent an exit: \<open>a\<close> runs it, then \<open>b\<close> runs its three tasks (the
  link message, its behaviour, the exit of \<open>a\<close>), and then nothing happens any more.
\<close>

definition demo_exit :: "(unit, unit) sys" where
  "demo_exit = snd (handle_send_raw \<lparr>h_ref = Some 1, h_id = 1\<rparr> (exit_message ''boom'' []) demo_running)"

fun demo_turn :: "nat \<Rightarrow> pid option" where
  "demo_turn i = (if i = 0 then Some 1 else if i \<le> 3 then Some 2 else None)"

fun demo_at :: "nat \<Rightarrow> (unit, unit) sys" where
  "demo_at 0 = demo_exit"
| "demo_at (Suc i) = (case demo_turn i of None \<Rightarrow> demo_at i | Some p \<Rightarrow> snd (run_task p (demo_at i)))"

lemmas demo_at_eval = demo_exit_def demo_running_def demo_spawned_def demo_a_def demo_idle_def actor_eval demo_msgs
  queue_of_def numeral_2_eq_2 numeral_3_eq_3

lemma demo_at_turns:
  "queue_of (demo_at 0) 1 = [(null_handle, exit_message ''boom'' [])]" "fst (run_task 1 (demo_at 0)) = Inr ()"
  "length (queue_of (demo_at 1) 2) = 3" "fst (run_task 2 (demo_at 1)) = Inr ()"
  "length (queue_of (demo_at 2) 2) = 2" "fst (run_task 2 (demo_at 2)) = Inr ()"
  "length (queue_of (demo_at 3) 2) = 1" "fst (run_task 2 (demo_at 3)) = Inr ()"
  by (simp_all add: demo_at_eval)

lemma demo_at_traps:
  "map_option a_trap_exit (procs (demo_at 0) 2) = Some False" "map_option a_trap_exit (procs (demo_at 1) 2) = Some False"
  "map_option a_trap_exit (procs (demo_at 2) 2) = Some False" "map_option a_trap_exit (procs (demo_at 3) 2) = Some False"
  "procs (demo_at 4) 1 = None" "procs (demo_at 4) 2 = None"
  by (simp_all add: demo_at_eval numeral_eq_Suc)

lemma demo_at_end: "demo_at (4 + i) = demo_at 4"
  by (induction i) (simp_all add: numeral_eq_Suc)

lemma outside_stutter: "outside s s"
  by (rule outside.debug [of _ _ "last_exit s"]) (simp add: on_last_exit_def)

lemma step_by_task: "queue_of s p \<noteq> [] \<Longrightarrow> fst (run_task p s) = Inr () \<Longrightarrow> step_by (Some p) s (snd (run_task p s))"
  by (cases "run_task p s") (simp add: step_by_def)

lemma demo_turn_step:
  "demo_turn i = Some p \<Longrightarrow> queue_of (demo_at i) p \<noteq> [] \<Longrightarrow> fst (run_task p (demo_at i)) = Inr () \<Longrightarrow>
     step_by (demo_turn i) (demo_at i) (demo_at (Suc i))"
  by (simp add: step_by_task del: demo_turn.simps)

lemma demo_times: fixes i :: nat obtains "i = 0" | "i = 1" | "i = 2" | "i = 3" | k where "i = 4 + k"
  using le_Suc_ex [of 4 i] by fastforce

lemma demo_execution: "execution demo_at demo_turn"
proof -
  have "step_by (demo_turn i) (demo_at i) (demo_at (Suc i))" for i
  proof (cases i rule: demo_times)
    case 1 then show ?thesis using demo_turn_step [of 0 1] demo_at_turns(1,2) by simp
  next
    case 2 then show ?thesis using demo_turn_step [of 1 2] demo_at_turns(3,4) by force
  next
    case 3 then show ?thesis using demo_turn_step [of 2 2] demo_at_turns(5,6) by force
  next
    case 4 then show ?thesis using demo_turn_step [of 3 2] demo_at_turns(7,8) by force
  next
    case (5 k)
    then have "demo_at (Suc i) = demo_at i" "demo_turn i = None"
      using demo_at_end [of k] demo_at_end [of "Suc k"] by simp_all
    then show ?thesis by (simp add: step_by_def outside_stutter del: demo_at.simps demo_turn.simps)
  qed
  moreover have "reachable (demo_at 0)"
    by (simp add: demo_exit_def reachable.step [OF demo_running_reachable step.outside [OF outside.send [OF surjective_pairing]]])
  ultimately show ?thesis by (simp add: execution_def)
qed

lemma demo_fair: "fair 2 demo_at demo_turn"
  unfolding fair_def
proof (intro allI impI)
  fix i
  assume q: "queue_of (demo_at i) 2 \<noteq> []"
  then have "i \<le> 3" using demo_at_end demo_at_traps(6) by (cases i rule: demo_times) auto
  then show "\<exists>j\<ge>i. demo_turn j = Some 2" by (intro exI [of _ "max 1 i"]) (auto simp: max_def)
qed

lemma demo_no_traps: "procs (demo_at i) 2 = Some b \<Longrightarrow> \<not> a_trap_exit b"
  using demo_at_traps(1-4,6) demo_at_end by (cases i rule: demo_times) (auto simp del: demo_at.simps)

theorem queue_in_order_witness:
  "queue_of (demo_at 0) 2 @ posted_to demo_at 2 0 4 = ran demo_at demo_turn 2 0 4 @ queue_of (demo_at 4) 2
   \<and> posted_to demo_at 2 0 4 = [(\<lparr>h_ref = Some 1, h_id = 1\<rparr>, exit_message ''boom'' [])]
   \<and> runs_task 2 (hd (queue_of (demo_at 1) 2)) (demo_at 1) (demo_at (Suc 1))"
proof -
  have "demo_turn 1 = Some 2" by simp
  moreover have "posted_to demo_at 2 0 4 = [(\<lparr>h_ref = Some 1, h_id = 1\<rparr>, exit_message ''boom'' [])]"
    by (simp add: posted_to_def posts_to_def demo_at_eval record_post_def numeral_eq_Suc)
  ultimately show ?thesis using queue_in_order [OF demo_execution, of 0 4 2] by blast
qed

theorem queued_message_runs_witness:
  "\<exists>j \<ge> 1. demo_turn j = Some 2 \<and> ran demo_at demo_turn 2 1 j = take 2 (queue_of (demo_at 1) 2)
    \<and> hd (queue_of (demo_at j) 2) = queue_of (demo_at 1) 2 ! 2"
  by (rule queued_message_runs [OF demo_execution demo_fair]) (simp only: demo_at_turns(3))

theorem linked_actor_stops_witness: "\<exists>j \<ge> 0. \<forall>k \<ge> j. stopped (demo_at k) 2"
proof -
  have q: "hd (queue_of (demo_at 0) 1) = (null_handle, exit_message ''boom'' [])" using demo_at_turns(1) by simp
  have d: "map_option (\<lambda>a. (a_in_shutdown a, a_trap_exit a, a_links a)) (procs (demo_at 0) 1)
      = Some (False, False, [\<lparr>h_ref = Some 2, h_id = 2\<rparr>])" "lock (demo_at 0) \<lparr>h_ref = Some 2, h_id = 2\<rparr> = Some 2"
    by (simp_all add: demo_at_eval)
  obtain a where a: "procs (demo_at 0) 1 = Some a" "\<not> a_in_shutdown a" "\<not> a_trap_exit a" "a_links a = [\<lparr>h_ref = Some 2, h_id = 2\<rparr>]"
    using d(1) by auto
  show ?thesis
    by (rule linked_actor_stops [OF demo_execution demo_fair _ q boom_msg(3,4) a(1-3) _ d(2)])
      (use a(4) demo_no_traps in auto)
qed

end
