(* ===== verification/Actor_Messages.thy ===== *)
theory Actor_Messages
  imports Actor_Fair
begin

text \<open>
  Properties of messages and lifetimes: delivery, sending to the dead, spawning,
  linking, what a shut down actor still does, and the end of the last actor.
\<close>

section \<open>Delivery\<close>

lemma is_exit_null: "is_exit_msg null_value \<noteq> Inr True"
  by code_simp

lemma queue_to_live:
  assumes "procs s q = Some a" "\<not> a_in_shutdown a" "tap_count s = 0"
  obtains s' where "queue q from m s = (Inr ok, s')" "current_instance s' = current_instance s"
    "procs s' = (procs s)(q \<mapsto> a\<lparr>a_tasks := a_tasks a @ [(from, m)]\<rparr>)" "tap_count s' = 0"
    "instances s' = instances s"
  using assms
  by (auto simp: queue_def queue_with_eq actor_of_def queue_tapped_def queue_traced_def
      submit_msg_task_def upd_def split: if_splits)

lemma send_to_live:
  assumes "lock s h = Some q" "procs s q = Some a" "\<not> a_in_shutdown a" "tap_count s = 0"
  obtains s' where "handle_send_raw h m s = (Inr ok, s')" "current_instance s' = current_instance s"
    "procs s' = (procs s)(q \<mapsto> a\<lparr>a_tasks := a_tasks a @ [(sender s, m)]\<rparr>)"
  using queue_to_live [OF assms(2-4), of "sender s" m] assms(1)
  by (auto simp: handle_send_raw_def instance_send_raw_def sender_def)

text \<open>
  C27. A message sent to a running actor while nobody taps is accepted, and its one effect on the
  actors is a task at the end of the receiver's queue, with the sender's own handle.
\<close>

theorem send_delivers:
  assumes "lock s h = Some q" "procs s q = Some a" "\<not> a_in_shutdown a" "tap_count s = 0"
    "handle_send_raw h m s = (r, s')"
  shows "r = Inr ok \<and> current_instance s' = current_instance s
    \<and> procs s' = (procs s)(q \<mapsto> a\<lparr>a_tasks := a_tasks a @ [(sender s, m)]\<rparr>)"
  using send_to_live [OF assms(1-4), of m] assms(5) by auto

theorem send_delivers_witness:
  "a_tasks (actor_of (snd (handle_send_raw \<lparr>h_ref = Some 1, h_id = 1\<rparr> link_msg demo_spawned)) 1)
     = [(null_handle, null_value), (null_handle, link_msg)]"
proof -
  have l: "lock demo_spawned \<lparr>h_ref = Some 1, h_id = 1\<rparr> = Some 1" using demo_eval(1) by (simp add: lock_Some)
  obtain a where a: "procs demo_spawned 1 = Some a" using demo_eval(1) by auto
  have e: "\<not> a_in_shutdown (actor_of demo_spawned 1)" "tap_count demo_spawned = 0"
    "sender demo_spawned = null_handle" by code_simp+
  with send_delivers [OF l a _ _ surjective_pairing, of link_msg] a demo_eval(2) show ?thesis
    by (simp add: actor_of_def)
qed

lemma dead_send:
  assumes "dead_handle s h" "current_instance s = Some p" "procs s p = Some a" "\<not> a_in_shutdown a"
    "handle_send_raw h m s = (r, s')"
  shows "procs s' = procs s \<and>
    (case matches m [Pat_string ''exit'', p_more] of
       Inl e \<Rightarrow> r = Inl (Std_exn (exn_what e))
     | Inr (Some _) \<Rightarrow> r = Inr ok
     | Inr None \<Rightarrow> \<exists>to. r = Inr (Inl (exit_message ''DEADSEND'' [P_buf m, P_buf to, P_buf (ref_m_instance s p)])))"
proof -
  have "procs (snd (deadsend m from (queue_traced q from m s))) = procs s" for q "from" by simp
  then have "procs s' = procs s"
    using assms(1,5)
    by (auto simp: dead_handle_def handle_send_raw_def instance_send_raw_def queue_def queue_with_eq
        split: option.splits dest: arg_cong [where f = snd])
      (metis deadsend_state procs_queue_traced snd_conv)+
  moreover obtain "from" where "r = fst (deadsend m from s)"
    using handle_send_dead [OF assms(1), of m] assms(5) by auto
  ultimately show ?thesis
    using assms(2-4) by (auto simp: deadsend_def actor_of_def split: sum.splits option.splits)
qed

lemma dead_send_silent:
  assumes "dead_handle s h" "\<forall>p. current_instance s = Some p \<longrightarrow> a_in_shutdown (actor_of s p)"
    "handle_send_raw h m s = (r, s')"
  shows "procs s' = procs s \<and> r = Inr ok"
proof -
  have d: "deadsend m from t = (Inr ok, t)" if "current_instance t = current_instance s" "actor_of t = actor_of s" for "from" t
    using that assms(2) by (auto simp: deadsend_def split: option.splits)
  have t: "current_instance (queue_traced q from m s) = current_instance s" "actor_of (queue_traced q from m s) = actor_of s" for q "from"
    by (simp_all add: queue_traced_def)
  show ?thesis
    using assms(1,3) d [OF t] d [OF refl refl]
    by (auto simp: dead_handle_def handle_send_raw_def instance_send_raw_def queue_def queue_with_eq split: option.splits)
qed

text \<open>
  C28. Sending to an actor that has gone or is shutting down changes no actor. From a live actor that is
  not shutting down itself, exit messages are dropped silently, any other CBOR array is answered by a
  \<open>DEADSEND\<close> error, and anything that is not an array throws; from anywhere else every message is dropped
  silently.
\<close>

theorem send_to_dead:
  assumes "dead_handle s h" "\<forall>p. current_instance s = Some p \<longrightarrow> procs s p \<noteq> None" "handle_send_raw h m s = (r, s')"
  shows "procs s' = procs s \<and>
    (case current_instance s of
       None \<Rightarrow> r = Inr ok
     | Some p \<Rightarrow>
         if a_in_shutdown (actor_of s p) then r = Inr ok
         else case matches m [Pat_string ''exit'', p_more] of
             Inl e \<Rightarrow> r = Inl (Std_exn (exn_what e))
           | Inr (Some _) \<Rightarrow> r = Inr ok
           | Inr None \<Rightarrow> \<exists>to. r = Inr (Inl (exit_message ''DEADSEND'' [P_buf m, P_buf to, P_buf (ref_m_instance s p)])))"
proof (cases "\<exists>p. current_instance s = Some p \<and> \<not> a_in_shutdown (actor_of s p)")
  case True
  then obtain p a where p: "current_instance s = Some p" "procs s p = Some a" "\<not> a_in_shutdown a"
    using assms(2) by (auto simp: actor_of_def)
  from dead_send [OF assms(1) p assms(3)] p show ?thesis by (auto simp: actor_of_def)
next
  case False
  with dead_send_silent [OF assms(1) _ assms(3)] show ?thesis by (auto split: option.splits)
qed

theorem send_to_dead_witness:
  "(\<exists>to. fst (handle_send_raw \<lparr>h_ref = Some 9, h_id = 9\<rparr> link_msg (demo_running\<lparr>current_instance := Some 1\<rparr>))
     = Inr (Inl (exit_message ''DEADSEND'' [P_buf link_msg, P_buf to, P_buf (ref_m_id 1 ''a'')])))
   \<and> fst (handle_send_raw \<lparr>h_ref = Some 9, h_id = 9\<rparr> link_msg demo_running) = Inr ok"
proof -
  let ?s = "demo_running\<lparr>current_instance := Some 1\<rparr>"
  have c: "\<forall>p. current_instance ?s = Some p \<longrightarrow> procs ?s p \<noteq> None" "current_instance demo_running = None"
    using demo_eval(4) reachable_idle [OF demo_running_reachable] by (auto simp: idle_def)
  have e: "dead_handle ?s \<lparr>h_ref = Some 9, h_id = 9\<rparr>" "\<not> a_in_shutdown (actor_of ?s 1)"
    "ref_m_instance ?s 1 = ref_m_id 1 ''a''" "dead_handle demo_running \<lparr>h_ref = Some 9, h_id = 9\<rparr>" by code_simp+
  have m: "matches link_msg [Pat_string ''exit'', p_more] = Inr None" by code_simp
  from send_to_dead [OF e(1) c(1) surjective_pairing, of link_msg] send_to_dead [OF e(4) _ surjective_pairing, of link_msg]
    c(2) e(2,3) m show ?thesis by simp
qed

text \<open>
  C29. Spawning returns a handle that no earlier actor had. The new actor is found under its id, is not
  in shutdown, has no links, and its queue holds the link message of its parent, if it has one, and
  the empty message that starts its behaviour. No other actor changes.
\<close>

theorem spawn_fresh:
  assumes "sys_inv s" "tap_count s = 0" "\<forall>q. lnk = Some q \<longrightarrow> procs s q \<noteq> None"
    "instance_spawn b eh name lnk env s = (r, s')"
  shows "let p = next_instance_id s; h = \<lparr>h_ref = Some p, h_id = p\<rparr> in
    procs s p = None \<and> r = Inr (Inr h) \<and> instance_by_id s' p = h
    \<and> (\<exists>a. procs s' = (procs s)(p \<mapsto> a) \<and> \<not> a_in_shutdown a \<and> a_links a = [] \<and> a_name a = name
       \<and> a_tasks a = (case lnk of Some q \<Rightarrow> [(\<lparr>h_ref = Some q, h_id = q\<rparr>, link_msg)] | None \<Rightarrow> [])
           @ [(null_handle, null_value)])"
proof -
  define p where "p = next_instance_id s"
  have f: "procs s p = None" using assms(1) by (auto simp: sys_inv_def ids_ok_def p_def dom_def)
  obtain t where t: "instance_new b eh name env s = (p, t)" by (simp add: instance_new_def p_def Let_def)
  obtain a0 where a0: "procs t = (procs s)(p \<mapsto> a0)" "instances t p = Some p" "\<not> a_in_shutdown a0" "a_links a0 = []"
      "a_name a0 = name" "a_tasks a0 = []" "tap_count t = 0"
    using t assms(2) by (auto simp: instance_new_def p_def Let_def)
  let ?u = "do_trace p Ch_lifetime [P_str ''spawn''] t"
  let ?lh = "case lnk of Some q \<Rightarrow> [(\<lparr>h_ref = Some q, h_id = q\<rparr>, link_msg)] | None \<Rightarrow> []"
  have h: "make_handle ?u (Some p) = \<lparr>h_ref = Some p, h_id = p\<rparr>" by (simp add: make_handle_def lock_def a0)
  have pu: "procs ?u p = Some a0" "tap_count ?u = 0" by (simp_all add: a0)
  obtain w where w: "(if expired ?u \<lparr>h_ref = lnk, h_id = 0\<rparr> then returnS ok else queue p (make_handle ?u lnk) link_msg) ?u
      = (Inr ok, w)" "procs w = (procs s)(p \<mapsto> a0\<lparr>a_tasks := ?lh\<rparr>)" "tap_count w = 0" "instances w = instances t"
  proof (cases lnk)
    case None
    have "a0\<lparr>a_tasks := []\<rparr> = a0" using a0(6) by (cases a0) simp
    then have "procs ?u = (procs s)(p \<mapsto> a0\<lparr>a_tasks := ?lh\<rparr>)" unfolding None using a0(1) by (simp only: do_trace_simps option.case)
    with None a0 show ?thesis by (intro that [of ?u]) (simp_all add: expired_def lock_def)
  next
    case (Some q)
    with assms(3) a0(1) have "lock ?u \<lparr>h_ref = lnk, h_id = 0\<rparr> = Some q" by (simp add: lock_Some)
    then have l: "\<not> expired ?u \<lparr>h_ref = lnk, h_id = 0\<rparr>" "make_handle ?u lnk = \<lparr>h_ref = Some q, h_id = q\<rparr>"
      using Some by (simp_all add: expired_def make_handle_def)
    obtain v where v: "queue p (make_handle ?u lnk) link_msg ?u = (Inr ok, v)" "tap_count v = 0"
        "procs v = (procs ?u)(p \<mapsto> a0\<lparr>a_tasks := a_tasks a0 @ [(make_handle ?u lnk, link_msg)]\<rparr>)"
        "instances v = instances ?u"
      by (rule queue_to_live [OF pu(1) a0(3) pu(2)])
    show ?thesis using v l(1) by (intro that [of v]) (simp_all add: a0 Some l(2) [unfolded Some])
  qed
  obtain x where x: "schedule p w = (Inr ok, x)" "instances x = instances w"
      "procs x = (procs s)(p \<mapsto> a0\<lparr>a_tasks := ?lh @ [(null_handle, null_value)]\<rparr>)"
    unfolding schedule_def
    by (rule queue_to_live [of w p "a0\<lparr>a_tasks := ?lh\<rparr>" null_handle null_value]) (use w a0(3) in simp_all)
  have e: "r = Inr (Inr \<lparr>h_ref = Some p, h_id = p\<rparr>)" "s' = register_instance \<lparr>h_ref = Some p, h_id = p\<rparr> x"
    using assms(4) w(1) x(1) h
    by (simp_all add: instance_spawn_def t Let_def bindS_def ok_def)
  have "procs s' = procs x" "instances s' = instances x"
    by (auto simp: e register_instance_def Let_def split: option.splits)
  then have ps: "procs s' = (procs s)(p \<mapsto> a0\<lparr>a_tasks := ?lh @ [(null_handle, null_value)]\<rparr>)"
    and "instances s' p = Some p" using x w(4) a0(2) by simp_all
  then have "instance_by_id s' p = \<lparr>h_ref = Some p, h_id = p\<rparr>"
    by (simp add: instance_by_id_def make_handle_def lock_def)
  then show ?thesis
    unfolding Let_def p_def [symmetric] using f e(1) ps a0(3-5) 
    by (intro conjI exI [of _ "a0\<lparr>a_tasks := ?lh @ [(null_handle, null_value)]\<rparr>"]) simp_all
qed

theorem spawn_fresh_witness:
  "fst (instance_spawn demo_a None ''c'' (Some 1) env_init demo_running)
     = Inr (Inr \<lparr>h_ref = Some 3, h_id = 3\<rparr>)"
proof -
  have e: "tap_count demo_running = 0" "next_instance_id demo_running = 3" by code_simp+
  have "\<forall>q. Some 1 = Some q \<longrightarrow> procs demo_running q \<noteq> None" using demo_eval(4) by auto
  from spawn_fresh [OF idle_sys_inv [OF reachable_idle [OF demo_running_reachable]] e(1) this surjective_pairing,
      of demo_a None "''c''" env_init] e(2)
  show ?thesis by (simp add: Let_def)
qed

text \<open>
  C30. Linking to a running actor is mutual once the other side has run the link message: the caller
  has the handle in its links and the message is at the end of the other queue; running it adds the
  sender to the links and calls no receiver.
\<close>

theorem link_mutual:
  assumes "current_instance s = Some p" "procs s p = Some a" "lock s h = Some q" "q \<noteq> p"
    "procs s q = Some b" "\<not> a_in_shutdown b" "tap_count s = 0" "\<not> a_observe_links b"
    "api_link h s = (r, s')"
  shows "r = Inr () \<and> h \<in> set (a_links (actor_of s' p))
    \<and> last (a_tasks (actor_of s' q)) = (a_self_ref a, link_msg)
    \<and> run q (a_self_ref a) link_msg s' = (Inr (), run_link q (a_self_ref a) s')
    \<and> a_self_ref a \<in> set (a_links (actor_of (run_link q (a_self_ref a) s') q))"
proof -
  obtain t where t: "handle_send_raw h link_msg s = (Inr ok, t)" "current_instance t = Some p"
      "procs t = (procs s)(q \<mapsto> b\<lparr>a_tasks := a_tasks b @ [(a_self_ref a, link_msg)]\<rparr>)"
    using send_to_live [OF assms(3,5,6,7), of link_msg] assms(1,2)
    by (auto simp: sender_def actor_of_def)
  then have s': "r = Inr ()" "s' = add_link p h (do_trace_to p Ch_link ''link'' h [] t)"
    using assms(1,9)
    by (auto simp: api_link_def private_call_def instance_link_def bindS_def ok_def)
  have q: "procs s' q = Some (b\<lparr>a_tasks := a_tasks b @ [(a_self_ref a, link_msg)]\<rparr>)"
    using assms(4) t(3) by (simp add: s' add_link_def do_trace_to_def)
  have "h \<in> set (a_links (actor_of s' p))"
    using assms(2,4) t(3) by (simp add: s' add_link_def do_trace_to_def actor_of_def)
  moreover have "run q (a_self_ref a) link_msg s' = (Inr (), run_link q (a_self_ref a) s')"
    using q assms(8) by (simp add: run_def is_link_msg_def actor_of_def)
  moreover have "a_self_ref a \<in> set (a_links (actor_of (run_link q (a_self_ref a) s') q))"
    using q by (simp add: actor_of_def run_link_simps add_link_def)
  ultimately show ?thesis using s'(1) q by (simp add: actor_of_def)
qed

theorem link_mutual_witness:
  "\<lparr>h_ref = Some 2, h_id = 2\<rparr> \<in> set (a_links (actor_of
     (snd (api_link \<lparr>h_ref = Some 2, h_id = 2\<rparr> (demo_running\<lparr>current_instance := Some 1\<rparr>))) 1))"
proof -
  let ?s = "demo_running\<lparr>current_instance := Some 1\<rparr>"
  obtain a b where ab: "procs ?s 1 = Some a" "procs ?s 2 = Some b" using demo_eval(4,5) by auto
  have l: "lock ?s \<lparr>h_ref = Some 2, h_id = 2\<rparr> = Some 2" using demo_eval(5) by (simp add: lock_Some)
  have e: "\<not> a_in_shutdown (actor_of ?s 2)" "\<not> a_observe_links (actor_of ?s 2)" "tap_count ?s = 0"
    by code_simp+
  then have "\<not> a_in_shutdown b" "\<not> a_observe_links b" using ab(2) by (simp_all add: actor_of_def)
  from link_mutual [OF _ ab(1) l _ ab(2) this(1) e(3) this(2) surjective_pairing] show ?thesis by simp
qed

text \<open>
  Linking to an actor that has gone fails without a sign: the call returns normally and the
  caller has no new link, so it is never told of an exit.
\<close>

theorem link_to_dead_is_silent:
  assumes "dead_handle s h" "current_instance s = Some p" "procs s p = Some a" "\<not> a_in_shutdown a"
    "api_link h s = (r, s')"
  shows "r = Inr () \<and> procs s' = procs s"
proof -
  obtain r1 t where t: "handle_send_raw h link_msg s = (r1, t)" by fastforce
  have m: "matches link_msg [Pat_string ''exit'', p_more] = Inr None" by code_simp
  note d = dead_send [OF assms(1-4) t, unfolded m]
  then obtain e where e: "r1 = Inr (Inl e)" by auto
  with t assms(2,5) have "r = Inr ()" "s' = t"
    by (auto simp: api_link_def private_call_def instance_link_def bindS_def)
  with d show ?thesis by simp
qed

theorem link_to_dead_is_silent_witness:
  "fst (api_link null_handle (demo_running\<lparr>current_instance := Some 1\<rparr>)) = Inr ()"
proof -
  let ?s = "demo_running\<lparr>current_instance := Some 1\<rparr>"
  obtain a where a: "procs ?s 1 = Some a" using demo_eval(4) by auto
  have "dead_handle ?s null_handle" by (simp add: dead_handle_def lock_def null_handle_def)
  moreover have "\<not> a_in_shutdown a" using a demo_eval(7) by (simp add: actor_of_def)
  ultimately show ?thesis using link_to_dead_is_silent [OF _ _ a _ surjective_pairing] by simp
qed

section \<open>Lifetimes\<close>

text \<open>
  C31. In a reachable system an actor that has shut down is inert: it has no receiver and no exit
  handler, and everything sent to it from outside is dropped. Running a message that is still queued
  has no effect at all, except that a link message is still added to its links, which nothing reads
  any more; no actor but itself changes.
\<close>

theorem shutdown_inert:
  assumes "reachable s" "procs s p = Some a" "a_in_shutdown a"
  shows "receiver_empty (a_receiver a) \<and> a_exit_handlers a = []
    \<and> procs (snd (queue p from m s)) = procs s
    \<and> run p from m s = (Inr (), if m = link_msg then run_link p from s else s)
    \<and> procs (run_link p from s) = (procs s)(p \<mapsto> a\<lparr>a_links := from # a_links a\<rparr>)"
proof -
  have l: "procs (run_link p from s) = (procs s)(p \<mapsto> a\<lparr>a_links := from # a_links a\<rparr>)"
    using assms(2) by (auto simp: run_link_simps add_link_def procs_upd fun_eq_iff)
  then have "run_body p from link_msg (run_link p from s) = (Inr (), run_link p from s)"
    using assms(3) by (simp add: run_body_def actor_of_def)
  with l reachable_idle [OF assms(1)] assms(2,3) show ?thesis
    by (auto simp: idle_def settled_def gone_def run_def is_link_msg_def run_body_def actor_of_def queue_def queue_with_eq)
qed

theorem shutdown_inert_witness:
  "run 1 null_handle exit_normal_msg demo_down = (Inr (), demo_down)
   \<and> run 1 null_handle link_msg demo_down = (Inr (), run_link 1 null_handle demo_down)"
proof -
  obtain a where a: "procs demo_down 1 = Some a" "a_in_shutdown a"
    using demo_down(2,3) by (auto simp: actor_of_def)
  from shutdown_inert [OF demo_down(1) a, of null_handle exit_normal_msg]
    shutdown_inert [OF demo_down(1) a, of null_handle link_msg] link_msg_not_null(2)
  show ?thesis by auto
qed

text \<open>
  C32. The program is told of the last exit exactly when the last actor is destroyed.
\<close>

theorem last_exit_when_empty:
  assumes "sys_inv s" "procs s p = Some a" "last_exit s"
  shows "\<exists>evs. log (destroy p s) = log s @ evs
    \<and> (Ev_last_exit \<in> set evs \<longleftrightarrow> procs (destroy p s) = Map.empty)"
proof -
  have c: "active s = card (dom (procs s))" "finite (dom (procs s))" using assms(1) by (simp_all add: sys_inv_def)
  have "active s = 1 \<longleftrightarrow> dom (procs s) = {p}"
    using c(1) domI [of "procs s" p a, OF assms(2)] card_1_singletonE [of "dom (procs s)"]
    by (metis card_1_singleton_iff One_nat_def singletonD)
  also have "\<dots> \<longleftrightarrow> procs (destroy p s) = Map.empty"
    using assms(2) by (auto simp: destroy_simps fun_eq_iff dom_def)
  finally have e: "active s = 1 \<longleftrightarrow> procs (destroy p s) = Map.empty" .
  have "\<exists>evs. log (destroy p s) = log s @ evs \<and> (Ev_last_exit \<in> set evs \<longleftrightarrow> active s = 1)"
    using assms(3) by (simp add: destroy_def Let_def do_trace_raw_def split: option.splits)
  then show ?thesis unfolding e .
qed

theorem last_exit_when_empty_witness:
  "\<exists>evs. log (destroy 1 (on_last_exit True demo_running)) = log (on_last_exit True demo_running) @ evs
    \<and> (Ev_last_exit \<in> set evs \<longleftrightarrow> procs (destroy 1 (on_last_exit True demo_running)) = Map.empty)"
proof -
  obtain a where "procs demo_running 1 = Some a" using demo_eval(4) by auto
  moreover have "sys_inv (on_last_exit True demo_running)"
    using sys_inv_debug(3) [OF idle_sys_inv [OF reachable_idle [OF demo_running_reachable]]] .
  ultimately show ?thesis
    by (intro last_exit_when_empty [of _ 1 a]) (simp_all add: on_last_exit_def)
qed

lemma handle_exit_no_throw:
  assumes "current_instance s = Some p" "sys_inv s" "procs s p = Some a" "a_exit_handlers a = []"
  shows "fst (handle_exit p m s) = Inr ()"
proof -
  obtain s2 where s2: "handle_exit p m s = exit_rest p m s2" "sys_inv s \<Longrightarrow> sys_inv s2"
    "quiet (upd p (\<lambda>a. a\<lparr>a_in_shutdown := True\<rparr>) s) s2"
    by (rule handle_exit_stages [OF assms(1,3), of m]) (rule that)
  let ?t = "do_trace p Ch_lifetime [P_str ''exit'', P_buf m] s2"
  let ?u = "if is_tapping ?t then tap_exit (a_name (actor_of ?t p)) m ?t else ?t"
  have "quiet s2 ?u"
    using quiet.trans [OF quiet_same quiet_tap_exit, of ?t s2] quiet_same [of ?t s2] by auto
  from quiet.trans [OF s2(3) this] assms(3) obtain b where "procs ?u p = Some b" "task_ext (a\<lparr>a_in_shutdown := True\<rparr>) b"
    using quiet_procs [of "upd p (\<lambda>a. a\<lparr>a_in_shutdown := True\<rparr>) s" ?u p] by auto
  then have "a_exit_handlers (actor_of ?u p) = []" using assms(4) by (simp add: actor_of_def task_ext_fields)
  then show ?thesis by (simp add: s2(1) exit_rest_def bindS_def run_exit_handlers_def)
qed

lemma run_body_no_escape:
  assumes "current_instance s = None" "sys_inv s" "procs s p = Some a" "a_exit_handlers a = []"
  shows "fst (run_body p from m s) = Inr ()"
proof (cases "a_in_shutdown a")
  case True
  with assms(3) show ?thesis by (simp add: run_body_def actor_of_def)
next
  case False
  let ?s = "run_start p s"
  have c: "current_instance ?s = Some p" "sys_inv ?s" using run_start_inv [OF assms(2), of p] assms(3) by simp_all
  obtain r t where t: "try_body p from m ?s = (r, t)" by fastforce
  note ft = runsD [OF runs_try_body t c]
  have ct: "current_instance t = Some p" using frame_stateD [OF ft(1)] by simp
  obtain b where b: "procs t p = Some b" "life_ext a b" using exit_frame_self [OF ft(1), of a] assms(3) by auto
  then have "a_exit_handlers b = []" using assms(4) by (simp add: life_ext_def)
  from handle_exit_no_throw [OF ct ft(2) b(1) this] have "fst (run_catch p e t) = Inr ()" for e
    using ct by (auto simp: run_catch_def split: thrown.splits)
  then have "fst (catchS (try_body p from m) (run_catch p) ?s) = Inr ()"
    using t by (cases r) (simp_all add: catchS_def)
  moreover have "run_body p from m s
      = bindS (catchS (try_body p from m) (run_catch p)) (\<lambda>_. modifyS (run_end p)) ?s"
    using run_body_eq [OF assms(1), of p "from" m] False assms(3) by (simp add: actor_of_def run_start_def)
  ultimately show ?thesis by (auto simp: bindS_def split: prod.splits sum.splits)
qed

text \<open>
  C33. In a run that calls no trace handler, an actor without exit handlers lets no exception escape to
  the executor, whatever its receiver does and whatever it is sent. (The calls of trace handlers are
  the new entries of the log. The model has no handlers that throw, and outside the \<open>try\<close> block of \<open>run\<close>
  the code does not catch them.)
\<close>

theorem run_no_escape:
  assumes "idle s" "procs s p = Some a" "a_exit_handlers a = []" "run p from m s = (r, s')" "log s' = log s"
  shows "r = Inr ()"
proof -
  have c: "current_instance s = None" "sys_inv s" using assms(1) by (simp_all add: idle_def)
  let ?l = "run_link p from s"
  have "current_instance ?l = None" "sys_inv ?l" "procs ?l p = Some (a\<lparr>a_links := from # a_links a\<rparr>)"
    using c sys_inv_run_link assms(2) by (simp_all add: run_link_simps add_link_def)
  then have "fst (run_body p from m ?l) = Inr ()" using assms(3) by (simp add: run_body_no_escape)
  then have "fst (run p from m s) = Inr ()" using run_body_no_escape [OF c assms(2,3)] by (simp add: run_def)
  then show ?thesis using assms(4) by simp
qed

theorem run_no_escape_witness: "fst (run 1 null_handle [0xFF] demo_running) = Inr ()"
proof -
  obtain a where a: "procs demo_running 1 = Some a" using demo_eval(4) by auto
  have m: "isl (is_exit_msg [0xFF])" "[0xFF] \<noteq> link_msg" by code_simp+
  then obtain e where "is_exit_msg [0xFF] = Inl e" by (auto simp: isl_def)
  with m(2) have "a_exit_handlers (actor_of demo_running 1) = []" "log (snd (run 1 null_handle [0xFF] demo_running)) = log demo_running"
    by (simp_all add: demo_running_def demo_spawned_def demo_a_def demo_idle_def actor_eval demo_msgs)
  with a run_no_escape [OF reachable_idle [OF demo_running_reachable] a _ surjective_pairing] show ?thesis by (simp add: actor_of_def)
qed

text \<open>
  C34. An actor that traps exits gets exit messages as any other message: its receiver is called, and
  when it succeeds and a receiver remains, the actor goes on.
\<close>

theorem trapped_exit_received:
  assumes "idle s" "procs s p = Some a" "\<not> a_in_shutdown a" "a_trap_exit a" "a_receiver a = R_fun f"
    "is_exit_msg m = Inr True"
    "exec (f from m) (do_trace_to p Ch_receive ''receive'' from [P_buf m] (run_start p s)) = (Inr ok, t)"
    "\<not> receiver_empty (a_receiver (actor_of t p))"
  shows "run p from m s = (Inr (), run_end p t)"
proof -
  have c: "current_instance s = None" "sys_inv s" using assms(1) by (simp_all add: idle_def)
  have m: "m \<noteq> link_msg" "\<not> is_null m" using assms(6) is_exit_link_msg is_exit_null by (auto simp: is_null_def)
  let ?t0 = "do_trace_to p Ch_receive ''receive'' from [P_buf m] (run_start p s)"
  have "try_body p from m (run_start p s) = (Inr (), t)"
    using assms(2,4,5,7,8) m(2)
    by (simp add: try_body_def run_receive_def call_receiver_def bindS_def actor_of_def do_trace_to_def ok_def)
  then show ?thesis
    using run_eq [OF m(1) c(1) assms(2,3), of "from"] by (simp add: bindS_def catchS_def)
qed

theorem trapped_exit_received_witness:
  "fst (run 1 null_handle (exit_message ''boom'' []) demo_trapping) = Inr ()"
proof -
  let ?m = "exit_message ''boom'' []"
  let ?t = "do_trace_to 1 Ch_receive ''receive'' null_handle [P_buf ?m] (run_start 1 demo_trapping)"
  obtain a f where a: "procs demo_trapping 1 = Some a" "\<not> a_in_shutdown a" "a_receiver a = R_fun f"
      "exec (f null_handle ?m) = returnS ok"
    using demo_trapping(3) by (auto simp: at_receiver_def)
  have m: "is_exit_msg ?m = Inr True" by code_simp
  have x: "exec (f null_handle ?m) ?t = (Inr ok, ?t)" by (simp add: a(4))
  have "\<not> receiver_empty (a_receiver (actor_of ?t 1))" using a by (simp add: actor_of_def do_trace_to_def)
  from trapped_exit_received [OF reachable_idle [OF demo_trapping(1)] a(1,2) _ a(3) m x this]
    demo_trapping(2) a(1) show ?thesis by (simp add: actor_of_def)
qed

end
