(* ===== verification/Cbor_Value.thy ===== *)
theory Cbor_Value
  imports Cbor_Match
begin

text \<open>
  The abstract view of a message: CBOR values as trees, and their encoding by the code's own push
  operations. The lemmas show that every decoder recovers from an encoding what was encoded: the
  skipper skips exactly one value, the type test sees its class, the scalar matchers read its
  content. The main result is a refinement: matching a pattern against an encoded value computes
  what matching the pattern against the tree does (\<open>value_match\<close>, \<open>values_match\<close>).
\<close>

section \<open>Values and their encoding\<close>

text \<open>
  \<open>V_nint n\<close> is the integer \<open>-1 - n\<close>. The three floating point widths carry their bits. The
  encoder of the code never writes a half, a byte string or a negative integer below
  \<open>-2 ^ 63\<close>; peers may, and the decoder accepts them.
\<close>

datatype cval =
  V_uint u64 | V_nint u64 | V_bytes buffer | V_str string | V_arr "cval list"
| V_map "(cval \<times> cval) list" | V_bool bool | V_null | V_half u16 | V_float u32 | V_double u64

fun enc :: "cval \<Rightarrow> buffer" where
  "enc (V_uint n) = push_uint n []"
| "enc (V_nint n) = push_typed_val 1 n []"
| "enc (V_bytes s) = push_typed_val 2 (of_nat (length s)) [] @ s"
| "enc (V_str s) = push_string s []"
| "enc (V_arr vs) = array_header (of_nat (length vs)) [] @ concat (map enc vs)"
| "enc (V_map kvs) =
     map_header (of_nat (length kvs)) [] @ concat (map (\<lambda>(k, v). enc k @ enc v) kvs)"
| "enc (V_bool b) = push_bool b []"
| "enc V_null = push_null []"
| "enc (V_half h) = [cbor_magic_float16, ucast (drop_bit 8 h), ucast h]"
| "enc (V_float f) = push_float f []"
| "enc (V_double d) = push_double d []"

text \<open>Lengths fit the 64-bit counts of the format, for maps also when doubled.\<close>

fun wf_cval :: "cval \<Rightarrow> bool" where
  "wf_cval (V_bytes s) \<longleftrightarrow> length s < 2 ^ 64"
| "wf_cval (V_str s) \<longleftrightarrow> length s < 2 ^ 64"
| "wf_cval (V_arr vs) \<longleftrightarrow> length vs < 2 ^ 64 \<and> (\<forall>v \<in> set vs. wf_cval v)"
| "wf_cval (V_map kvs) \<longleftrightarrow>
     2 * length kvs < 2 ^ 64 \<and> (\<forall>(k, v) \<in> set kvs. wf_cval k \<and> wf_cval v)"
| "wf_cval _ \<longleftrightarrow> True"

fun type_of :: "cval \<Rightarrow> ctype" where
  "type_of (V_uint _) = Type_number"
| "type_of (V_nint _) = Type_number"
| "type_of (V_bytes _) = Type_bytes"
| "type_of (V_str _) = Type_string"
| "type_of (V_arr _) = Type_array"
| "type_of (V_map _) = Type_map"
| "type_of (V_bool _) = Type_boolean"
| "type_of V_null = Type_null"
| "type_of (V_half _) = Type_floating"
| "type_of (V_float _) = Type_floating"
| "type_of (V_double _) = Type_floating"

text \<open>The keys and values of a map in the order of the encoding.\<close>

definition flat :: "(cval \<times> cval) list \<Rightarrow> cval list" where
  "flat kvs = concat (map (\<lambda>(k, v). [k, v]) kvs)"

lemma flat_simps [simp]: "flat [] = []" "flat ((k, v) # kvs) = k # v # flat kvs"
  by (simp_all add: flat_def)

lemma length_flat [simp]: "length (flat kvs) = 2 * length kvs"
  by (induction kvs) auto

lemma concat_enc_flat: "concat (map (\<lambda>(k, v). enc k @ enc v) kvs) = concat (map enc (flat kvs))"
  by (induction kvs) auto

lemma wf_flat: "(\<forall>v \<in> set (flat kvs). wf_cval v) \<longleftrightarrow> (\<forall>(k, v) \<in> set kvs. wf_cval k \<and> wf_cval v)"
  by (induction kvs) auto

section \<open>Headers\<close>

text \<open>
  One lemma per major type: how decoding goes on after the initial byte of an item.
\<close>

definition head_byte :: "u32 \<Rightarrow> u64 \<Rightarrow> byte" where
  "head_byte ty n = push_bit 5 (ucast ty) OR arg_minor n"

lemma decode_head:
  assumes "ty < 8"
  shows "decode_type (push_typed_val ty n [] @ rest) =
    Inr ((ucast ty, arg_minor n, head_byte ty n), be_bytes (arg_len n) n @ rest)"
  using decode_type_typed_val [OF assms] by (simp add: head_byte_def)

lemma head_byte_special:
  assumes "ty < 7"
  shows "head_byte ty n \<noteq> 0xf4" "head_byte ty n \<noteq> 0xf5" "head_byte ty n \<noteq> 0xf6"
proof -
  have "unat ty < 7" using assms by (simp add: word_less_nat_alt)
  then have lt: "(ucast ty :: byte) < 7"
    by (simp add: word_less_nat_alt unsigned_ucast_eq take_bit_nat_def)
  then have lt8: "(ucast ty :: byte) < 8" by (simp add: word_less_nat_alt)
  have "drop_bit 5 (head_byte ty n) = ucast ty"
    unfolding head_byte_def by (rule drop_bit_type_byte [OF lt8 arg_minor_less])
  with lt show "head_byte ty n \<noteq> 0xf4" "head_byte ty n \<noteq> 0xf5" "head_byte ty n \<noteq> 0xf6"
    by auto
qed

lemma decode_nint_arg:
  "decode_nint (arg_minor n) (be_bytes (arg_len n) n @ rest) = Inr (- (n + 1), rest)"
  by (simp add: decode_nint_def decode_pint_arg)

lemma decode_string_arg:
  assumes "length s = k" "k < 2 ^ 64"
  shows "decode_string (arg_minor (of_nat k)) (be_bytes (arg_len (of_nat k)) (of_nat k) @ s @ rest)
    = Inr (string_of s, rest)"
  using assms by (simp add: decode_string_def decode_pint_arg advance_eq unat_of_nat)

lemma skip_string_arg:
  assumes "length s = k" "k < 2 ^ 64"
  shows "skip_string (arg_minor (of_nat k)) (be_bytes (arg_len (of_nat k)) (of_nat k) @ s @ rest)
    = Inr ((), rest)"
  using assms by (simp add: skip_string_def decode_pint_arg advance_eq unat_of_nat)

text \<open>The three float formats: an initial byte and the big-endian bits.\<close>

lemma bit_less_16_32: "bit (h :: u16) n \<Longrightarrow> n < 16" "bit (f :: u32) n \<Longrightarrow> n < 32"
  using bit_imp_le_length [of h n] bit_imp_le_length [of f n] by simp_all

lemma float_layouts:
  "enc (V_half h) = cbor_magic_float16 # be_bytes 2 (ucast h)"
  "enc (V_float f) = cbor_magic_float32 # be_bytes 4 (ucast f)"
  "enc (V_double d) = cbor_magic_float64 # be_bytes 8 d"
proof -
  have h: "(ucast (drop_bit k h) :: byte) = ucast (drop_bit k (ucast h :: u64))" for k
    by (auto intro!: bit_word_eqI simp: bit_simps dest!: bit_less_16_32)
  have f: "(ucast (drop_bit k f) :: byte) = ucast (drop_bit k (ucast f :: u64))" for k
    by (auto intro!: bit_word_eqI simp: bit_simps dest!: bit_less_16_32)
  show "enc (V_half h) = cbor_magic_float16 # be_bytes 2 (ucast h)"
    using h [of 8] h [of 0] by (simp add: be_bytes_unfold)
  show "enc (V_float f) = cbor_magic_float32 # be_bytes 4 (ucast f)"
    using f [of 24] f [of 16] f [of 8] f [of 0] by (simp add: push_float_def be_bytes_unfold)
  show "enc (V_double d) = cbor_magic_float64 # be_bytes 8 d"
    by (simp add: push_double_def be_bytes_unfold)
qed

lemma decode_type_magic:
  "decode_type (cbor_magic_null # rest) = Inr ((7, 22, 0xf6), rest)"
  "decode_type (cbor_magic_true # rest) = Inr ((7, 21, 0xf5), rest)"
  "decode_type (cbor_magic_false # rest) = Inr ((7, 20, 0xf4), rest)"
  "decode_type (cbor_magic_float16 # rest) = Inr ((7, 25, 0xf9), rest)"
  "decode_type (cbor_magic_float32 # rest) = Inr ((7, 26, 0xfa), rest)"
  "decode_type (cbor_magic_float64 # rest) = Inr ((7, 27, 0xfb), rest)"
  by (simp_all add: decode_type_def cbor_magic_defs)

lemma decode_int_length_bits:
  "decode_int_length 2 (be_bytes 2 (ucast (h :: u16)) @ rest) = Inr (ucast h, rest)"
  "decode_int_length 4 (be_bytes 4 (ucast (f :: u32)) @ rest) = Inr (ucast f, rest)"
  "decode_int_length 8 (be_bytes 8 d @ rest) = Inr (d, rest)"
proof -
  have "take_bit 16 (ucast h :: u64) = ucast h" "take_bit 32 (ucast f :: u64) = ucast f"
    "take_bit 64 d = d"
    by (auto intro!: bit_word_eqI simp: bit_simps dest: bit_less_16_32)
  then show "decode_int_length 2 (be_bytes 2 (ucast (h :: u16)) @ rest) = Inr (ucast h, rest)"
    "decode_int_length 4 (be_bytes 4 (ucast (f :: u32)) @ rest) = Inr (ucast f, rest)"
    "decode_int_length 8 (be_bytes 8 d @ rest) = Inr (d, rest)"
    by (simp_all add: decode_int_length_be)
qed

lemma decode_pint_bits:
  "decode_pint 25 (be_bytes 2 (ucast (h :: u16)) @ rest) = Inr (ucast h, rest)"
  "decode_pint 26 (be_bytes 4 (ucast (f :: u32)) @ rest) = Inr (ucast f, rest)"
  "decode_pint 27 (be_bytes 8 d @ rest) = Inr (d, rest)"
  by (simp_all add: decode_pint_def decode_int_length_bits)

lemmas head_simps = decode_head decode_pint_arg decode_nint_arg decode_string_arg skip_string_arg
  decode_type_magic decode_int_length_bits decode_pint_bits

lemmas push_defs = push_uint_def push_string_def push_bool_def push_null_def
  array_header_def map_header_def cbor_magic_type_array_def cbor_magic_type_map_def

section \<open>Skipping an encoded value\<close>

lemma of_nat_Suc_word:
  assumes "Suc n < 2 ^ 64"
  shows "(of_nat (Suc n) :: u64) \<noteq> 0" and "(of_nat (Suc n) :: u64) - 1 = of_nat n"
proof -
  have "unat (of_nat (Suc n) :: u64) = Suc n"
    using assms by (simp only: unat_of_nat) simp
  then show "(of_nat (Suc n) :: u64) \<noteq> 0" by (metis unat_0 Zero_not_Suc)
qed simp

lemma of_nat_word_inject:
  "m < 2 ^ 64 \<Longrightarrow> n < 2 ^ 64 \<Longrightarrow> (of_nat m :: u64) = of_nat n \<longleftrightarrow> m = n"
proof -
  have "unat (of_nat k :: u64) = k" if "k < 2 ^ 64" for k
    using that by (simp add: unat_of_nat)
  then show "m < 2 ^ 64 \<Longrightarrow> n < 2 ^ 64 \<Longrightarrow> (of_nat m :: u64) = of_nat n \<longleftrightarrow> m = n" by metis
qed

lemma skip_values_concat:
  assumes "\<And>v rest. v \<in> set vs \<Longrightarrow> skip_value (enc v @ rest) = Inr ((), rest)"
    and "length vs < 2 ^ 64"
  shows "skip_values (of_nat (length vs)) (concat (map enc vs) @ rest) = Inr ((), rest)"
  using assms
proof (induction vs)
  case Nil
  then show ?case by (simp add: skip_values.simps)
next
  case (Cons v vs)
  then have "Suc (length vs) < 2 ^ 64" by simp
  note n = of_nat_Suc_word [OF this]
  have "skip_values (of_nat (length vs)) (concat (map enc vs) @ rest) = Inr ((), rest)"
    using Cons by simp
  then show ?case
    using n Cons.prems(1) [of v] by (subst skip_values.simps) simp
qed

lemma skip_value_enc: "wf_cval v \<Longrightarrow> skip_value (enc v @ rest) = Inr ((), rest)"
proof (induction v arbitrary: rest)
  case (V_arr vs)
  then have "skip_values (of_nat (length vs)) (concat (map enc vs) @ rest) = Inr ((), rest)"
    by (intro skip_values_concat) auto
  then show ?case
    by (simp add: skip_simps push_defs head_simps)
next
  case (V_map kvs)
  have "skip_values (of_nat (length (flat kvs))) (concat (map enc (flat kvs)) @ rest)
      = Inr ((), rest)"
  proof (rule skip_values_concat)
    fix v rest
    assume "v \<in> set (flat kvs)"
    then obtain k w where "(k, w) \<in> set kvs" "v = k \<or> v = w" by (auto simp: flat_def)
    moreover from this(1) V_map.prems have "wf_cval k" "wf_cval w" by auto
    ultimately show "skip_value (enc v @ rest) = Inr ((), rest)"
      using V_map.IH [of "(k, w)" k] V_map.IH [of "(k, w)" w] by auto
  qed (use V_map.prems in simp)
  then show ?case
    by (simp add: skip_simps push_defs head_simps concat_enc_flat mult.commute)
qed (simp_all only: float_layouts append_Cons, simp_all add: skip_simps push_defs head_simps)

section \<open>Reading scalars from a value\<close>

text \<open>What the scalar matchers read from a value; \<open>None\<close> where they report a mismatch.\<close>

fun int_of_cval :: "cval \<Rightarrow> u64 option" where
  "int_of_cval (V_uint n) = (if n <s 0 then None else Some n)"
| "int_of_cval (V_nint n) = Some (- (n + 1))"
| "int_of_cval _ = None"

fun uint_of_cval :: "cval \<Rightarrow> u64 option" where
  "uint_of_cval (V_uint n) = Some n"
| "uint_of_cval _ = None"

fun bool_of_cval :: "cval \<Rightarrow> bool option" where
  "bool_of_cval (V_bool v) = Some v"
| "bool_of_cval _ = None"

fun string_of_cval :: "cval \<Rightarrow> string option" where
  "string_of_cval (V_str s) = Some s"
| "string_of_cval (V_bytes s) = Some (string_of s)"
| "string_of_cval _ = None"

fun double_of_cval :: "cval \<Rightarrow> u64 option" where
  "double_of_cval (V_uint n) = Some (double_of_uint n)"
| "double_of_cval (V_nint n) = Some (double_of_int (- (n + 1)))"
| "double_of_cval (V_half h) = Some (decode_half h)"
| "double_of_cval (V_float f) = Some (double_of_float f)"
| "double_of_cval (V_double d) = Some d"
| "double_of_cval _ = None"

text \<open>\<open>d\<close> reads \<open>r\<close> from the encoding of \<open>v\<close>, and consumes exactly that encoding on success.\<close>

definition reads :: "'a option decoder \<Rightarrow> cval \<Rightarrow> 'a option \<Rightarrow> bool" where
  "reads d v r \<longleftrightarrow>
     (\<forall>rest. \<exists>b'. d (enc v @ rest) = Inr (r, b') \<and> (r \<noteq> None \<longrightarrow> b' = rest))"

lemma match_uint_enc: "wf_cval v \<Longrightarrow> reads match_uint v (uint_of_cval v)"
  by (cases v) (simp_all only: reads_def float_layouts append_Cons,
      simp_all add: match_uint_def push_defs head_simps)

lemma match_int_enc: "wf_cval v \<Longrightarrow> reads match_int v (int_of_cval v)"
  by (cases v) (simp_all only: reads_def float_layouts append_Cons,
      simp_all add: match_int_def push_defs head_simps)

lemma match_bool_enc: "wf_cval v \<Longrightarrow> reads match_bool v (bool_of_cval v)"
  by (cases v) (simp_all only: reads_def float_layouts append_Cons,
      simp_all add: match_bool_def push_defs head_simps head_byte_special)

lemma match_string_enc: "wf_cval v \<Longrightarrow> reads match_string v (string_of_cval v)"
  by (cases v) (simp_all only: reads_def float_layouts append_Cons,
      simp_all add: match_string_def decode_bytes_def push_defs head_simps)

lemma ucast_back: "(ucast (ucast h :: u64) :: u16) = h" "(ucast (ucast f :: u64) :: u32) = f"
  by (auto intro!: bit_word_eqI simp: bit_simps)

lemma match_float_enc: "wf_cval v \<Longrightarrow> reads match_float v (double_of_cval v)"
  by (cases v) (simp_all only: reads_def float_layouts append_Cons,
      simp_all add: match_float_def decode_float_def is_float_type_def cbor_magic_defs
        decode_type_magic [unfolded cbor_magic_defs] push_defs head_simps ucast_back)

lemma match_type_enc:
  assumes "wf_cval v"
  shows "match_type (enc v @ rest) = Inr ((True, type_of v), rest)"
proof -
  have sk: "skip_value (enc v @ rest) = Inr ((), rest)" using assms by (rule skip_value_enc)
  then obtain major minor ty b where
    d: "decode_type (enc v @ rest) = Inr ((major, minor, ty), b)"
    and s: "skip_value_type major minor b = Inr ((), rest)"
    by (auto simp: skip_value.simps bindE_eq_Inr)
  have "match_type (enc v @ rest) = (if major = 0 \<or> major = 1 then Inr ((True, Type_number), rest)
       else if major = 2 then Inr ((True, Type_bytes), rest)
       else if major = 3 then Inr ((True, Type_string), rest)
       else if major = 4 then Inr ((True, Type_array), rest)
       else if major = 5 then Inr ((True, Type_map), rest)
       else if major = 7 then
         (if ty = 0xf6 then Inr ((True, Type_null), rest)
          else if ty = 0xf4 \<or> ty = 0xf5 then Inr ((True, Type_boolean), rest)
          else if is_float_type ty then Inr ((True, Type_floating), rest)
          else Inr ((True, Type_unknown), rest))
       else Inr ((False, Type_any), rest))"
    by (simp add: match_type_def d s)
  moreover from d have "major = (case v of V_uint _ \<Rightarrow> 0 | V_nint _ \<Rightarrow> 1 | V_bytes _ \<Rightarrow> 2 | V_str _ \<Rightarrow> 3
      | V_arr _ \<Rightarrow> 4 | V_map _ \<Rightarrow> 5 | _ \<Rightarrow> 7)"
    by (cases v) (simp_all only: float_layouts append_Cons, simp_all add: push_defs head_simps
        split: if_splits)
  moreover from d have "(\<forall>w. v = V_bool w \<longrightarrow> ty = 0xf4 \<or> ty = 0xf5) \<and> (v = V_null \<longrightarrow> ty = 0xf6)
      \<and> (\<forall>w. v = V_half w \<longrightarrow> ty = 0xf9) \<and> (\<forall>w. v = V_float w \<longrightarrow> ty = 0xfa)
      \<and> (\<forall>w. v = V_double w \<longrightarrow> ty = 0xfb)"
    by (cases v) (simp_all only: float_layouts append_Cons, simp_all add: push_defs head_simps
        split: if_splits)
  ultimately show ?thesis
    by (cases v) (auto simp: is_float_type_def cbor_magic_defs)
qed

section \<open>Matching a pattern against a value\<close>

definition in_int_range :: "nat \<Rightarrow> u64 \<Rightarrow> bool" where
  "in_int_range w i \<longleftrightarrow> - (2 ^ (w - 1)) \<le> sint i \<and> sint i \<le> 2 ^ (w - 1) - 1"

fun value_extract :: "extractor \<Rightarrow> cval \<Rightarrow> extracted option" where
  "value_extract E_type v = Some (X_type (type_of v))"
| "value_extract (E_int w) v = (case int_of_cval v of None \<Rightarrow> None
     | Some i \<Rightarrow> if in_int_range w i then Some (X_int i) else None)"
| "value_extract (E_uint w) v = (case uint_of_cval v of None \<Rightarrow> None
     | Some i \<Rightarrow> if uint i \<le> 2 ^ w - 1 then Some (X_uint i) else None)"
| "value_extract E_bool v = map_option X_bool (bool_of_cval v)"
| "value_extract E_double v = map_option X_double (double_of_cval v)"
| "value_extract E_float v = map_option (X_float \<circ> float_of_double) (double_of_cval v)"
| "value_extract E_string v = map_option X_string (string_of_cval v)"
| "value_extract E_range v =
     (if type_of v \<in> {Type_null, Type_array, Type_map} then Some (X_range (enc v)) else None)"

text \<open>
  A nested \<open>A(...)\<close> or \<open>M(...)\<close> does not fail on a value of another type: it throws. Null counts
  as an empty array and as an empty map.
\<close>

fun value_match :: "pat \<Rightarrow> cval \<Rightarrow> exn + (bool \<times> extracted list)"
  and values_match :: "pat list \<Rightarrow> cval list \<Rightarrow> exn + (bool \<times> extracted list)"
where
  "value_match (Pat_type t) v = Inr (t = Type_any \<or> t = type_of v, [])"
| "value_match (Pat_int i) v = Inr (int_of_cval v = Some i, [])"
| "value_match (Pat_uint i) v = Inr (uint_of_cval v = Some i, [])"
| "value_match (Pat_bool b) v = Inr (bool_of_cval v = Some b, [])"
| "value_match (Pat_string s) v = Inr (string_of_cval v = Some s, [])"
| "value_match (Pat_extract ex) v =
     (case value_extract ex v of None \<Rightarrow> Inr (False, []) | Some x \<Rightarrow> Inr (True, [x]))"
| "value_match (Pat_A ps) v =
     (case v of V_arr vs \<Rightarrow> values_match ps vs | V_null \<Rightarrow> values_match ps []
      | _ \<Rightarrow> Inl (Domain_error ''cbor unexpected type (expected array)''))"
| "value_match (Pat_M ps) v =
     (case v of V_map kvs \<Rightarrow> values_match ps (flat kvs) | V_null \<Rightarrow> values_match ps []
      | _ \<Rightarrow> Inl (Domain_error ''cbor unexpected type (expected map)''))"
| "values_match [] vs = Inr (vs = [], [])"
| "values_match (p # ps) vs =
     (if ps = [] \<and> p = p_more then Inr (True, [])
      else case vs of [] \<Rightarrow> Inr (False, [])
        | v # vs \<Rightarrow> bindE (value_match p v) (\<lambda>(ok, xs).
            if \<not> ok then Inr (False, xs)
            else if ps = [] then Inr (vs = [], xs)
            else bindE (values_match ps vs) (\<lambda>(ok, ys). Inr (ok, xs @ ys))))"

text \<open>The result \<open>r\<close> of a decoder is the abstract result \<open>a\<close>; a success leaves \<open>rest\<close>.\<close>

definition agrees ::
    "exn + ((bool \<times> 'x) \<times> buffer) \<Rightarrow> exn + (bool \<times> 'x) \<Rightarrow> buffer \<Rightarrow> bool" where
  "agrees r a rest \<longleftrightarrow> (case a of Inl e \<Rightarrow> r = Inl e
     | Inr (ok, xs) \<Rightarrow> \<exists>b'. r = Inr ((ok, xs), b') \<and> (ok \<longrightarrow> b' = rest))"

lemma agrees_simps [simp]:
  "agrees r (Inl e) rest \<longleftrightarrow> r = Inl e"
  "agrees (Inr ((ok, xs), b)) (Inr (ok', xs')) rest \<longleftrightarrow> ok = ok' \<and> xs = xs' \<and> (ok \<longrightarrow> b = rest)"
  by (auto simp: agrees_def)

lemma agrees_lit: "reads d v r \<Longrightarrow> agrees (match_lit x d (enc v @ rest)) (Inr (r = Some x, [])) rest"
proof -
  assume "reads d v r"
  then obtain b' where "d (enc v @ rest) = Inr (r, b')" "r \<noteq> None \<longrightarrow> b' = rest"
    unfolding reads_def by blast
  then show ?thesis by (auto simp: match_lit_def)
qed

lemma agrees_extracted_as:
  assumes "reads d v r"
  shows "agrees (extracted_as C d (enc v @ rest))
    (case r of None \<Rightarrow> Inr (False, []) | Some x \<Rightarrow> Inr (True, [C x])) rest"
proof -
  from assms obtain b' where "d (enc v @ rest) = Inr (r, b')" "r \<noteq> None \<longrightarrow> b' = rest"
    unfolding reads_def by blast
  then show ?thesis by (cases r) (auto simp: extracted_as_def)
qed

lemma reads_extract_int:
  assumes "wf_cval v"
  shows "reads (extract_int w) v (case int_of_cval v of None \<Rightarrow> None
     | Some i \<Rightarrow> if in_int_range w i then Some i else None)"
  unfolding reads_def
proof
  fix rest
  from match_int_enc [OF assms] obtain b' where
    "match_int (enc v @ rest) = Inr (int_of_cval v, b')" "int_of_cval v \<noteq> None \<longrightarrow> b' = rest"
    unfolding reads_def by blast
  then show "\<exists>b'. extract_int w (enc v @ rest) = Inr (case int_of_cval v of None \<Rightarrow> None
       | Some i \<Rightarrow> if in_int_range w i then Some i else None, b') \<and>
     ((case int_of_cval v of None \<Rightarrow> None
       | Some i \<Rightarrow> if in_int_range w i then Some i else None) \<noteq> None \<longrightarrow> b' = rest)"
    by (cases "int_of_cval v") (auto simp: extract_int_def in_int_range_def)
qed

lemma reads_extract_uint:
  assumes "wf_cval v"
  shows "reads (extract_uint w) v (case uint_of_cval v of None \<Rightarrow> None
     | Some i \<Rightarrow> if uint i \<le> 2 ^ w - 1 then Some i else None)"
  unfolding reads_def
proof
  fix rest
  from match_uint_enc [OF assms] obtain b' where
    "match_uint (enc v @ rest) = Inr (uint_of_cval v, b')" "uint_of_cval v \<noteq> None \<longrightarrow> b' = rest"
    unfolding reads_def by blast
  then show "\<exists>b'. extract_uint w (enc v @ rest) = Inr (case uint_of_cval v of None \<Rightarrow> None
       | Some i \<Rightarrow> if uint i \<le> 2 ^ w - 1 then Some i else None, b') \<and>
     ((case uint_of_cval v of None \<Rightarrow> None
       | Some i \<Rightarrow> if uint i \<le> 2 ^ w - 1 then Some i else None) \<noteq> None \<longrightarrow> b' = rest)"
    by (cases "uint_of_cval v") (auto simp: extract_uint_def)
qed

lemma reads_extract_range:
  assumes "wf_cval v"
  shows "reads extract_range v
    (if type_of v \<in> {Type_null, Type_array, Type_map} then Some (enc v) else None)"
  using match_type_enc [OF assms] by (auto simp: reads_def extract_range_def)

lemma extract_with_enc:
  assumes "wf_cval v"
  shows "agrees (extract_with ex (enc v @ rest))
    (case value_extract ex v of None \<Rightarrow> Inr (False, []) | Some x \<Rightarrow> Inr (True, [x])) rest"
proof (cases ex)
  case E_type
  then show ?thesis by (simp add: match_type_enc [OF assms])
next
  case (E_int w)
  then show ?thesis
    using agrees_extracted_as [OF reads_extract_int [OF assms], of X_int w rest]
    by (auto split: option.splits if_splits)
next
  case (E_uint w)
  then show ?thesis
    using agrees_extracted_as [OF reads_extract_uint [OF assms], of X_uint w rest]
    by (auto split: option.splits if_splits)
next
  case E_bool
  then show ?thesis
    using agrees_extracted_as [OF match_bool_enc [OF assms], of X_bool rest]
    by (simp split: option.splits)
next
  case E_double
  then show ?thesis
    using agrees_extracted_as [OF match_float_enc [OF assms], of X_double rest]
    by (simp split: option.splits)
next
  case E_float
  then show ?thesis
    using agrees_extracted_as [OF match_float_enc [OF assms], of "X_float \<circ> float_of_double" rest]
    by (simp split: option.splits)
next
  case E_string
  then show ?thesis
    using agrees_extracted_as [OF match_string_enc [OF assms], of X_string rest]
    by (simp split: option.splits)
next
  case E_range
  then show ?thesis
    using agrees_extracted_as [OF reads_extract_range [OF assms], of X_range rest]
    by (auto split: option.splits if_splits)
qed

lemma match_rest_enc:
  assumes "\<forall>v \<in> set vs. wf_cval v" and "length vs < 2 ^ 64"
  shows "match_rest (of_nat (length vs)) (concat (map enc vs) @ rest) = Inr (True, rest)"
  using assms
proof (induction vs)
  case Nil
  then show ?case by (simp add: match_rest.simps)
next
  case (Cons v vs)
  then have "Suc (length vs) < 2 ^ 64" by simp
  note n = of_nat_Suc_word [OF this]
  have "match_rest (of_nat (length vs)) (concat (map enc vs) @ rest) = Inr (True, rest)"
    using Cons by simp
  moreover have "match_type (enc v @ concat (map enc vs) @ rest)
      = Inr ((True, type_of v), concat (map enc vs) @ rest)"
    using Cons.prems by (simp add: match_type_enc)
  ultimately show ?case
    using n by (subst match_rest.simps) (simp add: match_value_type_def)
qed

lemma decode_array_header_enc:
  "length vs < 2 ^ 64 \<Longrightarrow> decode_array_header (enc (V_arr vs) @ rest)
     = Inr (of_nat (length vs), concat (map enc vs) @ rest)"
  by (simp add: decode_array_header_def push_defs head_simps head_byte_special)

lemma decode_map_header_enc:
  "length kvs < 2 ^ 64 \<Longrightarrow> decode_map_header (enc (V_map kvs) @ rest)
     = Inr (of_nat (length kvs), concat (map enc (flat kvs)) @ rest)"
  by (simp add: decode_map_header_def push_defs head_simps head_byte_special concat_enc_flat)

lemma decode_array_header_other:
  assumes "type_of v \<notin> {Type_array, Type_null}"
  shows "decode_array_header (enc v @ rest)
    = Inl (Domain_error ''cbor unexpected type (expected array)'')"
  using assms by (cases v) (simp_all only: float_layouts append_Cons,
      simp_all add: decode_array_header_def push_defs head_simps head_byte_special)

lemma decode_map_header_other:
  assumes "type_of v \<notin> {Type_map, Type_null}"
  shows "decode_map_header (enc v @ rest)
    = Inl (Domain_error ''cbor unexpected type (expected map)'')"
  using assms by (cases v) (simp_all only: float_layouts append_Cons,
      simp_all add: decode_map_header_def push_defs head_simps head_byte_special)

lemma decode_header_null:
  "decode_array_header (enc V_null @ rest) = Inr (0, rest)"
  "decode_map_header (enc V_null @ rest) = Inr (0, rest)"
  by (simp_all add: decode_array_header_def decode_map_header_def push_defs head_simps)

text \<open>
  The refinement, one lemma per recursive case: nested arrays, nested maps, and one more pattern
  of a list of patterns.
\<close>

lemma match_A_agrees:
  assumes "wf_cval v"
    and vs: "\<And>vs. v = V_arr vs \<Longrightarrow> agrees
      (match_next (of_nat (length vs)) ps (concat (map enc vs) @ rest)) (values_match ps vs) rest"
    and null: "v = V_null \<Longrightarrow> agrees (match_next 0 ps rest) (values_match ps []) rest"
  shows "agrees (match_value (Pat_A ps) (enc v @ rest)) (value_match (Pat_A ps) v) rest"
proof (cases "type_of v \<in> {Type_array, Type_null}")
  case True
  then consider vs where "v = V_arr vs" | "v = V_null" by (cases v) auto
  then show ?thesis
    using assms by cases (simp_all add: decode_array_header_enc decode_header_null del: enc.simps)
next
  case False
  then have "value_match (Pat_A ps) v
      = Inl (Domain_error ''cbor unexpected type (expected array)'')" by (cases v) simp_all
  with False show ?thesis by (simp add: decode_array_header_other)
qed

lemma match_M_agrees:
  assumes "wf_cval v"
    and kvs: "\<And>kvs. v = V_map kvs \<Longrightarrow> agrees (match_next (of_nat (length (flat kvs))) ps
        (concat (map enc (flat kvs)) @ rest)) (values_match ps (flat kvs)) rest"
    and null: "v = V_null \<Longrightarrow> agrees (match_next 0 ps rest) (values_match ps []) rest"
  shows "agrees (match_value (Pat_M ps) (enc v @ rest)) (value_match (Pat_M ps) v) rest"
proof (cases "type_of v \<in> {Type_map, Type_null}")
  case True
  then consider kvs where "v = V_map kvs" | "v = V_null" by (cases v) auto
  then show ?thesis
    using assms by cases
      (simp_all add: decode_map_header_enc decode_header_null mult.commute del: enc.simps)
next
  case False
  then have "value_match (Pat_M ps) v
      = Inl (Domain_error ''cbor unexpected type (expected map)'')" by (cases v) simp_all
  with False show ?thesis by (simp add: decode_map_header_other)
qed

lemma match_next_Cons_agrees:
  assumes not_more: "\<not> (ps = [] \<and> p = p_more)" and len: "Suc (length ws) < 2 ^ 64"
    and v: "agrees (match_value p (enc v @ b)) (value_match p v) b"
    and stop: "ps = [] \<Longrightarrow> ws = [] \<Longrightarrow> b = rest"
    and ps: "\<And>xs. value_match p v = Inr (True, xs) \<Longrightarrow> ps \<noteq> [] \<Longrightarrow>
      agrees (match_next (of_nat (length ws)) ps b) (values_match ps ws) rest"
  shows "agrees (match_next (of_nat (Suc (length ws))) (p # ps) (enc v @ b))
    (values_match (p # ps) (v # ws)) rest"
proof (cases "value_match p v")
  case (Inl e)
  with v not_more of_nat_Suc_word(1) [OF len] show ?thesis by (auto simp del: of_nat_Suc)
next
  case (Inr r)
  obtain ok xs where r: "r = (ok, xs)" by (cases r)
  with v Inr obtain b' where b': "match_value p (enc v @ b) = Inr ((ok, xs), b')"
    "ok \<longrightarrow> b' = b" by (auto simp: agrees_def)
  note n = of_nat_Suc_word [OF len]
  have last: "(of_nat (Suc (length ws)) :: u64) = 1 \<longleftrightarrow> ws = []"
    using of_nat_word_inject [OF len, of 1] by simp
  show ?thesis
  proof (cases "ok \<and> ps \<noteq> []")
    case False
    with b' Inr r not_more n(1) last stop show ?thesis by (auto simp del: of_nat_Suc)
  next
    case True
    with ps Inr r have "agrees (match_next (of_nat (length ws)) ps b) (values_match ps ws) rest"
      by simp
    with True b' Inr r not_more n show ?thesis
      by (auto simp: agrees_def split: sum.splits simp del: of_nat_Suc)
  qed
qed

text \<open>By induction along the pattern, the byte-level matcher computes what the one on trees does.\<close>

lemma match_refines:
  "wf_cval v \<Longrightarrow> agrees (match_value p (enc v @ rest)) (value_match p v) rest"
  "\<forall>v \<in> set vs. wf_cval v \<Longrightarrow> length vs < 2 ^ 64 \<Longrightarrow>
     agrees (match_next (of_nat (length vs)) ps (concat (map enc vs) @ rest))
       (values_match ps vs) rest"
proof (induction p v and ps vs arbitrary: rest and rest rule: value_match_values_match.induct)
  case (1 t v)
  then show ?case by (simp add: match_value_type_def match_type_enc)
next
  case (2 i v)
  then show ?case using agrees_lit [OF match_int_enc] by simp
next
  case (3 i v)
  then show ?case using agrees_lit [OF match_uint_enc] by simp
next
  case (4 b v)
  then show ?case using agrees_lit [OF match_bool_enc] by simp
next
  case (5 s v)
  then show ?case using agrees_lit [OF match_string_enc] by simp
next
  case (6 ex v)
  then show ?case using extract_with_enc by simp
next
  case (7 ps v)
  then show ?case using "7.IH"(2) [of rest] by (intro match_A_agrees) simp_all
next
  case (8 ps v)
  show ?case
    using "8.prems" "8.IH"(1) "8.IH"(2) [of rest] by (intro match_M_agrees) (auto simp: wf_flat)
next
  case (9 vs)
  then have "(of_nat (length vs) :: u64) = 0 \<longleftrightarrow> vs = []"
    using of_nat_word_inject [of "length vs" 0] by simp
  then show ?case by simp
next
  case (10 p ps vs)
  show ?case
  proof (cases "ps = [] \<and> p = p_more")
    case True
    with "10.prems" show ?thesis by (simp add: match_rest_enc)
  next
    case not_more: False
    show ?thesis
    proof (cases vs)
      case Nil
      with not_more show ?thesis by auto
    next
      case (Cons v ws)
      then have "agrees (match_next (of_nat (Suc (length ws))) (p # ps)
          (enc v @ concat (map enc ws) @ rest)) (values_match (p # ps) (v # ws)) rest"
        using "10.prems" "10.IH"(1) [OF not_more Cons] "10.IH"(2) [OF not_more Cons] not_more
        by (intro match_next_Cons_agrees) auto
      with Cons show ?thesis by simp
    qed
  qed
qed

text \<open>
  A message the encoder built: an array of values. Matching it is matching the list of values.
\<close>

lemma matches_enc:
  assumes "wf_cval (V_arr vs)"
  shows "matches (enc (V_arr vs)) ps =
    bindE (values_match ps vs) (\<lambda>(ok, xs). Inr (if ok then Some xs else None))"
proof -
  from assms have wf: "\<forall>v \<in> set vs. wf_cval v" and len: "length vs < 2 ^ 64" by simp_all
  have "agrees (match_array ps (enc (V_arr vs) @ [])) (values_match ps vs) []"
    using match_refines(2) [OF wf len, of ps "[]"]
    by (simp only: match_array_def decode_array_header_enc [OF len]) simp
  then show ?thesis
    by (cases "values_match ps vs") (auto simp: matches_def agrees_def split: sum.splits)
qed

section \<open>Properties\<close>

text \<open>
  C10. Skipping an encoded value consumes exactly its bytes, whatever follows: a message is
  delimited by its own headers.
\<close>

theorem skip_value_exact:
  assumes "wf_cval v"
  shows "skip_value (enc v @ rest) = Inr ((), rest)"
  using skip_value_enc [OF assms] by simp

theorem skip_value_exact_witness:
  "skip_value (enc (V_arr [V_uint 300, V_str ''abc'', V_map [(V_null, V_bool True)]]) @ [0x17])
     = Inr ((), [0x17])"
  by (rule skip_value_exact) simp

text \<open>
  C24. A message of which only a proper prefix has arrived is reported as
  \<open>cbor message too short\<close>, never as another error and never as a shorter message.
\<close>

theorem skip_value_partial:
  assumes "wf_cval v" "enc v = b @ c" "c \<noteq> []"
  shows "skip_value b = Inl (Domain_error ''cbor message too short'')"
proof -
  have "skip_value (b @ c) = Inr ((), [])" using skip_value_enc [OF assms(1), of "[]"] assms(2) by simp
  from skip.partial_too_short [OF this assms(3)] show ?thesis by (simp add: too_short_def)
qed

theorem skip_value_partial_witness:
  "skip_value [0x82, 0x01] = Inl (Domain_error ''cbor message too short'')"
  by (rule skip_value_partial [where v = "V_arr [V_uint 1, V_uint 2]" and c = "[0x02]"])
    (simp_all add: array_header_def push_uint_def push_typed_val_def cbor_magic_defs Let_def)

text \<open>
  C11. Matching a pattern against a message the encoder built is matching the pattern against the
  list of values: same verdict, same extracted values, same exception.
\<close>

theorem matches_refines_values_match:
  assumes "wf_cval (V_arr vs)"
  shows "matches (enc (V_arr vs)) ps =
    bindE (values_match ps vs) (\<lambda>(ok, xs). Inr (if ok then Some xs else None))"
  by (rule matches_enc [OF assms])

theorem matches_refines_values_match_witness:
  "matches (enc (V_arr [V_str ''exit'', V_uint 7]))
     [Pat_string ''exit'', Pat_extract (E_int 32)] = Inr (Some [X_int 7])"
  by (subst matches_refines_values_match) (simp_all add: in_int_range_def word_sless_alt)

end
