(* ===== verification/Json_Parse.thy ===== *)
theory Json_Parse
  imports Cbor_Encode Soft_Float
begin

text \<open>
  The JSON reader \<open>buffer::push_json\<close> (\<^verbatim>\<open>src/src/cbor.cpp\<close>), which appends the CBOR encoding of
  a JSON text to a buffer. A parser takes the buffer and the characters that remain; it returns
  whether it succeeded, the buffer and the characters that remain, also on failure, because the
  exception \<open>push_json\<close> throws reports the position reached. The functions keep the code's names;
  the loops of the array and map parsers and of the escaped string parser are functions of their
  own. Termination of the recursion through arrays and maps rests on every accepted value taking
  at least one character.
\<close>

type_synonym json_iter = string

section \<open>Characters and literals\<close>

definition is_wsp :: "char \<Rightarrow> bool" where
  "is_wsp c \<longleftrightarrow> c = CHR '' '' \<or> c = CHR 0x09 \<or> c = CHR 0x0D \<or> c = CHR 0x0A"

fun match_wsp_char :: "json_iter \<Rightarrow> bool \<times> json_iter" where
  "match_wsp_char [] = (False, [])"
| "match_wsp_char (c # b) = (if is_wsp c then (True, b) else (False, c # b))"

fun skip_wsp :: "json_iter \<Rightarrow> json_iter" where
  "skip_wsp [] = []"
| "skip_wsp (c # b) = (if fst (match_wsp_char (c # b)) then skip_wsp b else c # b)"

fun match_char :: "char \<Rightarrow> json_iter \<Rightarrow> bool \<times> json_iter" where
  "match_char c [] = (False, [])"
| "match_char c (x # b) = (if x \<noteq> c then (False, x # b) else (True, b))"

text \<open>The loop of \<open>match_literal\<close>: what is left of the literal and of the input.\<close>

fun match_literal_loop :: "string \<Rightarrow> json_iter \<Rightarrow> string \<times> json_iter" where
  "match_literal_loop [] i = ([], i)"
| "match_literal_loop (c # str) i =
     (case match_char c i of (True, i') \<Rightarrow> match_literal_loop str i' | (False, i') \<Rightarrow> (c # str, i'))"

definition match_literal :: "string \<Rightarrow> json_iter \<Rightarrow> bool \<times> json_iter" where
  "match_literal str b =
     (case match_literal_loop str b of (str', i) \<Rightarrow> if str' = [] then (True, i) else (False, b))"

section \<open>Numbers\<close>

definition number_str_max :: nat where
  "number_str_max = 64"

fun match_digits_loop :: "json_iter \<Rightarrow> string \<Rightarrow> json_iter \<times> string" where
  "match_digits_loop [] s = ([], s)"
| "match_digits_loop (c # b) s =
     (if is_digit c then match_digits_loop b (s @ [c]) else (c # b, s))"

definition match_digits :: "json_iter \<Rightarrow> string \<Rightarrow> bool \<times> json_iter \<times> string" where
  "match_digits b s =
     (case match_digits_loop b s of (b', s') \<Rightarrow> (length s' > length s, b', s'))"

text \<open>
  Three phases append to the number string \<open>s\<close>: sign and integer part, fraction, exponent. Each
  returns whether it matched, whether the number is a float so far, and the rest.
\<close>

definition number_int :: "json_iter \<Rightarrow> bool \<times> json_iter \<times> string" where
  "number_int b =
     (case match_char (CHR ''-'') b of (neg, b) \<Rightarrow> match_digits b (if neg then ''-'' else []))"

definition number_frac :: "json_iter \<Rightarrow> string \<Rightarrow> bool \<times> bool \<times> json_iter \<times> string" where
  "number_frac b s =
     (if b \<noteq> [] \<and> hd b = CHR ''.'' then
        case match_digits (tl b) (s @ ''.'') of (ok, b, s) \<Rightarrow> (ok, True, b, s)
      else (True, False, b, s))"

definition number_exp :: "bool \<Rightarrow> json_iter \<Rightarrow> string \<Rightarrow> bool \<times> bool \<times> json_iter \<times> string" where
  "number_exp is_float b s =
     (if b \<noteq> [] \<and> (hd b = CHR ''e'' \<or> hd b = CHR ''E'') then
        let s = s @ ''e''; b = tl b;
            sgn = (b \<noteq> [] \<and> (hd b = CHR ''+'' \<or> hd b = CHR ''-''));
            s = (if sgn then s @ [hd b] else s);
            b = (if sgn then tl b else b)
        in case match_digits b s of (ok, b, s) \<Rightarrow> (ok, True, b, s)
      else (True, is_float, b, s))"

definition push_json_number :: "buffer \<Rightarrow> json_iter \<Rightarrow> bool \<times> buffer \<times> json_iter" where
  "push_json_number buf b =
     (case number_int b of (ok, b, s) \<Rightarrow>
      if \<not> ok then (False, buf, b) else
      case number_frac b s of (ok, fl, b, s) \<Rightarrow>
      if \<not> ok then (False, buf, b) else
      case number_exp fl b s of (ok, fl, b, s) \<Rightarrow>
      if \<not> ok then (False, buf, b) else
      if length s > number_str_max then (False, buf, b) else
      if fl then
        (case from_chars_double s of None \<Rightarrow> (False, buf, b) | Some d \<Rightarrow> (True, push_double d buf, b))
      else
        (case from_chars_int s of None \<Rightarrow> (False, buf, b) | Some i \<Rightarrow> (True, push_int i buf, b)))"

section \<open>Strings\<close>

definition unescape :: "char \<Rightarrow> char" where
  "unescape c =
     (if c = CHR ''b'' then CHR 0x08 else if c = CHR ''f'' then CHR 0x0C
      else if c = CHR ''n'' then CHR 0x0A else if c = CHR ''r'' then CHR 0x0D
      else if c = CHR ''t'' then CHR 0x09 else c)"

fun qstring_slow_loop :: "string \<Rightarrow> json_iter \<Rightarrow> bool \<times> string \<times> json_iter" where
  "qstring_slow_loop s [] = (False, s, [])"
| "qstring_slow_loop s (c # b) =
     (if c = CHR 0x5C then
        (case b of [] \<Rightarrow> (False, s, []) | c2 # b' \<Rightarrow> qstring_slow_loop (s @ [unescape c2]) b')
      else if c = CHR 0x22 then (True, s, b)
      else qstring_slow_loop (s @ [c]) b)"

definition push_json_qstring_slow :: "buffer \<Rightarrow> json_iter \<Rightarrow> bool \<times> buffer \<times> json_iter" where
  "push_json_qstring_slow buf b =
     (case match_char (CHR 0x22) b of (ok, b) \<Rightarrow>
      if \<not> ok then (False, buf, b) else
      case qstring_slow_loop [] b of (ok, s, b) \<Rightarrow>
      if ok then (True, push_string s buf, b) else (False, buf, b))"

text \<open>
  The scan for the closing quote: \<open>None\<close> at the end of input; otherwise whether a backslash was
  met first, the characters before, and the position of the quote.
\<close>

fun scan_loop :: "json_iter \<Rightarrow> (bool \<times> string \<times> json_iter) option" where
  "scan_loop [] = None"
| "scan_loop (c # i) =
     (if c = CHR 0x5C then Some (True, [], c # i)
      else if c = CHR 0x22 then Some (False, [], c # i)
      else case scan_loop i of None \<Rightarrow> None | Some (esc, s, se) \<Rightarrow> Some (esc, c # s, se))"

definition scan_json_qstring :: "json_iter \<Rightarrow> (bool \<times> string \<times> json_iter) option" where
  "scan_json_qstring b =
     (case match_char (CHR 0x22) b of (ok, b) \<Rightarrow> if \<not> ok then None else scan_loop b)"

definition push_json_qstring :: "buffer \<Rightarrow> json_iter \<Rightarrow> bool \<times> buffer \<times> json_iter" where
  "push_json_qstring buf b =
     (case scan_json_qstring b of None \<Rightarrow> (False, buf, b)
      | Some (is_escaped, s, se) \<Rightarrow>
          if is_escaped then push_json_qstring_slow buf b
          else (True, push_string s buf, tl se))"

definition push_json_keyword :: "buffer \<Rightarrow> json_iter \<Rightarrow> bool \<times> buffer \<times> json_iter" where
  "push_json_keyword buf b =
     (case match_literal ''false'' b of (ok, b) \<Rightarrow> if ok then (True, push_bool False buf, b) else
      case match_literal ''true'' b of (ok, b) \<Rightarrow> if ok then (True, push_bool True buf, b) else
      case match_literal ''null'' b of (ok, b) \<Rightarrow> if ok then (True, push_null buf, b) else
      (False, buf, b))"

section \<open>Progress\<close>

text \<open>
  What every parser does to the characters that remain: they never grow, and a parser that
  accepts has taken at least one.
\<close>

definition shrinks :: "bool \<Rightarrow> json_iter \<Rightarrow> json_iter \<Rightarrow> bool" where
  "shrinks ok b b' \<longleftrightarrow> length b' \<le> length b \<and> (ok \<longrightarrow> length b' < length b)"

lemma shrinks_skip_wsp: "length (skip_wsp b) \<le> length b"
  by (induction b) simp_all

lemma shrinks_match_char: "match_char c b = (ok, b') \<Longrightarrow> shrinks ok b b'"
  by (cases b) (auto simp: shrinks_def split: if_splits)

lemma shrinks_match_literal_loop:
  "match_literal_loop str i = (str', i') \<Longrightarrow>
     length i' + length str = length i + length str'"
proof (induction str i rule: match_literal_loop.induct)
  case (2 c str i)
  then show ?case by (cases i) (auto split: if_splits)
qed simp

lemma shrinks_match_literal: "match_literal str b = (ok, b') \<Longrightarrow> str \<noteq> [] \<Longrightarrow> shrinks ok b b'"
  by (auto simp: match_literal_def shrinks_def split: prod.splits if_splits
      dest!: shrinks_match_literal_loop) (cases str, simp_all)

lemma match_digits_loop_length:
  "match_digits_loop b s = (b', s') \<Longrightarrow> length b' + length s' = length b + length s"
  by (induction b s rule: match_digits_loop.induct) (auto split: if_splits)

lemma match_digits_loop_mono: "match_digits_loop b s = (b', s') \<Longrightarrow> length s \<le> length s'"
  by (induction b s rule: match_digits_loop.induct) (auto split: if_splits)

lemma shrinks_match_digits: "match_digits b s = (ok, b', s') \<Longrightarrow> shrinks ok b b'"
  using match_digits_loop_length [of b s b' s'] match_digits_loop_mono [of b s b' s']
  by (auto simp: match_digits_def shrinks_def split: prod.splits)

lemma shrinks_number_frac: "number_frac b s = (ok, fl, b', s') \<Longrightarrow> length b' \<le> length b"
  by (cases b) (auto simp: number_frac_def shrinks_def split: prod.splits if_splits
      dest!: shrinks_match_digits)

lemma shrinks_number_exp: "number_exp f b s = (ok, fl, b', s') \<Longrightarrow> length b' \<le> length b"
  by (auto simp: number_exp_def shrinks_def Let_def split: prod.splits if_splits
      dest!: shrinks_match_digits)

lemma shrinks_push_json_number: "push_json_number buf b = (ok, buf', b') \<Longrightarrow> shrinks ok b b'"
  by (auto simp: push_json_number_def number_int_def shrinks_def
      split: prod.splits if_splits option.splits
      dest!: shrinks_match_char shrinks_match_digits shrinks_number_frac shrinks_number_exp)

lemma qstring_slow_loop_length: "qstring_slow_loop s b = (ok, s', b') \<Longrightarrow> length b' \<le> length b"
  by (induction s b rule: qstring_slow_loop.induct) (auto split: if_splits list.splits)

lemma scan_loop_length: "scan_loop b = Some (esc, s, se) \<Longrightarrow> se \<noteq> [] \<and> length se \<le> length b"
  by (induction b arbitrary: s) (auto split: if_splits option.splits)

lemma shrinks_push_json_qstring: "push_json_qstring buf b = (ok, buf', b') \<Longrightarrow> shrinks ok b b'"
  by (fastforce simp: push_json_qstring_def push_json_qstring_slow_def scan_json_qstring_def
      shrinks_def split: prod.splits if_splits option.splits
      dest!: shrinks_match_char qstring_slow_loop_length scan_loop_length)

lemma shrinks_push_json_keyword: "push_json_keyword buf b = (ok, buf', b') \<Longrightarrow> shrinks ok b b'"
  by (fastforce simp: push_json_keyword_def shrinks_def split: prod.splits if_splits
      dest!: shrinks_match_literal)

section \<open>Arrays, maps and values\<close>

function push_json_array :: "buffer \<Rightarrow> json_iter \<Rightarrow> bool \<times> buffer \<times> json_iter"
  and json_array_loop :: "buffer \<Rightarrow> u64 \<Rightarrow> buffer \<Rightarrow> json_iter \<Rightarrow> bool \<times> buffer \<times> json_iter"
  and push_json_map :: "buffer \<Rightarrow> json_iter \<Rightarrow> bool \<times> buffer \<times> json_iter"
  and json_map_loop :: "buffer \<Rightarrow> u64 \<Rightarrow> buffer \<Rightarrow> json_iter \<Rightarrow> bool \<times> buffer \<times> json_iter"
  and push_json_value :: "buffer \<Rightarrow> json_iter \<Rightarrow> bool \<times> buffer \<times> json_iter"
where
  "push_json_array buf b =
     (case b of [] \<Rightarrow> (False, buf, b)
      | c # b' \<Rightarrow> if c \<noteq> CHR ''['' then (False, buf, b) else
          let b = skip_wsp b' in
          case match_char (CHR '']'') b of (ok, b) \<Rightarrow>
          if ok then (True, array_header 0 buf, b) else
          case push_json_value [] b of (ok, inner, b) \<Rightarrow>
          if \<not> ok then (False, buf, b) else json_array_loop inner 1 buf b)"
| "json_array_loop inner count buf b =
     (case skip_wsp b of [] \<Rightarrow> (False, buf, [])
      | c # b' \<Rightarrow>
          if c = CHR '','' then json_array_loop inner count buf (skip_wsp b')
          else if c = CHR '']'' then (True, to_cbor inner (array_header count buf), b')
          else case push_json_value inner (skip_wsp b) of (ok, inner, b) \<Rightarrow>
            if \<not> ok then (False, buf, b) else json_array_loop inner (count + 1) buf b)"
| "push_json_map buf b =
     (case b of [] \<Rightarrow> (False, buf, b)
      | c # b' \<Rightarrow> if c \<noteq> CHR ''{'' then (False, buf, b) else
          let b = skip_wsp b' in
          case match_char (CHR ''}'') b of (ok, b) \<Rightarrow>
          if ok then (True, map_header 0 buf, b) else
          case push_json_value [] b of (ok, inner, b) \<Rightarrow>
          if \<not> ok then (False, buf, b) else json_map_loop inner 1 buf b)"
| "json_map_loop inner count buf b =
     (case skip_wsp b of [] \<Rightarrow> (False, buf, [])
      | c # b' \<Rightarrow>
          if c = CHR '':'' \<or> c = CHR '','' then json_map_loop inner count buf (skip_wsp b')
          else if c = CHR ''}'' then
            (if count mod 2 \<noteq> 0 then (False, buf, b')
             else (True, to_cbor inner (map_header (count div 2) buf), b'))
          else case push_json_value inner (skip_wsp b) of (ok, inner, b) \<Rightarrow>
            if \<not> ok then (False, buf, b) else json_map_loop inner (count + 1) buf b)"
| "push_json_value buf b =
     (case skip_wsp b of [] \<Rightarrow> (False, buf, [])
      | c # b' \<Rightarrow>
          if is_digit c \<or> c = CHR ''-'' then push_json_number buf (c # b')
          else if (97::nat) \<le> of_char c \<and> of_char c \<le> (122::nat) then push_json_keyword buf (c # b')
          else if c = CHR 0x22 then push_json_qstring buf (c # b')
          else if c = CHR ''['' then push_json_array buf (c # b')
          else if c = CHR ''{'' then push_json_map buf (c # b')
          else (False, buf, c # b'))"
  by pat_completeness auto


abbreviation json_dom where
  "json_dom \<equiv> push_json_array_json_array_loop_push_json_map_json_map_loop_push_json_value_dom"

lemma json_shrinks_dom:
  "json_dom (Inl (Inl (buf, b)))
     \<Longrightarrow> (\<And>ok r b'. push_json_array buf b = (ok, r, b') \<Longrightarrow> shrinks ok b b')"
  "json_dom (Inl (Inr (inner, count, buf2, b)))
     \<Longrightarrow> (\<And>ok r b'. json_array_loop inner count buf2 b = (ok, r, b') \<Longrightarrow> shrinks ok b b')"
  "json_dom (Inr (Inl (buf3, b)))
     \<Longrightarrow> (\<And>ok r b'. push_json_map buf3 b = (ok, r, b') \<Longrightarrow> shrinks ok b b')"
  "json_dom (Inr (Inr (Inl (inner4, count4, buf4, b))))
     \<Longrightarrow> (\<And>ok r b'. json_map_loop inner4 count4 buf4 b = (ok, r, b') \<Longrightarrow> shrinks ok b b')"
  "json_dom (Inr (Inr (Inr (buf5, b))))
     \<Longrightarrow> (\<And>ok r b'. push_json_value buf5 b = (ok, r, b') \<Longrightarrow> shrinks ok b b')"
proof (induction buf b and inner count buf2 b and buf3 b and inner4 count4 buf4 b and buf5 b rule:
    push_json_array_json_array_loop_push_json_map_json_map_loop_push_json_value.pinduct)
  case (1 buf b)
  show ?case
  proof (cases b)
    case (Cons c b2)
    obtain ok1 b3 where m: "match_char (CHR '']'') (skip_wsp b2) = (ok1, b3)" by fastforce
    obtain ok2 inner b4 where v: "push_json_value [] b3 = (ok2, inner, b4)" by (metis prod_cases3)
    have w: "length b3 \<le> length b2"
      using shrinks_match_char [OF m] shrinks_skip_wsp [of b2] by (simp add: shrinks_def)
    have ih: "c = CHR ''['' \<Longrightarrow> \<not> ok1 \<Longrightarrow> shrinks ok2 b3 b4"
      using "1.IH"(1) [OF Cons _ refl m [symmetric]] v by simp
    have ih2: "c = CHR ''['' \<Longrightarrow> \<not> ok1 \<Longrightarrow> ok2 \<Longrightarrow>
        json_array_loop inner 1 buf b4 = (ok, r, b') \<Longrightarrow> shrinks ok b4 b'"
      using "1.IH"(2) [OF Cons _ refl m [symmetric] _ v [symmetric] refl] by simp
    show ?thesis
      using "1.hyps"(1) "1.prems" m v w ih ih2 Cons
      by (cases "c = CHR ''[''"; cases ok1; cases ok2) (auto simp: push_json_array.psimps shrinks_def)
  qed (use 1 in \<open>simp add: push_json_array.psimps shrinks_def\<close>)
next
  case (2 inner count buf b)
  show ?case
  proof (cases "skip_wsp b")
    case (Cons c b2)
    then have w: "length b2 < length b" using shrinks_skip_wsp [of b] by simp
    obtain ok2 inner2 b4 where v: "push_json_value inner (c # b2) = (ok2, inner2, b4)"
      by (metis prod_cases3)
    have ih: "c \<noteq> CHR '','' \<Longrightarrow> c \<noteq> CHR '']'' \<Longrightarrow> shrinks ok2 (c # b2) b4"
      using "2.IH"(2) [OF Cons] v Cons by simp
    have ih2: "c \<noteq> CHR '','' \<Longrightarrow> c \<noteq> CHR '']'' \<Longrightarrow> ok2 \<Longrightarrow>
        json_array_loop inner2 (count + 1) buf b4 = (ok, r, b') \<Longrightarrow> shrinks ok b4 b'"
      using "2.IH"(3) [OF Cons] v Cons by simp
    have ih1: "\<not> (c \<noteq> CHR '','') \<Longrightarrow> json_array_loop inner count buf (skip_wsp b2) = (ok, r, b') \<Longrightarrow> shrinks ok b2 b'"
      using "2.IH"(1) [OF Cons] shrinks_skip_wsp [of b2] by (auto simp: shrinks_def)
    show ?thesis
      using "2.hyps"(1) "2.prems" v w ih ih2 ih1 Cons
      by (cases "c \<noteq> CHR '',''"; cases "c = CHR '']''"; cases ok2) (auto simp: json_array_loop.psimps shrinks_def split: if_splits)
  qed (use 2 in \<open>simp add: json_array_loop.psimps shrinks_def\<close>)
next
  case (3 buf b)
  show ?case
  proof (cases b)
    case (Cons c b2)
    obtain ok1 b3 where m: "match_char (CHR ''}'') (skip_wsp b2) = (ok1, b3)" by fastforce
    obtain ok2 inner b4 where v: "push_json_value [] b3 = (ok2, inner, b4)" by (metis prod_cases3)
    have w: "length b3 \<le> length b2"
      using shrinks_match_char [OF m] shrinks_skip_wsp [of b2] by (simp add: shrinks_def)
    have ih: "c = CHR ''{'' \<Longrightarrow> \<not> ok1 \<Longrightarrow> shrinks ok2 b3 b4"
      using "3.IH"(1) [OF Cons _ refl m [symmetric]] v by simp
    have ih2: "c = CHR ''{'' \<Longrightarrow> \<not> ok1 \<Longrightarrow> ok2 \<Longrightarrow>
        json_map_loop inner 1 buf b4 = (ok, r, b') \<Longrightarrow> shrinks ok b4 b'"
      using "3.IH"(2) [OF Cons _ refl m [symmetric] _ v [symmetric] refl] by simp
    show ?thesis
      using "3.hyps"(1) "3.prems" m v w ih ih2 Cons
      by (cases "c = CHR ''{''"; cases ok1; cases ok2) (auto simp: push_json_map.psimps shrinks_def)
  qed (use 3 in \<open>simp add: push_json_map.psimps shrinks_def\<close>)
next
  case (4 inner count buf b)
  show ?case
  proof (cases "skip_wsp b")
    case (Cons c b2)
    then have w: "length b2 < length b" using shrinks_skip_wsp [of b] by simp
    obtain ok2 inner2 b4 where v: "push_json_value inner (c # b2) = (ok2, inner2, b4)"
      by (metis prod_cases3)
    have ih: "c \<noteq> CHR '':'' \<and> c \<noteq> CHR '','' \<Longrightarrow> c \<noteq> CHR ''}'' \<Longrightarrow> shrinks ok2 (c # b2) b4"
      using "4.IH"(2) [OF Cons] v Cons by simp
    have ih2: "c \<noteq> CHR '':'' \<and> c \<noteq> CHR '','' \<Longrightarrow> c \<noteq> CHR ''}'' \<Longrightarrow> ok2 \<Longrightarrow>
        json_map_loop inner2 (count + 1) buf b4 = (ok, r, b') \<Longrightarrow> shrinks ok b4 b'"
      using "4.IH"(3) [OF Cons] v Cons by simp
    have ih1: "\<not> (c \<noteq> CHR '':'' \<and> c \<noteq> CHR '','') \<Longrightarrow> json_map_loop inner count buf (skip_wsp b2) = (ok, r, b') \<Longrightarrow> shrinks ok b2 b'"
      using "4.IH"(1) [OF Cons] shrinks_skip_wsp [of b2] by (auto simp: shrinks_def)
    show ?thesis
      using "4.hyps"(1) "4.prems" v w ih ih2 ih1 Cons
      by (cases "c \<noteq> CHR '':'' \<and> c \<noteq> CHR '',''"; cases "c = CHR ''}''"; cases ok2) (auto simp: json_map_loop.psimps shrinks_def split: if_splits)
  qed (use 4 in \<open>simp add: json_map_loop.psimps shrinks_def\<close>)
next
  case (5 buf b)
  show ?case 
  proof (cases "skip_wsp b")
    case Nil
    with 5 show ?thesis by (auto simp: shrinks_def push_json_value.psimps)
  next
    case (Cons c b2)
    have "length (c # b2) \<le> length b" using shrinks_skip_wsp [of b] Cons by simp
    moreover have "shrinks ok (c # b2) b'"
      using 5 Cons by (auto simp: push_json_value.psimps shrinks_push_json_number shrinks_push_json_keyword
        shrinks_push_json_qstring shrinks_def [of False] split: if_splits)
   ultimately show ?thesis by (auto simp: shrinks_def)
  qed
qed

type_synonym json_args =
  "((buffer \<times> json_iter) + (buffer \<times> u64 \<times> buffer \<times> json_iter)) + (buffer \<times> json_iter)
     + (buffer \<times> u64 \<times> buffer \<times> json_iter) + (buffer \<times> json_iter)"

fun json_args_len :: "json_args \<Rightarrow> nat" where
  "json_args_len (Inl (Inl (_, b))) = length b"
| "json_args_len (Inl (Inr (_, _, _, b))) = length b"
| "json_args_len (Inr (Inl (_, b))) = length b"
| "json_args_len (Inr (Inr (Inl (_, _, _, b)))) = length b"
| "json_args_len (Inr (Inr (Inr (_, b)))) = length b"

fun json_args_rank :: "json_args \<Rightarrow> nat" where
  "json_args_rank (Inl (Inl _)) = 0"
| "json_args_rank (Inl (Inr _)) = 2"
| "json_args_rank (Inr (Inl _)) = 0"
| "json_args_rank (Inr (Inr (Inl _))) = 2"
| "json_args_rank (Inr (Inr (Inr _))) = 1"

lemma skip_wsp_Cons_length: "skip_wsp b = c # b' \<Longrightarrow> length b' < length b"
  using shrinks_skip_wsp [of b] by simp

lemma match_skip_length:
  "(ok, b') = match_char c (skip_wsp b) \<Longrightarrow> length b' \<le> length b"
  using shrinks_match_char [of c "skip_wsp b" ok b'] shrinks_skip_wsp [of b]
  by (simp add: shrinks_def)

lemma json_total: "json_dom x"
proof -
  have "All json_dom"
  proof (rule "push_json_array_json_array_loop_push_json_map_json_map_loop_push_json_value.termination"
      [where R = "measures [json_args_len, json_args_rank]"])
    show "wf (measures [json_args_len, json_args_rank])" by simp
  qed (auto simp: shrinks_def less_Suc_eq_le shrinks_skip_wsp
      intro: le_less_trans [OF shrinks_skip_wsp] dest!: match_skip_length skip_wsp_Cons_length
        json_shrinks_dom(5) sym [of "(_, _)" "push_json_value _ _"])
  then show ?thesis by simp
qed

termination push_json_array
  by (simp add: json_total)

declare push_json_array.simps [simp del] json_array_loop.simps [simp del]
  push_json_map.simps [simp del] json_map_loop.simps [simp del] push_json_value.simps [simp del]

lemmas json_simps = push_json_array.simps json_array_loop.simps push_json_map.simps
  json_map_loop.simps push_json_value.simps

lemma push_json_value_shrinks: "push_json_value buf b = (ok, buf', b') \<Longrightarrow> shrinks ok b b'"
  by (rule json_shrinks_dom(5)) (rule json_total)

lemma push_json_value_less: "push_json_value buf b = (True, buf', b') \<Longrightarrow> length b' < length b"
  by (drule push_json_value_shrinks) (simp add: shrinks_def)

text \<open>
  \<open>buffer::push_json\<close>: the position in the message is the distance between the start of the text
  and the iterator the parser left. The object is returned also when an exception is thrown.
  Characters after the value are ignored.
\<close>

definition push_json :: "string \<Rightarrow> buffer \<Rightarrow> (exn + unit) \<times> buffer" where
  "push_json s this =
     (case push_json_value this s of (ok, this, b) \<Rightarrow>
      (if \<not> ok then Inl (Domain_error (''invalid json value at pos '' @ show_nat (length s - length b)
         @ '' in: '' @ s)) else Inr (), this))"

end
