(* ===== verification/Json_Sound.thy ===== *)
theory Json_Sound
  imports Json_Parse Cbor_Value
begin

text \<open>
  What \<open>push_json\<close> leaves in the buffer. On failure nothing: every parser of the family returns the
  buffer it was given. On success the encoding of exactly one well-formed CBOR value, appended to
  what was there, whatever the text; so everything that holds of encoded values (they are skipped
  as one value, matched as their tree, printed) holds of what the JSON reader accepted.
\<close>

section \<open>Failure leaves the buffer\<close>

lemma push_json_number_fail: "push_json_number buf b = (False, buf', b') \<Longrightarrow> buf' = buf"
  by (auto simp: push_json_number_def split: prod.splits if_splits option.splits)

lemma push_json_qstring_fail: "push_json_qstring buf b = (False, buf', b') \<Longrightarrow> buf' = buf"
  by (auto simp: push_json_qstring_def push_json_qstring_slow_def
      split: prod.splits if_splits option.splits)

lemma push_json_keyword_fail: "push_json_keyword buf b = (False, buf', b') \<Longrightarrow> buf' = buf"
  by (auto simp: push_json_keyword_def split: prod.splits if_splits)

lemma json_fail_keeps:
  "push_json_array buf b = (False, buf', b') \<Longrightarrow> buf' = buf"
  "json_array_loop inner count buf2 b = (False, buf', b') \<Longrightarrow> buf' = buf2"
  "push_json_map buf3 b = (False, buf', b') \<Longrightarrow> buf' = buf3"
  "json_map_loop inner4 count4 buf4 b = (False, buf', b') \<Longrightarrow> buf' = buf4"
  "push_json_value buf5 b = (False, buf', b') \<Longrightarrow> buf' = buf5"
proof (induction buf b and inner count buf2 b and buf3 b and inner4 count4 buf4 b and buf5 b rule:
    push_json_array_json_array_loop_push_json_map_json_map_loop_push_json_value.induct)
  case (1 buf b)
  then show ?case
    unfolding push_json_array.simps [of buf b]
    by (auto simp: Let_def split: list.splits if_splits prod.splits)
next
  case (2 inner count buf b)
  then show ?case
    unfolding json_array_loop.simps [of inner count buf b]
    by (auto split: list.splits if_splits prod.splits)
next
  case (3 buf b)
  then show ?case
    unfolding push_json_map.simps [of buf b]
    by (auto simp: Let_def split: list.splits if_splits prod.splits)
next
  case (4 inner count buf b)
  then show ?case
    unfolding json_map_loop.simps [of inner count buf b]
    by (auto split: list.splits if_splits prod.splits)
next
  case (5 buf b)
  then show ?case
    unfolding push_json_value.simps [of buf b]
    by (auto split: list.splits if_splits dest: push_json_number_fail push_json_qstring_fail
        push_json_keyword_fail)
qed

section \<open>Success appends one value\<close>

definition adds_value :: "buffer \<Rightarrow> buffer \<Rightarrow> bool" where
  "adds_value buf buf' \<longleftrightarrow> (\<exists>v. wf_cval v \<and> buf' = buf @ enc v)"

lemma adds_valueI: "wf_cval v \<Longrightarrow> buf' = buf @ enc v \<Longrightarrow> adds_value buf buf'"
  by (auto simp: adds_value_def)

lemma adds_push_int: "adds_value buf (push_int i buf)"
proof (cases "i <s 0")
  case True
  then show ?thesis
    by (intro adds_valueI [where v = "V_nint (- (i + 1))"])
      (simp_all add: push_int_def push_typed_val_append [of _ _ buf])
next
  case False
  then show ?thesis
    by (intro adds_valueI [where v = "V_uint i"])
      (simp_all add: push_int_def push_uint_def push_typed_val_append [of _ _ buf])
qed

lemma adds_push_double: "adds_value buf (push_double d buf)"
  by (intro adds_valueI [where v = "V_double d"]) (simp_all add: push_double_def)

lemma adds_push_bool: "adds_value buf (push_bool v buf)"
  by (intro adds_valueI [where v = "V_bool v"]) (simp_all add: push_bool_def)

lemma adds_push_null: "adds_value buf (push_null buf)"
  by (intro adds_valueI [where v = V_null]) (simp_all add: push_null_def)

lemma adds_push_string: "length s < 2 ^ 64 \<Longrightarrow> adds_value buf (push_string s buf)"
  by (intro adds_valueI [where v = "V_str s"])
    (simp_all add: push_string_def push_typed_val_append [of _ _ buf])

lemma push_json_number_adds: "push_json_number buf b = (True, buf', b') \<Longrightarrow> adds_value buf buf'"
  by (auto simp: push_json_number_def adds_push_int adds_push_double
      split: prod.splits if_splits option.splits)

lemma push_json_keyword_adds: "push_json_keyword buf b = (True, buf', b') \<Longrightarrow> adds_value buf buf'"
  by (auto simp: push_json_keyword_def adds_push_bool adds_push_null
      split: prod.splits if_splits)

lemma qstring_slow_loop_bound:
  "qstring_slow_loop s b = (ok, s', b') \<Longrightarrow> length s' \<le> length s + length b"
  by (induction s b rule: qstring_slow_loop.induct) (auto split: if_splits list.splits)

lemma scan_loop_bound: "scan_loop b = Some (esc, s, se) \<Longrightarrow> length s \<le> length b"
  by (induction b arbitrary: s) (auto split: if_splits option.splits)

lemma push_json_qstring_adds:
  assumes "push_json_qstring buf b = (True, buf', b')" "length b < 2 ^ 64"
  shows "adds_value buf buf'"
  using assms
  by (fastforce simp: push_json_qstring_def push_json_qstring_slow_def scan_json_qstring_def
      shrinks_def split: prod.splits if_splits option.splits intro!: adds_push_string
      dest!: shrinks_match_char qstring_slow_loop_bound scan_loop_bound)

lemma push_json_array_True:
  assumes "push_json_array buf b = (True, buf', b')"
  obtains (empty) b2 where "b = CHR ''['' # b2" "match_char (CHR '']'') (skip_wsp b2) = (True, b')"
      "buf' = array_header 0 buf"
  | (items) b2 b3 inner b4 where "b = CHR ''['' # b2"
      "match_char (CHR '']'') (skip_wsp b2) = (False, b3)"
      "push_json_value [] b3 = (True, inner, b4)" "json_array_loop inner 1 buf b4 = (True, buf', b')"
  using assms unfolding push_json_array.simps [of buf b]
  by (auto simp: Let_def split: list.splits if_splits prod.splits)

lemma push_json_map_True:
  assumes "push_json_map buf b = (True, buf', b')"
  obtains (empty) b2 where "b = CHR ''{'' # b2" "match_char (CHR ''}'') (skip_wsp b2) = (True, b')"
      "buf' = map_header 0 buf"
  | (items) b2 b3 inner b4 where "b = CHR ''{'' # b2"
      "match_char (CHR ''}'') (skip_wsp b2) = (False, b3)"
      "push_json_value [] b3 = (True, inner, b4)" "json_map_loop inner 1 buf b4 = (True, buf', b')"
  using assms unfolding push_json_map.simps [of buf b]
  by (auto simp: Let_def split: list.splits if_splits prod.splits)

lemma json_array_loop_True:
  assumes "json_array_loop inner count buf b = (True, buf', b')"
  obtains (comma) b2 where "skip_wsp b = CHR '','' # b2"
      "json_array_loop inner count buf (skip_wsp b2) = (True, buf', b')"
  | (close) "skip_wsp b = CHR '']'' # b'" "buf' = array_header count buf @ inner"
  | (item) c b2 inner2 b4 where "skip_wsp b = c # b2" "c \<noteq> CHR '',''" "c \<noteq> CHR '']''"
      "push_json_value inner (c # b2) = (True, inner2, b4)"
      "json_array_loop inner2 (count + 1) buf b4 = (True, buf', b')"
  using assms unfolding json_array_loop.simps [of inner count buf b]
  by (auto simp: to_cbor_def split: list.splits if_splits prod.splits)

lemma json_map_loop_True:
  assumes "json_map_loop inner count buf b = (True, buf', b')"
  obtains (sep) c b2 where "skip_wsp b = c # b2" "c = CHR '':'' \<or> c = CHR '',''"
      "json_map_loop inner count buf (skip_wsp b2) = (True, buf', b')"
  | (close) "skip_wsp b = CHR ''}'' # b'" "count mod 2 = 0"
      "buf' = map_header (count div 2) buf @ inner"
  | (item) c b2 inner2 b4 where "skip_wsp b = c # b2" "c \<noteq> CHR '':''" "c \<noteq> CHR '',''"
      "c \<noteq> CHR ''}''" "push_json_value inner (c # b2) = (True, inner2, b4)"
      "json_map_loop inner2 (count + 1) buf b4 = (True, buf', b')"
  using assms unfolding json_map_loop.simps [of inner count buf b]
  by (auto simp: to_cbor_def split: list.splits if_splits prod.splits)

text \<open>A list of an even number of values as the pairs of a map.\<close>

fun pairs :: "'a list \<Rightarrow> ('a \<times> 'a) list" where
  "pairs (x # y # xs) = (x, y) # pairs xs"
| "pairs _ = []"

lemma flat_pairs: "even (length vs) \<Longrightarrow> flat (pairs vs) = vs"
  by (induction vs rule: pairs.induct) simp_all

lemma length_pairs: "length (pairs vs) = length vs div 2"
  by (induction vs rule: pairs.induct) simp_all

lemma adds_array:
  assumes "\<forall>v \<in> set vs. wf_cval v" "length vs < 2 ^ 64"
  shows "adds_value buf (array_header (of_nat (length vs)) buf @ concat (map enc vs))"
  using assms by (intro adds_valueI [where v = "V_arr vs"])
    (simp_all add: array_header_def push_typed_val_append [of _ _ buf])

lemma of_nat_word_half:
  assumes "n < 2 ^ 64"
  shows "(of_nat n :: u64) mod 2 = 0 \<longleftrightarrow> even n" "(of_nat n :: u64) div 2 = of_nat (n div 2)"
proof -
  have u: "unat (of_nat n :: u64) = n" using assms by (simp add: unat_of_nat)
  show "(of_nat n :: u64) mod 2 = 0 \<longleftrightarrow> even n"
    by (simp add: word_eq_iff_unsigned [where ?'a = nat] unat_mod u even_iff_mod_2_eq_zero)
  have "n div 2 < 2 ^ 64" using assms by linarith
  then show "(of_nat n :: u64) div 2 = of_nat (n div 2)"
    by (intro word_unat_eq_iff [THEN iffD2]) (use assms in \<open>simp add: unat_div unat_of_nat\<close>)
qed

lemma adds_map:
  assumes wf: "\<forall>v \<in> set vs. wf_cval v" and len: "length vs < 2 ^ 64"
    and ev: "(of_nat (length vs) :: u64) mod 2 = 0"
  shows "adds_value buf (map_header (of_nat (length vs) div 2) buf @ concat (map enc vs))"
proof (rule adds_valueI [where v = "V_map (pairs vs)"])
  from ev have even: "even (length vs)" by (simp add: of_nat_word_half [OF len])
  note f = flat_pairs [OF even]
  show "wf_cval (V_map (pairs vs))"
    using wf len even wf_flat [of "pairs vs"] by (simp add: f length_pairs)
  show "map_header (of_nat (length vs) div 2) buf @ concat (map enc vs)
      = buf @ enc (V_map (pairs vs))"
    by (simp add: map_header_def push_typed_val_append [of _ _ buf] concat_enc_flat f
        length_pairs of_nat_word_half [OF len])
qed

text \<open>The loops: \<open>inner\<close> holds the values read so far and \<open>count\<close> their number.\<close>

lemma json_adds_value:
  "push_json_array buf b = (True, buf', b') \<Longrightarrow> length b < 2 ^ 64 \<Longrightarrow> adds_value buf buf'"
  "json_array_loop inner count buf2 b = (True, buf', b') \<Longrightarrow>
     inner = concat (map enc vs) \<Longrightarrow> count = of_nat (length vs) \<Longrightarrow> \<forall>v \<in> set vs. wf_cval v \<Longrightarrow>
     length vs + length b < 2 ^ 64 \<Longrightarrow> adds_value buf2 buf'"
  "push_json_map buf3 b = (True, buf', b') \<Longrightarrow> length b < 2 ^ 64 \<Longrightarrow> adds_value buf3 buf'"
  "json_map_loop inner4 count4 buf4 b = (True, buf', b') \<Longrightarrow>
     inner4 = concat (map enc vs) \<Longrightarrow> count4 = of_nat (length vs) \<Longrightarrow> \<forall>v \<in> set vs. wf_cval v \<Longrightarrow>
     length vs + length b < 2 ^ 64 \<Longrightarrow> adds_value buf4 buf'"
  "push_json_value buf5 b = (True, buf', b') \<Longrightarrow> length b < 2 ^ 64 \<Longrightarrow> adds_value buf5 buf'"
proof (induction buf b and inner count buf2 b and buf3 b and inner4 count4 buf4 b and buf5 b
    arbitrary: buf' b' and buf' b' vs and buf' b' and buf' b' vs and buf' b' rule:
    push_json_array_json_array_loop_push_json_map_json_map_loop_push_json_value.induct)
  case (1 buf b)
  from "1.prems"(1) show ?case
  proof (cases rule: push_json_array_True)
    case empty
    then show ?thesis using adds_array [of "[]" buf] by simp
  next
    case (items b2 b3 inner b4)
    have b3: "length b3 \<le> length b2" by (rule match_skip_length [OF items(2) [symmetric]])
    with items "1.prems" have "adds_value [] inner"
      by (intro "1.IH"(1) [OF items(1) _ refl items(2) [symmetric] _ items(3)]) simp_all
    then obtain v where v: "wf_cval v" "inner = enc v" by (auto simp: adds_value_def)
    note push_json_value_less [OF items(3)]
    with v b3 items "1.prems" show ?thesis
      by (intro "1.IH"(2) [OF items(1) _ refl items(2) [symmetric] _ items(3) [symmetric] refl _
          items(4), of "[v]"]) simp_all
  qed
next
  case (2 inner count buf b)
  from "2.prems"(1) show ?case
  proof (cases rule: json_array_loop_True)
    case (comma b2)
    have "length (skip_wsp b2) < length b"
      by (rule le_less_trans [OF shrinks_skip_wsp skip_wsp_Cons_length [OF comma(1)]])
    with "2.prems" have "length vs + length (skip_wsp b2) < 2 ^ 64" by linarith
    with comma "2.prems" show ?thesis
      by (intro "2.IH"(1) [OF comma(1) _ comma(2)]) simp_all
  next
    case close
    then show ?thesis using "2.prems" adds_array [of vs buf] by simp
  next
    case (item c b2 inner2 b4)
    note len = skip_wsp_Cons_length [OF item(1)]
    with item "2.prems" have "adds_value inner inner2"
      by (intro "2.IH"(2) [OF item(1) _ _ item(4) [folded item(1)]]) simp_all
    then obtain v where v: "wf_cval v" "inner2 = inner @ enc v" by (auto simp: adds_value_def)
    note push_json_value_less [OF item(4)]
    with v len item "2.prems" show ?thesis
      by (intro "2.IH"(3) [OF item(1) _ _ item(4) [folded item(1), symmetric] refl _
          item(5), of "vs @ [v]"]) simp_all
  qed
next
  case (3 buf b)
  from "3.prems"(1) show ?case
  proof (cases rule: push_json_map_True)
    case empty
    then show ?thesis using adds_map [of "[]" buf] by simp
  next
    case (items b2 b3 inner b4)
    have b3: "length b3 \<le> length b2" by (rule match_skip_length [OF items(2) [symmetric]])
    with items "3.prems" have "adds_value [] inner"
      by (intro "3.IH"(1) [OF items(1) _ refl items(2) [symmetric] _ items(3)]) simp_all
    then obtain v where v: "wf_cval v" "inner = enc v" by (auto simp: adds_value_def)
    note push_json_value_less [OF items(3)]
    with v b3 items "3.prems" show ?thesis
      by (intro "3.IH"(2) [OF items(1) _ refl items(2) [symmetric] _ items(3) [symmetric] refl _
          items(4), of "[v]"]) simp_all
  qed
next
  case (4 inner count buf b)
  from "4.prems"(1) show ?case
  proof (cases rule: json_map_loop_True)
    case (sep c b2)
    have "length (skip_wsp b2) < length b"
      by (rule le_less_trans [OF shrinks_skip_wsp skip_wsp_Cons_length [OF sep(1)]])
    with "4.prems" have "length vs + length (skip_wsp b2) < 2 ^ 64" by linarith
    with sep "4.prems" show ?thesis
      by (intro "4.IH"(1) [OF sep(1) _ sep(3)]) simp_all
  next
    case close
    then show ?thesis using "4.prems" adds_map [of vs buf] by simp
  next
    case (item c b2 inner2 b4)
    note len = skip_wsp_Cons_length [OF item(1)]
    with item "4.prems" have "adds_value inner inner2"
      by (intro "4.IH"(2) [OF item(1) _ _ item(5) [folded item(1)]]) simp_all
    then obtain v where v: "wf_cval v" "inner2 = inner @ enc v" by (auto simp: adds_value_def)
    note push_json_value_less [OF item(5)]
    with v len item "4.prems" show ?thesis
      by (intro "4.IH"(3) [OF item(1) _ _ item(5) [folded item(1), symmetric] refl _
          item(6), of "vs @ [v]"]) simp_all
  qed
next
  case (5 buf b)
  have "length (skip_wsp b) < 2 ^ 64" using shrinks_skip_wsp [of b] 5 by simp
  with 5 show ?case
    unfolding push_json_value.simps [of buf b]
    by (auto split: list.splits if_splits dest: push_json_number_adds push_json_qstring_adds
        push_json_keyword_adds)
qed

section \<open>Properties\<close>

text \<open>
  C25. The JSON reader is atomic: when it throws, the exception carries the position reached in
  the text, and the buffer is what it was (it appends to its target only after a value is
  complete); when it returns, exactly one well-formed CBOR value has been appended.
\<close>

theorem push_json_atomic:
  assumes "length s < 2 ^ 64"
  shows "case push_json s buf of
      (Inl e, buf') \<Rightarrow> buf' = buf
    | (Inr _, buf') \<Rightarrow> \<exists>v. wf_cval v \<and> buf' = buf @ enc v \<and> skip_value (enc v) = Inr ((), [])"
proof -
  obtain ok buf' b' where r: "push_json_value buf s = (ok, buf', b')" by (metis prod_cases3)
  show ?thesis
  proof (cases ok)
    case True
    with r assms have "adds_value buf buf'" using json_adds_value(5) [of buf s buf' b'] by simp
    then obtain v where "wf_cval v" "buf' = buf @ enc v" by (auto simp: adds_value_def)
    with True r show ?thesis using skip_value_enc [of v "[]"] by (auto simp: push_json_def)
  next
    case False
    with r show ?thesis using json_fail_keeps(5) by (auto simp: push_json_def)
  qed
qed

theorem push_json_atomic_witness:
  "\<exists>v. wf_cval v \<and> [0x83, 0x01, 0xf5, 0xf6] = [] @ enc v \<and> skip_value (enc v) = Inr ((), [])"
proof -
  have "push_json ''[1, true,null]'' [] = (Inr (), [0x83, 0x01, 0xf5, 0xf6])" by code_simp
  with push_json_atomic [of "''[1, true,null]''" "[]"] show ?thesis by simp
qed

end
