(* ===== verification/Json_Roundtrip.thy ===== *)
theory Json_Roundtrip
  imports Json_Sound Json_Print
begin

text \<open>
  The JSON writer against the values of \<open>Cbor_Value\<close>, and the round trip. Printing the encoding of
  a well-formed value succeeds and writes \<open>json_text\<close> of the value, consuming exactly its bytes.
  Reading \<open>json_text\<close> back yields the same bytes for the values JSON can carry (\<open>json_safe\<close>):
  integers of the range of \<open>int64_t\<close>, booleans, null, strings without the control characters the
  reader cannot unescape, and arrays and maps of such.
\<close>

section \<open>The text of a value\<close>

fun commas :: "string list \<Rightarrow> string" where
  "commas [] = []"
| "commas [x] = x"
| "commas (x # y # xs) = x @ '','' @ commas (y # xs)"

fun json_text :: "cval \<Rightarrow> string" where
  "json_text (V_uint n) = show_nat (unat n)"
| "json_text (V_nint n) = show_int (sint (- (n + 1)))"
| "json_text (V_bytes s) = to_json_string (string_of s)"
| "json_text (V_str s) = to_json_string s"
| "json_text (V_arr vs) = ''['' @ commas (map json_text vs) @ '']''"
| "json_text (V_map kvs) =
     ''{'' @ commas (map (\<lambda>(k, v). json_text k @ '':'' @ json_text v) kvs) @ ''}''"
| "json_text (V_bool b) = (if b then ''true'' else ''false'')"
| "json_text V_null = ''null''"
| "json_text (V_half h) = float_to_json (decode_half h)"
| "json_text (V_float f) = float_to_json (double_of_float f)"
| "json_text (V_double d) = float_to_json d"

section \<open>Printing writes the text of the value\<close>

lemma commas_Cons: "commas (x # xs) = x @ (if xs = [] then [] else '','' @ commas xs)"
  by (cases xs) simp_all

lemma of_nat_pred_zero:
  "Suc n < 2 ^ 64 \<Longrightarrow> (of_nat (Suc n) :: u64) - 1 \<noteq> 0 \<longleftrightarrow> n \<noteq> 0"
  using of_nat_word_inject [of n 0] by simp

lemma json_items_enc:
  assumes "\<And>v ss rest. v \<in> set vs \<Longrightarrow>
      to_json_stream ss (enc v @ rest) = (ss @ json_text v, Inr rest)"
    and "length vs < 2 ^ 64"
  shows "json_items (of_nat (length vs)) ss (concat (map enc vs) @ rest)
    = (ss @ commas (map json_text vs), Inr rest)"
  using assms
proof (induction vs arbitrary: ss)
  case Nil
  then show ?case by (simp add: json_items.simps)
next
  case (Cons v vs)
  then have len: "Suc (length vs) < 2 ^ 64" by simp
  note n = of_nat_Suc_word [OF len] of_nat_pred_zero [OF len]
  have "json_items (of_nat (length vs)) ss (concat (map enc vs) @ rest)
    = (ss @ commas (map json_text vs), Inr rest)" for ss
    using Cons by simp
  then show ?case
    using n Cons.prems(1) [of v] by (subst json_items.simps) (auto simp: commas_Cons)
qed

lemma json_entries_enc:
  assumes "\<And>k v ss rest. (k, v) \<in> set kvs \<Longrightarrow>
      to_json_stream ss (enc k @ rest) = (ss @ json_text k, Inr rest) \<and>
      to_json_stream ss (enc v @ rest) = (ss @ json_text v, Inr rest)"
    and "length kvs < 2 ^ 64"
  shows "json_entries (of_nat (length kvs)) ss
      (concat (map (\<lambda>(k, v). enc k @ enc v) kvs) @ rest)
    = (ss @ commas (map (\<lambda>(k, v). json_text k @ '':'' @ json_text v) kvs), Inr rest)"
  using assms
proof (induction kvs arbitrary: ss)
  case Nil
  then show ?case by (simp add: json_entries.simps)
next
  case (Cons kv kvs)
  obtain k v where kv: "kv = (k, v)" by (cases kv)
  from Cons have len: "Suc (length kvs) < 2 ^ 64" by simp
  note n = of_nat_Suc_word [OF len] of_nat_pred_zero [OF len]
  have "json_entries (of_nat (length kvs)) ss (concat (map (\<lambda>(k, v). enc k @ enc v) kvs) @ rest)
    = (ss @ commas (map (\<lambda>(k, v). json_text k @ '':'' @ json_text v) kvs), Inr rest)" for ss
    by (rule Cons.IH) (use Cons.prems in auto)
  then show ?case
    using n Cons.prems(1) [of k v] kv by (subst json_entries.simps) (auto simp: commas_Cons)
qed

lemmas print_simps = push_defs head_simps head_byte_special decode_bytes_def is_float_type_def
  decode_float_def cbor_magic_defs decode_type_magic [unfolded cbor_magic_defs] ucast_back

lemma to_json_stream_enc:
  "wf_cval v \<Longrightarrow> to_json_stream ss (enc v @ rest) = (ss @ json_text v, Inr rest)"
proof (induction v arbitrary: ss rest)
  case (V_arr vs)
  then have "json_items (of_nat (length vs)) ss (concat (map enc vs) @ rest)
      = (ss @ commas (map json_text vs), Inr rest)" for ss
    by (intro json_items_enc) auto
  then show ?case by (simp add: to_json_stream.simps print_simps)
next
  case (V_map kvs)
  have "json_entries (of_nat (length kvs)) ss (concat (map (\<lambda>(k, v). enc k @ enc v) kvs) @ rest)
      = (ss @ commas (map (\<lambda>(k, v). json_text k @ '':'' @ json_text v) kvs), Inr rest)" for ss
  proof (rule json_entries_enc)
    fix k v ss rest
    assume "(k, v) \<in> set kvs"
    then show "to_json_stream ss (enc k @ rest) = (ss @ json_text k, Inr rest) \<and>
        to_json_stream ss (enc v @ rest) = (ss @ json_text v, Inr rest)"
      using V_map.IH [of "(k, v)" k] V_map.IH [of "(k, v)" v] V_map.prems by auto
  qed (use V_map.prems in simp)
  then show ?case by (simp add: to_json_stream.simps print_simps)
qed (simp_all only: float_layouts append_Cons, simp_all add: to_json_stream.simps print_simps)

section \<open>Numbers\<close>

lemma digit_char_digit: "n < 10 \<Longrightarrow> is_digit (digit_char n)"
  by (simp add: is_digit_def digit_char_def)

lemma digit_val_char: "n < 10 \<Longrightarrow> digit_val (digit_char n) = n"
  by (simp add: digit_val_def digit_char_def)

lemma show_nat_digits: "\<forall>c \<in> set (show_nat n). is_digit c"
  by (induction n rule: show_nat.induct) (subst show_nat.simps, auto simp: digit_char_digit)

lemma digits_val_snoc: "digits_val (s @ [c]) = 10 * digits_val s + digit_val c"
  by (simp add: digits_val_def)

lemma digits_val_show: "digits_val (show_nat n) = n"
proof (induction n rule: show_nat.induct)
  case (1 n)
  show ?case
  proof (cases "n < 10")
    case True
    then show ?thesis by (simp add: show_nat.simps [of n] digits_val_def digit_val_char)
  next
    case False
    with 1 show ?thesis by (simp add: show_nat.simps [of n] digits_val_snoc digit_val_char)
  qed
qed

lemma show_nat_nonempty: "show_nat n \<noteq> []"
  by (subst show_nat.simps) simp

lemma length_show_nat: "n < 10 ^ k \<Longrightarrow> 0 < k \<Longrightarrow> length (show_nat n) \<le> k"
proof (induction k arbitrary: n)
  case (Suc k)
  show ?case
  proof (cases "n < 10")
    case False
    with Suc.prems have "n div 10 < 10 ^ k" "0 < k"
      by (auto simp: less_mult_imp_div_less mult.commute intro: gr0I)
    with False show ?thesis using Suc.IH [of "n div 10"] by (simp add: show_nat.simps [of n])
  qed (simp add: show_nat.simps [of n])
qed simp

text \<open>What may follow a number for the reader to stop where the writer did.\<close>

definition stops :: "json_iter \<Rightarrow> bool" where
  "stops rest \<longleftrightarrow> rest = [] \<or> hd rest \<in> {CHR '','', CHR '']'', CHR '':'', CHR ''}''}"

lemma match_digits_loop_digits:
  assumes "\<forall>c \<in> set ds. is_digit c" "stops rest"
  shows "match_digits_loop (ds @ rest) s = (rest, s @ ds)"
  using assms(1)
proof (induction ds arbitrary: s)
  case Nil
  with assms(2) show ?case by (cases rest) (auto simp: stops_def is_digit_def)
qed simp

lemma number_tail_stops:
  "stops rest \<Longrightarrow> number_frac rest s = (True, False, rest, s)"
  "stops rest \<Longrightarrow> number_exp f rest s = (True, f, rest, s)"
  by (auto simp: stops_def number_frac_def number_exp_def)

lemma show_int_sign:
  obtains c ds where "show_nat (nat \<bar>i\<bar>) = c # ds" "c \<noteq> CHR ''-''" "is_digit c"
    "show_int i = (if i < 0 then ''-'' else []) @ c # ds"
proof -
  obtain c ds where c: "show_nat (nat \<bar>i\<bar>) = c # ds" "is_digit c"
    using show_nat_digits [of "nat \<bar>i\<bar>"] show_nat_nonempty by (metis list.set_intros(1) neq_Nil_conv)
  then show thesis by (intro that) (auto simp: is_digit_def show_int_def)
qed

lemma number_int_show:
  assumes "stops rest"
  shows "number_int (show_int i @ rest) = (True, rest, show_int i)"
proof (cases rule: show_int_sign [of i])
  case (1 c ds)
  then show ?thesis
    using match_digits_loop_digits [OF show_nat_digits [of "nat \<bar>i\<bar>"] assms]
    by (simp add: number_int_def match_digits_def del: match_digits_loop.simps)
qed

lemma from_chars_int_show:
  "from_chars_int (show_int i)
     = (if - (2 ^ 63) \<le> i \<and> i < 2 ^ 63 then Some (word_of_int i) else None)"
proof (cases rule: show_int_sign [of i])
  case (1 c ds)
  then show ?thesis
    using digits_val_show [of "nat \<bar>i\<bar>"] by (auto simp: from_chars_int_def Let_def)
qed

lemma push_json_number_int:
  assumes "\<bar>i\<bar> < 10 ^ 20" "stops rest"
  shows "push_json_number buf (show_int i @ rest) =
    (if - (2 ^ 63) \<le> i \<and> i < 2 ^ 63 then (True, push_int (word_of_int i) buf, rest)
     else (False, buf, rest))"
proof -
  have "nat \<bar>i\<bar> < 10 ^ 20" using assms(1) by auto
  then have "length (show_nat (nat \<bar>i\<bar>)) \<le> 20" by (rule length_show_nat) simp
  then have "length (show_int i) \<le> 64" by (cases "i < 0") (simp_all add: show_int_def)
  then show ?thesis
    by (simp add: push_json_number_def number_int_show from_chars_int_show assms(2)
        number_tail_stops number_str_max_def)
qed

lemma push_json_number_show:
  assumes "- (2 ^ 63) \<le> i" "i < 2 ^ 63" and "stops rest"
  shows "push_json_number buf (show_int i @ rest) = (True, push_int (word_of_int i) buf, rest)"
proof -
  have "\<bar>i\<bar> < 10 ^ 20" using assms(1,2) by auto
  from push_json_number_int [OF this assms(3)] assms show ?thesis by simp
qed

section \<open>Strings\<close>

definition safe_char :: "char \<Rightarrow> bool" where
  "safe_char c \<longleftrightarrow> (0x20 :: nat) \<le> of_char c \<or>
     c \<in> {CHR 0x08, CHR 0x0C, CHR 0x0A, CHR 0x0D, CHR 0x09}"

text \<open>A character is either copied, or written as a backslash and a letter that reads back as it.\<close>

lemma to_json_char_cases:
  assumes "safe_char c"
  obtains (plain) "to_json_char c = [c]" "c \<noteq> CHR 0x5C" "c \<noteq> CHR 0x22"
  | (escaped) e where "to_json_char c = [CHR 0x5C, e]" "unescape e = c"
proof -
  consider "c \<in> {CHR 0x08, CHR 0x0C, CHR 0x0A, CHR 0x0D, CHR 0x09, CHR 0x5C, CHR 0x22}"
    | "c \<notin> {CHR 0x08, CHR 0x0C, CHR 0x0A, CHR 0x0D, CHR 0x09, CHR 0x5C, CHR 0x22}"
      "\<not> (of_char c :: nat) \<le> 0x1f"
    using assms by (cases "c \<in> {CHR 0x08, CHR 0x0C, CHR 0x0A, CHR 0x0D, CHR 0x09, CHR 0x5C, CHR 0x22}")
      (auto simp: safe_char_def)
  then show thesis
    by cases (auto simp: to_json_char_def unescape_def intro: that)
qed

lemma qstring_slow_loop_escaped:
  "\<forall>c \<in> set t. safe_char c \<Longrightarrow>
     qstring_slow_loop s (concat (map to_json_char t) @ CHR 0x22 # rest) = (True, s @ t, rest)"
proof (induction t arbitrary: s)
  case (Cons c t)
  then have "safe_char c" by simp
  then show ?case using Cons by (cases rule: to_json_char_cases) simp_all
qed simp

lemma scan_loop_escaped:
  assumes "\<forall>c \<in> set t. safe_char c"
  obtains (plain) "scan_loop (concat (map to_json_char t) @ CHR 0x22 # rest)
      = Some (False, t, CHR 0x22 # rest)"
  | (escaped) s se where "scan_loop (concat (map to_json_char t) @ CHR 0x22 # rest) = Some (True, s, se)"
proof -
  from assms have "scan_loop (concat (map to_json_char t) @ CHR 0x22 # rest)
        = Some (False, t, CHR 0x22 # rest)
      \<or> (\<exists>s se. scan_loop (concat (map to_json_char t) @ CHR 0x22 # rest) = Some (True, s, se))"
  proof (induction t)
    case (Cons c t)
    then have "safe_char c" by simp
    then show ?case using Cons by (cases rule: to_json_char_cases) auto
  qed simp
  with that show thesis by blast
qed

lemma push_json_qstring_text:
  assumes "\<forall>c \<in> set t. safe_char c"
  shows "push_json_qstring buf (to_json_string t @ rest) = (True, push_string t buf, rest)"
  using assms
proof (cases rule: scan_loop_escaped [of t rest])
  case plain
  then show ?thesis
    by (simp add: push_json_qstring_def scan_json_qstring_def to_json_string_def)
next
  case escaped
  with assms show ?thesis
    by (simp add: push_json_qstring_def scan_json_qstring_def push_json_qstring_slow_def
        to_json_string_def qstring_slow_loop_escaped)
qed

section \<open>Reading back what was printed\<close>

fun json_safe :: "cval \<Rightarrow> bool" where
  "json_safe (V_uint n) \<longleftrightarrow> unat n < 2 ^ 63"
| "json_safe (V_nint n) \<longleftrightarrow> unat n < 2 ^ 63"
| "json_safe (V_str s) \<longleftrightarrow> (\<forall>c \<in> set s. safe_char c)"
| "json_safe (V_arr vs) \<longleftrightarrow> (\<forall>v \<in> set vs. json_safe v)"
| "json_safe (V_map kvs) \<longleftrightarrow> (\<forall>(k, v) \<in> set kvs. json_safe k \<and> json_safe v)"
| "json_safe (V_bool _) \<longleftrightarrow> True"
| "json_safe V_null \<longleftrightarrow> True"
| "json_safe _ \<longleftrightarrow> False"

text \<open>The integers: the text is that of an \<open>int64_t\<close>, and reading it pushes the same item.\<close>

lemma sint_word_of_int: "- (2 ^ 63) \<le> i \<Longrightarrow> i < 2 ^ 63 \<Longrightarrow> sint (word_of_int i :: u64) = i"
  by (simp add: signed_of_int signed_take_bit_int_eq_self)

lemma push_int_enc:
  assumes "- (2 ^ 63) \<le> i" "i < 2 ^ 63"
  shows "push_int (word_of_int i) buf
    = buf @ enc (if i < 0 then V_nint (word_of_int (- i - 1)) else V_uint (word_of_int i))"
proof -
  have "word_of_int i <s (0 :: u64) \<longleftrightarrow> i < 0"
    using sint_word_of_int [OF assms] by (simp add: word_sless_alt)
  then show ?thesis
    by (simp add: push_int_def push_uint_def push_typed_val_append [of _ _ buf])
qed

lemma json_safe_int:
  assumes "json_safe v" "v = V_uint n \<or> v = V_nint n"
  shows "\<exists>i. json_text v = show_int i \<and> - (2 ^ 63) \<le> i \<and> i < 2 ^ 63
    \<and> (\<forall>buf. push_int (word_of_int i) buf = buf @ enc v)"
proof -
  from assms have "unat n < 2 ^ 63" by auto
  then have "int (unat n) < int (2 ^ 63)" by (simp only: of_nat_less_iff)
  then have "uint n < 2 ^ 63" by simp
  moreover have "- (2 ^ 63) \<le> uint n" by (rule order.trans [OF _ uint_ge_0]) simp
  ultimately have n: "uint n < 2 ^ 63" "- (2 ^ 63) \<le> uint n" by simp_all
  from assms(2) show ?thesis
  proof
    assume v: "v = V_uint n"
    with n show ?thesis
      using push_int_enc [of "uint n"]
      by (intro exI [of _ "uint n"]) (simp add: show_int_def nat_uint_eq del: enc.simps)
  next
    assume v: "v = V_nint n"
    have w: "- (n + 1) = word_of_int (- uint n - 1)" by simp
    have "sint (- (n + 1)) = - uint n - 1"
      unfolding w using n by (intro sint_word_of_int) simp_all
    moreover have "- 1 < uint n" by (rule less_le_trans [OF _ uint_ge_0]) simp
    ultimately show ?thesis
      using v n push_int_enc [of "- uint n - 1"]
      by (intro exI [of _ "- uint n - 1"]) (simp del: enc.simps)
  qed
qed

text \<open>
  The first character of a text: not white space, and none of the characters at which the loops
  of the reader stop or skip.
\<close>

definition starts_value :: "string \<Rightarrow> bool" where
  "starts_value t \<longleftrightarrow> t \<noteq> [] \<and> \<not> is_wsp (hd t)
     \<and> hd t \<notin> {CHR '','', CHR '']'', CHR '':'', CHR ''}''}"

lemma starts_value_append: "starts_value t \<Longrightarrow> starts_value (t @ rest)"
  by (cases t) (simp_all add: starts_value_def)

lemma starts_value_skip_wsp: "starts_value t \<Longrightarrow> skip_wsp t = t"
  by (cases t) (simp_all add: starts_value_def)

lemma starts_show_int: "starts_value (show_int i)"
proof -
  have "starts_value (show_nat n)" for n
    using show_nat_digits [of n] show_nat_nonempty [of n]
    by (cases "show_nat n") (auto simp: starts_value_def is_digit_def is_wsp_def)
  then show ?thesis by (simp add: show_int_def) (simp add: starts_value_def is_wsp_def)
qed

lemma starts_json_text: "json_safe v \<Longrightarrow> starts_value (json_text v)"
proof (cases v)
  case (V_uint n)
  moreover assume "json_safe v"
  ultimately show ?thesis using json_safe_int [of v n] starts_show_int by metis
next
  case (V_nint n)
  moreover assume "json_safe v"
  ultimately show ?thesis using json_safe_int [of v n] starts_show_int by metis
qed (simp_all add: starts_value_def is_wsp_def to_json_string_def)

text \<open>The loops of the reader over the items of a printed array and the entries of a printed map.\<close>

definition reads_back :: "cval \<Rightarrow> bool" where
  "reads_back v \<longleftrightarrow> starts_value (json_text v) \<and>
     (\<forall>buf rest. stops rest \<longrightarrow> push_json_value buf (json_text v @ rest) = (True, buf @ enc v, rest))"

lemma reads_backE:
  assumes "reads_back v" "stops rest"
  obtains c t where "json_text v @ rest = c # t" "skip_wsp (c # t) = c # t"
    "c \<notin> {CHR '','', CHR '']'', CHR '':'', CHR ''}''}"
    "\<And>buf. push_json_value buf (c # t) = (True, buf @ enc v, rest)"
proof -
  from assms have st: "starts_value (json_text v @ rest)"
    by (simp add: reads_back_def starts_value_append)
  then obtain c t where c: "json_text v @ rest = c # t"
    by (cases "json_text v @ rest") (auto simp: starts_value_def)
  with assms have "push_json_value buf (c # t) = (True, buf @ enc v, rest)" for buf
    unfolding reads_back_def by metis
  then show thesis
    using c st starts_value_skip_wsp [OF st] by (intro that) (auto simp: starts_value_def)
qed

lemma json_array_loop_item:
  assumes "reads_back v" "stops rest"
  shows "json_array_loop inner count buf (json_text v @ rest)
    = json_array_loop (inner @ enc v) (count + 1) buf rest"
  using assms
proof (cases rule: reads_backE)
  case (1 c t)
  then show ?thesis by (subst json_array_loop.simps) (simp del: skip_wsp.simps)
qed

lemma json_map_loop_item:
  assumes "reads_back v" "stops rest"
  shows "json_map_loop inner count buf (json_text v @ rest)
    = json_map_loop (inner @ enc v) (count + 1) buf rest"
  using assms
proof (cases rule: reads_backE)
  case (1 c t)
  then show ?thesis by (subst json_map_loop.simps) (simp del: skip_wsp.simps)
qed

lemma stops_Cons [simp]: "c \<in> {CHR '','', CHR '']'', CHR '':'', CHR ''}''} \<Longrightarrow> stops (c # rest)"
  by (simp add: stops_def)

lemma skip_wsp_text: "reads_back v \<Longrightarrow> skip_wsp (json_text v @ t) = json_text v @ t"
  by (simp add: reads_back_def starts_value_append starts_value_skip_wsp)

lemma json_array_loop_items:
  assumes "\<forall>v \<in> set vs. reads_back v"
  shows "json_array_loop inner count buf
      (concat (map (\<lambda>v. '','' @ json_text v) vs) @ '']'' @ rest)
    = (True, array_header (count + of_nat (length vs)) buf @ inner @ concat (map enc vs), rest)"
  using assms
proof (induction vs arbitrary: inner count)
  case Nil
  then show ?case by (subst json_array_loop.simps) (simp add: to_cbor_def is_wsp_def)
next
  case (Cons v vs)
  let ?r = "concat (map (\<lambda>v. '','' @ json_text v) vs) @ '']'' @ rest"
  have "stops ?r" by (cases vs) simp_all
  with Cons show ?case
    by (subst json_array_loop.simps)
      (simp add: is_wsp_def skip_wsp_text json_array_loop_item algebra_simps)
qed

lemma json_map_loop_sep:
  "c = CHR '':'' \<or> c = CHR '','' \<Longrightarrow>
     json_map_loop inner count buf (c # b) = json_map_loop inner count buf (skip_wsp b)"
  by (subst json_map_loop.simps) (auto simp: is_wsp_def)

lemma json_map_loop_items:
  assumes "\<forall>(k, v) \<in> set kvs. reads_back k \<and> reads_back v" "2 * (m + length kvs) < 2 ^ 64"
  shows "json_map_loop inner (of_nat (2 * m)) buf
      (concat (map (\<lambda>(k, v). '','' @ json_text k @ '':'' @ json_text v) kvs) @ ''}'' @ rest)
    = (True, map_header (of_nat (m + length kvs)) buf
        @ inner @ concat (map (\<lambda>(k, v). enc k @ enc v) kvs), rest)"
  using assms
proof (induction kvs arbitrary: inner m)
  case Nil
  then have "(of_nat (2 * m) :: u64) mod 2 = 0" "(of_nat (2 * m) :: u64) div 2 = of_nat m"
    using of_nat_word_half [of "2 * m"] by simp_all
  then show ?case
    by (subst json_map_loop.simps) (simp add: to_cbor_def is_wsp_def del: of_nat_mult)
next
  case (Cons kv kvs)
  obtain k v where kv: "kv = (k, v)" by (cases kv)
  let ?r = "concat (map (\<lambda>(k, v). '','' @ json_text k @ '':'' @ json_text v) kvs) @ ''}'' @ rest"
  have "stops ?r" by (cases kvs) auto
  with Cons.prems kv have "json_map_loop inner (of_nat (2 * m)) buf
      ('','' @ json_text k @ '':'' @ json_text v @ ?r)
    = json_map_loop (inner @ enc k @ enc v) (of_nat (2 * m) + 1 + 1) buf ?r"
    by (simp add: json_map_loop_sep skip_wsp_text json_map_loop_item)
  also have "(of_nat (2 * m) + 1 + 1 :: u64) = of_nat (2 * Suc m)" by simp
  also have "json_map_loop (inner @ enc k @ enc v) (of_nat (2 * Suc m)) buf ?r
    = (True, map_header (of_nat (Suc m + length kvs)) buf
        @ (inner @ enc k @ enc v) @ concat (map (\<lambda>(k, v). enc k @ enc v) kvs), rest)"
    using Cons.prems kv by (intro Cons.IH) auto
  finally show ?case using kv by simp
qed

lemma commas_concat: "commas (x # xs) = x @ concat (map (\<lambda>y. '','' @ y) xs)"
  by (induction xs arbitrary: x) simp_all

lemma push_json_array_text:
  assumes "\<forall>v \<in> set vs. reads_back v"
  shows "push_json_array buf (json_text (V_arr vs) @ rest) = (True, buf @ enc (V_arr vs), rest)"
proof (cases vs)
  case Nil
  then show ?thesis
    by (simp add: push_json_array.simps is_wsp_def array_header_def push_typed_val_append [of _ _ buf])
next
  case (Cons v ws)
  let ?r = "concat (map (\<lambda>v. '','' @ json_text v) ws) @ '']'' @ rest"
  have t: "json_text (V_arr vs) @ rest = CHR ''['' # json_text v @ ?r"
    using Cons by (simp add: commas_concat comp_def)
  have "reads_back v" "stops ?r" using assms Cons by (simp, cases ws, simp_all)
  then show ?thesis
  proof (cases rule: reads_backE)
    case (1 c u)
    with assms Cons show ?thesis
      unfolding t by (subst push_json_array.simps)
        (simp add: json_array_loop_items [simplified] array_header_def
          push_typed_val_append [of _ _ buf] del: skip_wsp.simps)
  qed
qed

lemma push_json_map_text:
  assumes "\<forall>(k, v) \<in> set kvs. reads_back k \<and> reads_back v" "2 * length kvs < 2 ^ 64"
  shows "push_json_map buf (json_text (V_map kvs) @ rest) = (True, buf @ enc (V_map kvs), rest)"
proof (cases kvs)
  case Nil
  then show ?thesis
    by (simp add: push_json_map.simps is_wsp_def map_header_def push_typed_val_append [of _ _ buf])
next
  case (Cons kv ws)
  obtain k v where kv: "kv = (k, v)" by (cases kv)
  let ?r = "concat (map (\<lambda>(k, v). '','' @ json_text k @ '':'' @ json_text v) ws) @ ''}'' @ rest"
  have t: "json_text (V_map kvs) @ rest = CHR ''{'' # json_text k @ '':'' @ json_text v @ ?r"
    using Cons kv by (simp add: commas_concat comp_def split_def)
  have rk: "reads_back k" "stops ('':'' @ json_text v @ ?r)" using assms Cons kv by simp_all
  have rv: "reads_back v" "stops ?r" using assms Cons kv by (simp, cases ws, auto)
  have two: "(2 :: u64) = of_nat (2 * 1)" by simp
  have "json_map_loop (enc k) 1 buf ('':'' @ json_text v @ ?r) = json_map_loop (enc k @ enc v) 2 buf ?r"
    using rv by (simp add: json_map_loop_sep skip_wsp_text json_map_loop_item)
  also have "\<dots> = (True, map_header (of_nat (1 + length ws)) buf
        @ (enc k @ enc v) @ concat (map (\<lambda>(k, v). enc k @ enc v) ws), rest)"
    unfolding two using assms Cons by (intro json_map_loop_items) auto
  finally have loop: "json_map_loop (enc k) 1 buf ('':'' @ json_text v @ ?r)
    = (True, map_header (of_nat (1 + length ws)) buf
        @ (enc k @ enc v) @ concat (map (\<lambda>(k, v). enc k @ enc v) ws), rest)" .
  from rk show ?thesis
  proof (cases rule: reads_backE)
    case (1 c u)
    with loop Cons kv show ?thesis
      unfolding t by (subst push_json_map.simps)
        (simp add: map_header_def push_typed_val_append [of _ _ buf] del: skip_wsp.simps)
  qed
qed

lemma reads_back_scalar:
  assumes "json_safe v" "stops rest" "\<nexists>vs. v = V_arr vs" "\<nexists>kvs. v = V_map kvs"
  shows "push_json_value buf (json_text v @ rest) = (True, buf @ enc v, rest)"
proof (cases "\<exists>n. v = V_uint n \<or> v = V_nint n")
  case True
  then obtain i where i: "json_text v = show_int i" "- (2 ^ 63) \<le> i" "i < 2 ^ 63"
      "\<And>buf. push_int (word_of_int i) buf = buf @ enc v"
    using json_safe_int assms(1) by metis
  have "skip_wsp (show_int i @ rest) = show_int i @ rest"
    by (intro starts_value_skip_wsp starts_value_append starts_show_int)
  moreover obtain c t where c: "show_int i @ rest = c # t" "is_digit c \<or> c = CHR ''-''"
    using show_nat_digits [of "nat i"] show_nat_nonempty [of "nat i"]
    by (cases "i < 0"; cases "show_nat (nat i)") (auto simp: show_int_def)
  ultimately show ?thesis
    using push_json_number_show [OF i(2,3) assms(2), of buf] i(1,4)
    by (subst push_json_value.simps) (simp del: skip_wsp.simps)
next
  case False
  have str: "push_json_value buf (to_json_string s @ rest) = (True, buf @ push_string s [], rest)"
    if "\<forall>c \<in> set s. safe_char c" for s
    using push_json_qstring_text [OF that, of buf rest]
    by (simp add: to_json_string_def push_json_value.simps is_wsp_def is_digit_def push_string_def
        push_typed_val_append [of _ _ buf])
  from False assms str show ?thesis
    by (cases v) (auto simp: push_json_value.simps is_wsp_def is_digit_def push_json_keyword_def
        match_literal_def push_bool_def push_null_def)
qed

lemma reads_back_scalarI:
  "json_safe v \<Longrightarrow> \<nexists>vs. v = V_arr vs \<Longrightarrow> \<nexists>kvs. v = V_map kvs \<Longrightarrow> reads_back v"
  by (simp add: reads_back_def starts_json_text reads_back_scalar)

lemma json_safe_reads_back: "json_safe v \<Longrightarrow> wf_cval v \<Longrightarrow> reads_back v"
proof (induction v)
  case (V_arr vs)
  then have "\<forall>v \<in> set vs. reads_back v" by simp
  from push_json_array_text [OF this] V_arr.prems show ?case
    using starts_json_text [of "V_arr vs"]
    by (auto simp: reads_back_def push_json_value.simps is_wsp_def is_digit_def)
next
  case (V_map kvs)
  then have "\<forall>(k, v) \<in> set kvs. reads_back k \<and> reads_back v" by fastforce
  from push_json_map_text [OF this] V_map.prems show ?case
    using starts_json_text [of "V_map kvs"]
    by (auto simp: reads_back_def push_json_value.simps is_wsp_def is_digit_def)
qed (rule reads_back_scalarI; simp)+

section \<open>Properties\<close>

text \<open>
  C26. Printing the bytes of a well-formed value succeeds, writes the JSON text of the value, and
  nothing of what follows the value in the buffer; it never raises and never runs past the value.
\<close>

theorem to_json_enc:
  assumes "wf_cval v"
  shows "to_json (enc v @ rest) = Inr (json_text v)"
  using to_json_stream_enc [OF assms, of "[]" rest] by (simp add: to_json_def to_json_wrapped_def)

theorem to_json_enc_witness:
  "to_json (enc (V_arr [V_uint 1, V_map [(V_str ''a'', V_null)]]) @ [0x05])
     = Inr (json_text (V_arr [V_uint 1, V_map [(V_str ''a'', V_null)]]))"
  by (rule to_json_enc) simp

text \<open>
  C12. Round trip: for values made of 64-bit signed integers, booleans, null, printable strings,
  arrays and maps, reading the printed text appends exactly the bytes that were printed.
\<close>

theorem json_roundtrip:
  assumes "json_safe v" "wf_cval v" "to_json (enc v) = Inr s"
  shows "push_json s buf = (Inr (), buf @ enc v)"
proof -
  have "s = json_text v"
    using to_json_stream_enc [OF assms(2), of "[]" "[]"] assms(3)
    by (simp add: to_json_def to_json_wrapped_def)
  with json_safe_reads_back [OF assms(1,2)] show ?thesis
    by (simp add: push_json_def reads_back_def stops_def)
qed

theorem json_roundtrip_witness:
  "push_json ''[1,-2,true]'' [0x00] = (Inr (), [0x00] @ enc (V_arr [V_uint 1, V_nint 1, V_bool True]))"
  by (rule json_roundtrip) (simp, simp, code_simp)

section \<open>Where the round trip ends\<close>

text \<open>
  The side conditions of \<open>json_safe\<close> are needed. A control character is printed as a \<open>\u00XX\<close>
  escape, which the reader does not decode; an unsigned integer above the range of \<open>int64_t\<close> is
  printed in full and then refused.
\<close>

lemma control_char_not_read_back:
  "push_json (json_text (V_str [CHR 0x01])) [] = (Inr (), enc (V_str ''u0001''))"
  by code_simp

lemma large_uint_not_read_back:
  assumes "2 ^ 63 \<le> unat n"
  shows "\<exists>e. push_json (json_text (V_uint n)) buf = (Inl e, buf)"
proof -
  let ?i = "int (unat n)"
  have "show_nat (unat n) = show_int ?i" by (simp add: show_int_def nat_uint_eq)
  moreover have "unat n < 2 ^ 64" using unsigned_less [of n, where ?'a = nat] by simp
  then have "int (unat n) < int (2 ^ 64)" "int (2 ^ 63) \<le> int (unat n)"
    using assms by (simp_all only: of_nat_less_iff of_nat_le_iff)
  then have "push_json_number buf (show_int ?i) = (False, buf, [])"
    using push_json_number_int [of ?i "[]" buf] by (simp add: stops_def)
  moreover have "skip_wsp (show_int ?i) = show_int ?i"
    by (intro starts_value_skip_wsp starts_show_int)
  ultimately have "push_json_value buf (json_text (V_uint n)) = (False, buf, [])"
    by (cases rule: show_int_sign [of ?i])
      (simp add: push_json_value.simps del: skip_wsp.simps)
  then show ?thesis by (simp add: push_json_def)
qed

end
