(* ===== verification/Cbor_Iter.thy ===== *)
theory Cbor_Iter
  imports Cbor_Value
begin

text \<open>
  Iteration over the values of a message: \<open>value_iterator\<close>, \<open>value_accessor\<close>, \<open>begin\<close>,
  \<open>end\<close> and the range-based \<open>for\<close> loop over a buffer or range (\<^verbatim>\<open>src/include/cbor/cbor.hpp\<close>), and the
  \<open>in6_addr\<close> items (\<^verbatim>\<open>src/include/cbor/cbor_in.hpp\<close>). All iterators of one loop share the end
  of the buffer, so the position of an iterator is the bytes that remain. The loop over an encoded
  array or map visits each value once, in order, and stops.
\<close>

section \<open>Iterators\<close>

record value_iterator =
  it_b :: buffer
  it_n :: u64

definition iter_begin :: "buffer \<Rightarrow> exn + value_iterator" where
  "iter_begin r = bindE (decode_range_header r) (\<lambda>(n, b). Inr \<lparr>it_b = b, it_n = n\<rparr>)"

definition iter_end :: value_iterator where
  "iter_end = \<lparr>it_b = [], it_n = 0\<rparr>"

definition iter_neq :: "value_iterator \<Rightarrow> value_iterator \<Rightarrow> bool" where
  "iter_neq it other \<longleftrightarrow> length (it_b it) \<noteq> length (it_b other)"

definition iter_incr :: "value_iterator \<Rightarrow> exn + value_iterator" where
  "iter_incr it =
     (if it_n it \<noteq> 0 then
        bindE (match_value_type Type_any (it_b it)) (\<lambda>(_, b). Inr \<lparr>it_b = b, it_n = it_n it - 1\<rparr>)
      else Inr it)"

text \<open>The accessor holds the position and the end of the buffer, not the end of the value.\<close>

definition iter_deref :: "value_iterator \<Rightarrow> exn + buffer" where
  "iter_deref it =
     (if it_n it \<noteq> 0 then Inr (it_b it) else Inl (Out_of_range ''cbor iterator out of range''))"

definition range_is_null :: "buffer \<Rightarrow> exn + bool" where
  "range_is_null r = bindE (decode_range_header r) (\<lambda>(n, _). Inr (n = 0))"

text \<open>The bytes two ranges span are compared by \<open>std::equal\<close>.\<close>

definition range_eq :: "buffer \<Rightarrow> buffer \<Rightarrow> bool" where
  "range_eq r s \<longleftrightarrow> list_all2 (=) s r"

lemma match_value_type_shrinks: "match_value_type t b = Inr (ok, b') \<Longrightarrow> length b' < length b"
proof -
  assume "match_value_type t b = Inr (ok, b')"
  then obtain tt c where m: "match_type b = Inr (tt, c)" "b' = c"
    by (auto simp: match_value_type_def bindE_eq_Inr split: prod.splits if_splits)
  then obtain major minor ty d where d: "decode_type b = Inr ((major, minor, ty), d)"
      "skip_value_type major minor d = Inr ((), c)"
    by (auto simp: match_type_def bindE_eq_Inr split: if_splits)
  then have "skip_value b = Inr ((), c)" by (simp add: skip_value.simps)
  with m show ?thesis using skip_value_shrinks by simp
qed

text \<open>
  The loop \<open>for (auto v : r)\<close>: the accessors the body sees, or the exception that ends the loop.
\<close>

function range_loop :: "value_iterator \<Rightarrow> exn + buffer list" where
  "range_loop it =
     (if iter_neq it iter_end then
        bindE (iter_deref it) (\<lambda>v.
        bindE (iter_incr it) (\<lambda>it'.
        bindE (range_loop it') (\<lambda>vs. Inr (v # vs))))
      else Inr [])"
  by pat_completeness auto
termination
proof (relation "measure (\<lambda>it. length (it_b it))")
  fix it v it'
  assume "iter_deref it = Inr v" "iter_incr it = Inr it'"
  then show "(it', it) \<in> measure (\<lambda>it. length (it_b it))"
    by (auto simp: iter_incr_def iter_deref_def bindE_eq_Inr match_value_type_shrinks split: if_splits)
qed simp

declare range_loop.simps [simp del]

definition for_range :: "buffer \<Rightarrow> exn + buffer list" where
  "for_range r = bindE (iter_begin r) range_loop"

section \<open>Accessors\<close>

text \<open>
  \<open>get<T>\<close> declares a variable, runs the extractor and ignores its verdict; \<open>None\<close> stands for the
  indeterminate value of a variable that was not assigned.
\<close>

definition accessor_get :: "extractor \<Rightarrow> buffer \<Rightarrow> exn + extracted option" where
  "accessor_get ex b =
     bindE (extract_with ex b) (\<lambda>((ok, xs), _). Inr (case xs of x # _ \<Rightarrow> Some x | [] \<Rightarrow> None))"

definition accessor_type :: "buffer \<Rightarrow> exn + ctype" where
  "accessor_type b = bindE (match_type b) (\<lambda>((ok, t), _). Inr (if \<not> ok then Type_unknown else t))"

datatype visited = Visit_value "extracted option" | Visit_unvisitable ctype

definition accessor_visit :: "buffer \<Rightarrow> exn + visited" where
  "accessor_visit b =
     bindE (accessor_type b) (\<lambda>t.
       if t = Type_string then bindE (accessor_get E_string b) (\<lambda>x. Inr (Visit_value x))
       else if t = Type_number then bindE (accessor_get (E_int 64) b) (\<lambda>x. Inr (Visit_value x))
       else if t = Type_boolean then bindE (accessor_get E_bool b) (\<lambda>x. Inr (Visit_value x))
       else if t = Type_array \<or> t = Type_map then
         bindE (accessor_get E_range b) (\<lambda>x. Inr (Visit_value x))
       else Inr (Visit_unvisitable t))"

definition accessor_to_cbor :: "buffer \<Rightarrow> buffer \<Rightarrow> buffer" where
  "accessor_to_cbor b buf = buf @ b"

definition push_unvisitable :: "ctype \<Rightarrow> buffer \<Rightarrow> buffer" where
  "push_unvisitable t buf = push_string ''cbor::value_accessor::unvisitable_type'' buf"

section \<open>IPv6 addresses\<close>

text \<open>An \<open>in6_addr\<close> is its 16 bytes, carried as a string.\<close>

definition push_in6_addr :: "buffer \<Rightarrow> buffer \<Rightarrow> buffer" where
  "push_in6_addr a buf = push_string (string_of a) buf"

definition extract_in6_addr :: "buffer option decoder" where
  "extract_in6_addr b =
     bindE (match_string b) (\<lambda>(r, b). case r of None \<Rightarrow> Inr (None, b)
       | Some s \<Rightarrow> if length s = 16 then Inr (Some (bytes_of s), b) else Inr (None, b))"

lemma in6_addr_roundtrip:
  assumes "length a = 16"
  shows "extract_in6_addr (push_in6_addr a [] @ rest) = Inr (Some a, rest)"
proof -
  have "reads match_string (V_str (string_of a)) (Some (string_of a))"
    using match_string_enc [of "V_str (string_of a)"] assms by simp
  then show ?thesis
    using assms by (auto simp: reads_def extract_in6_addr_def push_in6_addr_def)
qed

section \<open>The loop visits every value once\<close>

text \<open>The positions of the values of an encoded sequence.\<close>

fun positions :: "cval list \<Rightarrow> buffer list" where
  "positions [] = []"
| "positions (v # vs) = concat (map enc (v # vs)) # positions vs"

lemma enc_nonempty: "enc v \<noteq> []"
  by (cases v) (simp_all add: push_defs push_typed_val_layout push_float_def push_double_def)

lemma range_loop_values:
  assumes "\<forall>v \<in> set vs. wf_cval v" "length vs < 2 ^ 64"
  shows "range_loop \<lparr>it_b = concat (map enc vs), it_n = of_nat (length vs)\<rparr> = Inr (positions vs)"
  using assms
proof (induction vs)
  case Nil
  then show ?case by (simp add: range_loop.simps iter_neq_def iter_end_def)
next
  case (Cons v vs)
  then have "Suc (length vs) < 2 ^ 64" by simp
  note n = of_nat_Suc_word [OF this]
  have "match_type (enc v @ concat (map enc vs)) = Inr ((True, type_of v), concat (map enc vs))"
    using Cons.prems by (simp add: match_type_enc)
  with n Cons enc_nonempty [of v] show ?case
    by (subst range_loop.simps)
      (simp add: iter_neq_def iter_end_def iter_deref_def iter_incr_def match_value_type_def)
qed

lemma decode_range_header_enc:
  "length vs < 2 ^ 64 \<Longrightarrow>
     decode_range_header (enc (V_arr vs)) = Inr (of_nat (length vs), concat (map enc vs))"
  "2 * length kvs < 2 ^ 64 \<Longrightarrow>
     decode_range_header (enc (V_map kvs)) = Inr (of_nat (length (flat kvs)), concat (map enc (flat kvs)))"
  "decode_range_header (enc V_null) = Inr (0, [])"
  by (simp_all add: decode_range_header_def push_defs head_simps head_byte_special concat_enc_flat
      mult.commute decode_type_magic(1) [of "[]"])

section \<open>Properties\<close>

text \<open>
  C38. A range-based loop over an encoded array runs its body exactly once per element, in order:
  the \<open>i\<close>-th accessor stands at the \<open>i\<close>-th value and reports its type; the loop ends without an
  exception. A map is visited as its keys and values in turn, and null as no values.
\<close>

theorem for_range_visits:
  assumes "wf_cval (V_arr vs)" "wf_cval (V_map kvs)"
  shows "for_range (enc (V_arr vs)) = Inr (positions vs)
    \<and> for_range (enc (V_map kvs)) = Inr (positions (flat kvs))
    \<and> for_range (enc V_null) = Inr []
    \<and> map accessor_type (positions vs) = map (\<lambda>v. Inr (type_of v)) vs"
proof -
  have "for_range (enc (V_arr vs)) = Inr (positions vs)"
    using assms range_loop_values [of vs]
    by (simp add: for_range_def iter_begin_def decode_range_header_enc del: enc.simps)
  moreover have "for_range (enc (V_map kvs)) = Inr (positions (flat kvs))"
    using assms range_loop_values [of "flat kvs"] wf_flat [of kvs]
    by (simp add: for_range_def iter_begin_def decode_range_header_enc del: enc.simps)
  moreover have "for_range (enc V_null) = Inr []"
    by (simp add: for_range_def iter_begin_def decode_range_header_enc range_loop.simps iter_neq_def
        iter_end_def del: enc.simps)
  moreover have "map accessor_type (positions vs) = map (\<lambda>v. Inr (type_of v)) vs"
    using assms(1) by (induction vs) (simp_all add: accessor_type_def match_type_enc)
  ultimately show ?thesis by blast
qed

theorem for_range_visits_witness:
  "for_range (enc (V_arr [V_uint 1, V_str ''a''])) = Inr (positions [V_uint 1, V_str ''a''])"
  using for_range_visits [of "[V_uint 1, V_str ''a'']" "[]"] by simp

text \<open>
  Pushing an accessor copies everything from its position to the end of the container: for
  every element but the last the copy holds the following elements too.
\<close>

lemma accessor_to_cbor_copies_tail:
  "accessor_to_cbor (positions (v # vs) ! 0) buf = buf @ enc v @ concat (map enc vs)"
  by (simp add: accessor_to_cbor_def)

end
