(* ===== verification/Codec_Tests.thy ===== *)
theory Codec_Tests
  imports Json_Roundtrip Cbor_Iter
begin

text \<open>
  The checks of \<^verbatim>\<open>src/test/cbor_match.cpp\<close>, evaluated on the model: each lemma has the checks of one
  block of the test, in its order. They tie the definitions of the codec to the behaviour that the
  program is tested for.
\<close>

section \<open>The first message\<close>

definition test_m :: buffer where
  "test_m = cbor_array [P_str ''five'', P_int 5, P_str ''four'', P_int 4,
     P_buf (cbor_array [P_str ''three'', P_int 3])]"

abbreviation p_string :: pat where "p_string \<equiv> Pat_type Type_string"
abbreviation p_number :: pat where "p_number \<equiv> Pat_type Type_number"
abbreviation p_array :: pat where "p_array \<equiv> Pat_type Type_array"
abbreviation p_floating :: pat where "p_floating \<equiv> Pat_type Type_floating"

lemma test_m_eq:
  "test_m = [0x85, 0x64, 0x66, 0x69, 0x76, 0x65, 0x05, 0x64, 0x66, 0x6f, 0x75, 0x72, 0x04, 0x82, 0x65,
     0x74, 0x68, 0x72, 0x65, 0x65, 0x03]"
  by code_simp

lemma test_text:
  "hexdump test_m = ''21: 85 64 66 69 76 65 05 64 66 6f 75 72 04 82 65 74 68 72 65 65 03''"
  "to_json test_m = Inr ''[\"five\",5,\"four\",4,[\"three\",3]]''"
  by code_simp+

lemma test_types:
  "matches test_m [p_string, p_number, p_string, p_number, p_array] = Inr (Some [])"
  "matches test_m [p_string, p_number, p_string, p_number] = Inr None"
  "matches test_m [p_number, p_string, p_number, p_array, p_any] = Inr None"
  "matches test_m [p_any, p_number, p_string, p_number, p_any] = Inr (Some [])"
  by code_simp+

lemma test_literals:
  "matches test_m [Pat_string ''five'', p_number, p_string, Pat_int 4, p_any] = Inr (Some [])"
  "matches test_m [Pat_string ''five'', Pat_int 5, Pat_string ''four'', Pat_int 4, p_array] = Inr (Some [])"
  "matches test_m [Pat_string ''five'', Pat_int 5, p_more] = Inr (Some [])"
  "matches test_m [Pat_string ''five'', Pat_int 5, Pat_string ''four'', Pat_int 4, p_array, p_more] = Inr (Some [])"
  "matches test_m [Pat_string ''five'', Pat_int 5, Pat_string ''four'', Pat_int 4, p_array, p_any] = Inr None"
  by code_simp+

lemma test_null: "is_null (cbor_array [])" "\<not> is_null (cbor_array [P_int 1])"
  by code_simp+

lemma test_headers:
  "push_int 3 (push_string ''three'' (array_header 2 (push_int 4 (push_string ''four'' (push_int 5
     (push_string ''five'' (array_header 5 []))))))) = test_m"
  by code_simp

section \<open>Extraction\<close>

definition test_b :: buffer where
  "test_b = cbor_array [P_bool False, P_bool True, P_int 5, P_str ''five'']"

lemma test_bools:
  "matches test_b [Pat_bool False, Pat_bool True, Pat_int 5, Pat_string ''five''] = Inr (Some [])"
  "matches test_b [Pat_bool True, Pat_bool False, Pat_int 5, Pat_string ''five''] = Inr None"
  "matches test_b [Pat_extract E_bool, Pat_bool True, Pat_int 5, Pat_string ''five''] = Inr (Some [X_bool False])"
  "matches test_b [Pat_bool False, Pat_extract E_bool, Pat_int 5, Pat_string ''five''] = Inr (Some [X_bool True])"
  by code_simp+

lemma test_range:
  "matches test_m [p_string, p_number, p_string, p_number, Pat_extract E_range]
     = Inr (Some [X_range (cbor_array [P_str ''three'', P_int 3])])"
  "matches (cbor_array [P_str ''three'', P_int 3]) [p_string, p_number] = Inr (Some [])"
  "matches (cbor_array [P_str ''three'', P_int 3]) [Pat_string ''three'', Pat_int 3] = Inr (Some [])"
  "matches test_m [p_string, p_number, p_string, p_number, Pat_A [p_string, Pat_extract (E_int 64)]]
     = Inr (Some [X_int 3])"
  "matches (cbor_array [P_buf (cbor_array [P_int 124]), P_buf (cbor_array [P_str ''blip''])]) [Pat_A [p_more], Pat_A [p_more]]
     = Inr (Some [])"
  by code_simp+

text \<open>The type of the variable bounds what is extracted.\<close>

lemma test_widths:
  "matches (cbor_array [P_int (- 1), P_uint 0]) [Pat_extract (E_int 64), Pat_extract (E_uint 64)]
     = Inr (Some [X_int (- 1), X_uint 0])"
  "map (\<lambda>w. matches (cbor_array [P_int (- 1)]) [Pat_extract (E_int w)]) [64, 32, 16, 8] = replicate 4 (Inr (Some [X_int (- 1)]))"
  "map (\<lambda>w. matches (cbor_array [P_int (- 1)]) [Pat_extract (E_uint w)]) [64, 32, 16, 8] = replicate 4 (Inr None)"
  "matches (cbor_array [P_uint 1000]) [Pat_extract (E_uint 16)] = Inr (Some [X_uint 1000])"
  "matches (cbor_array [P_uint 1000]) [Pat_extract (E_uint 8)] = Inr None"
  "matches (cbor_array [P_uint 18446744073709551615]) [Pat_extract (E_uint 64)] = Inr (Some [X_uint 18446744073709551615])"
  "matches (cbor_array [P_uint 18446744073709551615]) [Pat_extract (E_int 64)] = Inr None"
  by code_simp+

section \<open>Iteration\<close>

text \<open>What a loop that visits every element does: the number of calls, if none throws.\<close>

definition visits :: "buffer \<Rightarrow> nat option" where
  "visits r = (case for_range r of Inl _ \<Rightarrow> None
     | Inr vs \<Rightarrow> if list_all (\<lambda>v. case accessor_visit v of Inl _ \<Rightarrow> False | Inr _ \<Rightarrow> True) vs then Some (length vs) else None)"

lemma test_visits:
  "visits (cbor_array (map P_str [''five'', ''four'', ''three'', ''two'', ''one''])) = Some 5"
  "visits test_m = Some 5"
  "visits (cbor_array [P_str ''three'', P_int 3]) = Some 2"
  "visits (cbor_array []) = Some 0"
  by code_simp+

definition test_a :: buffer where
  "test_a = cbor_array [P_buf (cbor_array (map P_int [2, 3, 4, 5])), P_buf (cbor_array (map P_int [6, 7, 8, 9]))]"

lemma test_nested:
  "matches test_a [Pat_A (map Pat_int [2, 3, 4, 5]), Pat_A (map Pat_int [6, 7, 8, 9])] = Inr (Some [])"
  "matches test_a [Pat_extract E_range, Pat_extract E_range]
     = Inr (Some [X_range (cbor_array (map P_int [2, 3, 4, 5])), X_range (cbor_array (map P_int [6, 7, 8, 9]))])"
  "visits (cbor_array (map P_int [2, 3, 4, 5])) = Some 4"
  "matches (cbor_array [P_buf (cbor_array (map P_int [2, 3, 4, 5]))]) [Pat_A (map Pat_int [2, 3, 4, 5])] = Inr (Some [])"
  "matches (push (P_buf (cbor_array (map P_int [6, 7, 8, 9]))) []) (map Pat_int [6, 7, 8, 9]) = Inr (Some [])"
  by code_simp+

lemma test_range_eq:
  "range_eq (cbor_array [P_int 1, P_int 2]) (cbor_array [P_int 1, P_int 2])"
  "\<not> range_eq (cbor_array [P_int 1]) (cbor_array [P_int 1, P_int 2])"
  by code_simp+

lemma test_empty:
  "matches (cbor_array [P_buf (cbor_array [])]) [Pat_extract E_range] = Inr (Some [X_range (cbor_array [])])"
  "range_is_null (cbor_array []) = Inr True" "to_json (cbor_array []) = Inr ''null''"
  by code_simp+

section \<open>Maps and JSON\<close>

lemma test_map:
  "matches (cbor_array [P_int 1, P_int 2, P_buf (cbor_map [P_int 3, P_buf (cbor_array [P_int 3])])])
     [Pat_int 1, Pat_int 2, Pat_M [Pat_int 3, Pat_A [Pat_int 3]]] = Inr (Some [])"
  "matches (cbor_array [P_int 1, P_int 2, P_buf (cbor_map [P_int 3, P_buf (cbor_array [P_int 3])])])
     [Pat_int 1, Pat_int 2, Pat_extract E_range] = Inr (Some [X_range (cbor_map [P_int 3, P_buf (cbor_array [P_int 3])])])"
  "to_json (cbor_map [P_int 3, P_buf (cbor_array [P_int 3])]) = Inr ''{3:[3]}''"
  by code_simp+

lemma test_json_array: "push_json ''[\"five\", 5, \"four\", 4, [\"three\", 3]]'' [] = (Inr (), test_m)"
  by code_simp

definition test_json :: buffer where
  "test_json = [0xa3, 0x64, 0x66, 0x69, 0x76, 0x65, 0x05, 0x64, 0x66, 0x6f, 0x75, 0x72, 0x04, 0x65,
     0x74, 0x68, 0x72, 0x65, 0x65, 0x81, 0xa1, 0x03, 0x03]"

lemma test_json_map:
  "push_json ''{\"five\": 5, \"four\": 4, \"three\": [{3:3}]}'' [] = (Inr (), test_json)"
  "to_json test_json = Inr ''{\"five\":5,\"four\":4,\"three\":[{3:3}]}''"
  by code_simp+

text \<open>Reading a text and printing what was read.\<close>

definition reprint :: "string \<Rightarrow> exn + string" where
  "reprint s = (case push_json s [] of (Inl e, _) \<Rightarrow> Inl e | (Inr _, b) \<Rightarrow> to_json b)"

lemma test_keywords:
  "reprint ''[true, false, null, [], {}, [ ], { }, {\"a\": []}]'' = Inr ''[true,false,null,[],{},[],{},{\"a\":[]}]''"
  by code_simp

abbreviation cr_lf :: string where "cr_lf \<equiv> [CHR 0x0D, CHR 0x0A]"
abbreviation tab :: string where "tab \<equiv> [CHR 0x09]"
abbreviation backslash :: string where "backslash \<equiv> [CHR 0x5C]"

definition test_escaped :: buffer where
  "test_escaped = cbor_array [P_str (''string'' @ cr_lf), P_str (tab @ ''string'' @ tab), P_str (cr_lf @ ''string'')]"

lemma test_escapes:
  "hexdump test_escaped = ''28: 83 68 73 74 72 69 6e 67 0d 0a 68 09 73 74 72 69 6e 67 09 68 0d 0a 73 74 72 69 6e 67''"
  "to_json test_escaped = Inr (''[\"string'' @ backslash @ ''r'' @ backslash @ ''n\",\"'' @ backslash @ ''tstring''
     @ backslash @ ''t\",\"'' @ backslash @ ''r'' @ backslash @ ''nstring\"]'')"
  "push_json (''[\"string'' @ backslash @ ''r'' @ backslash @ ''n\", \"'' @ backslash @ ''tstring''
     @ backslash @ ''t\", \"'' @ backslash @ ''r'' @ backslash @ ''nstring\"]'') [] = (Inr (), test_escaped)"
  by code_simp+

section \<open>Floating point\<close>

lemma test_floats:
  "hexdump (cbor_array [P_double 0x3fe0000000000000, P_float 0x40000000, P_str ''after''])
     = ''21: 83 fb 3f e0 00 00 00 00 00 00 fa 40 00 00 00 65 61 66 74 65 72''"
  "matches (cbor_array [P_double 0x3fe0000000000000, P_float 0x40000000, P_str ''after''])
     [p_floating, p_floating, Pat_string ''after''] = Inr (Some [])"
  by code_simp+

text \<open>The half precision values \<open>1.5\<close> and infinity, as doubles.\<close>

lemma test_half: "decode_half 0x3e00 = 0x3ff8000000000000" "decode_half 0x7c00 = infinity"
  by (simp_all add: decode_half_def ldexp_def pack_double_def pack_float_def round_shift_def double_inf_def bitlen.simps)

lemma test_bad_number: "fst (push_json ''[1.]'' []) \<noteq> Inr ()"
  by code_simp

end
