(* ===== verification/Message.thy ===== *)
theory Message
  imports Cbor_Value Effects
begin

text \<open>
  Messages the library builds with \<open>array(...)\<close> and takes apart with \<open>m(...)\<close>: what is built from a
  list of parameters is the encoding of an array of values, so that a receiver's patterns can be
  decided on the parameters.
\<close>

fun parm_val :: "parm \<Rightarrow> cval" where
  "parm_val (P_uint i) = V_uint i"
| "parm_val (P_int i) = (if i <s 0 then V_nint (- (i + 1)) else V_uint i)"
| "parm_val (P_bool v) = V_bool v"
| "parm_val (P_float v) = V_float v"
| "parm_val (P_double v) = V_double v"
| "parm_val (P_str s) = V_str s"
| "parm_val (P_buf b) = V_null"

text \<open>Parameters that are not embedded buffers, and strings of a length the format can carry.\<close>

fun plain_parm :: "parm \<Rightarrow> bool" where
  "plain_parm (P_buf _) = False"
| "plain_parm (P_str s) = (length s < 2 ^ 64)"
| "plain_parm _ = True"

lemma push_plain: "plain_parm p \<Longrightarrow> push p buf = buf @ enc (parm_val p)"
  by (cases p) (auto simp: push_int_def push_uint_def push_bool_def push_string_def push_float_def push_double_def
      push_typed_val_def Let_def)

lemma wf_parm_val: "plain_parm p \<Longrightarrow> wf_cval (parm_val p)"
  by (cases p) auto

lemma push_parms_plain:
  "list_all plain_parm ps \<Longrightarrow> push_parms ps buf = buf @ concat (map (enc \<circ> parm_val) ps)"
  by (induction ps arbitrary: buf) (simp_all add: push_plain)

lemma cbor_array_enc:
  "ps \<noteq> [] \<Longrightarrow> list_all plain_parm ps \<Longrightarrow> cbor_array ps = enc (V_arr (map parm_val ps))"
  by (simp add: cbor_array_def buffer_array_def push_parms_plain comp_def)

text \<open>Matching such a message is matching its list of values.\<close>

lemma matches_parms:
  assumes "ps \<noteq> []" "list_all plain_parm ps" "length ps < 2 ^ 64"
  shows "matches (cbor_array ps) pats =
    bindE (values_match pats (map parm_val ps)) (\<lambda>(ok, xs). Inr (if ok then Some xs else None))"
  using assms matches_enc [of "map parm_val ps" pats]
  by (simp add: cbor_array_enc wf_parm_val list_all_iff del: enc.simps)

text \<open>
  A receiver tries one pattern after the other; the first that matches decides. A match can throw.
\<close>

definition on_match :: "buffer \<Rightarrow> pat list \<Rightarrow> (extracted list \<Rightarrow> ('a, 's) comp) \<Rightarrow> ('a, 's) comp \<Rightarrow> ('a, 's) comp"
  where
  "on_match m pats f k = bindS (liftS (matches m pats)) (\<lambda>r. case r of Some xs \<Rightarrow> f xs | None \<Rightarrow> k)"

lemma on_match_parms:
  assumes "ps \<noteq> []" "list_all plain_parm ps" "length ps < 2 ^ 64"
  shows "on_match (cbor_array ps) pats f k s =
    (case values_match pats (map parm_val ps) of Inl e \<Rightarrow> (Inl (Std_exn (exn_what e)), s)
     | Inr (ok, xs) \<Rightarrow> if ok then f xs s else k s)"
  by (auto simp: on_match_def matches_parms [OF assms] bindS_def split: sum.splits)

end
