(* ===== verification/Message_Types.thy ===== *)
theory Message_Types
  imports Message
begin

text \<open>
  The types of what is sent and of what is received: which parameters of a message an extractor of
  \<open>cbor::extract\<close> accepts, and the round trip from the parameters of \<open>array(...)\<close> to the variables of the
  receiver.
\<close>

section \<open>Typed extraction\<close>

text \<open>
  What an extractor of the receiver gets from a parameter of the sender. An integer is read at any
  width and signedness that can represent it, any number as a floating point number; everything else
  only as its own type.
\<close>

fun received :: "extractor \<Rightarrow> parm \<Rightarrow> extracted option" where
  "received (E_int w) (P_int i) = (if in_int_range w i then Some (X_int i) else None)"
| "received (E_int w) (P_uint i) = (if 0 \<le>s i \<and> in_int_range w i then Some (X_int i) else None)"
| "received (E_uint w) (P_uint i) = (if uint i \<le> 2 ^ w - 1 then Some (X_uint i) else None)"
| "received (E_uint w) (P_int i) = (if 0 \<le>s i \<and> uint i \<le> 2 ^ w - 1 then Some (X_uint i) else None)"
| "received E_bool (P_bool v) = Some (X_bool v)"
| "received E_string (P_str s) = Some (X_string s)"
| "received E_double (P_double d) = Some (X_double d)"
| "received E_double (P_float f) = Some (X_double (double_of_float f))"
| "received E_double (P_uint i) = Some (X_double (double_of_uint i))"
| "received E_double (P_int i) = Some (X_double (if i <s 0 then double_of_int i else double_of_uint i))"
| "received E_float (P_double d) = Some (X_float (float_of_double d))"
| "received E_float (P_float f) = Some (X_float (float_of_double (double_of_float f)))"
| "received E_float (P_uint i) = Some (X_float (float_of_double (double_of_uint i)))"
| "received E_float (P_int i) =
     Some (X_float (float_of_double (if i <s 0 then double_of_int i else double_of_uint i)))"
| "received E_type p = Some (X_type (case p of P_str _ \<Rightarrow> Type_string | P_bool _ \<Rightarrow> Type_boolean
     | P_float _ \<Rightarrow> Type_floating | P_double _ \<Rightarrow> Type_floating | P_buf _ \<Rightarrow> Type_null | _ \<Rightarrow> Type_number))"
| "received _ _ = None"

lemma negative_in_64 [simp]: "i <s 0 \<Longrightarrow> - (- (i + 1) + 1) = (i :: u64)"
  by simp

lemma value_extract_parm:
  assumes "plain_parm p"
  shows "value_extract ex (parm_val p) = received ex p"
  using assms
  by (cases ex; cases p) (auto simp: word_sless_alt word_sle_eq)

lemma values_match_extract:
  assumes "list_all plain_parm ps" "exs \<noteq> []"
  shows "\<exists>ys. values_match (map Pat_extract exs) (map parm_val ps) =
      Inr (length exs = length ps \<and> those (map2 received exs ps) \<noteq> None, ys)
    \<and> (length exs = length ps \<longrightarrow> those (map2 received exs ps) \<noteq> None \<longrightarrow>
         those (map2 received exs ps) = Some ys)"
  using assms
proof (induction exs arbitrary: ps)
  case (Cons ex exs)
  show ?case
  proof (cases ps)
    case (Cons p qs)
    with Cons.prems have "value_extract ex (parm_val p) = received ex p" "list_all plain_parm qs"
      by (simp_all add: value_extract_parm)
    with Cons Cons.IH [of qs] show ?thesis
      by (cases "received ex p"; cases "exs = []"; cases qs) (auto split: option.splits)
  qed simp
qed simp

text \<open>The extractor of a parameter's own type at its full width, and what it gets.\<close>

fun own_extractor :: "parm \<Rightarrow> extractor" where
  "own_extractor (P_int _) = E_int 64"
| "own_extractor (P_uint _) = E_uint 64"
| "own_extractor (P_bool _) = E_bool"
| "own_extractor (P_str _) = E_string"
| "own_extractor (P_float _) = E_double"
| "own_extractor (P_double _) = E_double"
| "own_extractor (P_buf _) = E_type"

fun extracted_of :: "parm \<Rightarrow> extracted" where
  "extracted_of (P_int i) = X_int i"
| "extracted_of (P_uint i) = X_uint i"
| "extracted_of (P_bool v) = X_bool v"
| "extracted_of (P_str s) = X_string s"
| "extracted_of (P_float f) = X_double (double_of_float f)"
| "extracted_of (P_double d) = X_double d"
| "extracted_of (P_buf _) = X_type Type_null"

lemma full_range [simp]: "in_int_range 64 i"
  using sint_range_size [of i] by (simp add: in_int_range_def word_size)

lemma received_own: "received (own_extractor p) p = Some (extracted_of p)"
proof (cases p)
  case (P_uint i)
  have "uint i < 2 ^ 64" using uint_lt2p [of i] by simp
  with P_uint show ?thesis by simp
qed simp_all

lemma those_Some: "those (map (\<lambda>x. Some (f x)) xs) = Some (map f xs)"
  by (induction xs) simp_all

text \<open>
  C13. What is sent is what is received. A receiver with one extractor per parameter of the message
  matches exactly if every parameter can be read as its extractor's type, and then gets every
  value; a different number of extractors does not match, and matching never throws. With the
  extractors of the parameters' own types everything comes back.
\<close>

theorem message_roundtrip:
  assumes "ps \<noteq> []" "list_all plain_parm ps" "length ps < 2 ^ 64"
  shows "matches (cbor_array ps) (map Pat_extract exs) =
      Inr (if length exs = length ps then those (map2 received exs ps) else None)
    \<and> matches (cbor_array ps) (map (Pat_extract \<circ> own_extractor) ps) = Inr (Some (map extracted_of ps))"
proof -
  have typed: "matches (cbor_array ps) (map Pat_extract exs) =
      Inr (if length exs = length ps then those (map2 received exs ps) else None)" for exs
    using assms(1) values_match_extract [OF assms(2), of exs]
    by (cases "exs = []") (auto simp: matches_parms [OF assms])
  have "map2 received (map own_extractor ps) ps = map (\<lambda>p. Some (extracted_of p)) ps"
    by (induction ps) (simp_all add: received_own)
  with typed [of "map own_extractor ps"] typed [of exs] show ?thesis by (simp add: those_Some comp_def)
qed

theorem message_roundtrip_witness:
  "matches (cbor_array [P_str ''move'', P_int (- 3), P_uint 70000, P_bool True])
     (map Pat_extract [E_string, E_int 8, E_uint 32, E_bool])
   = Inr (Some [X_string ''move'', X_int (- 3), X_uint 70000, X_bool True])
   \<and> matches (cbor_array [P_str ''move'', P_int (- 3), P_uint 70000, P_bool True])
     (map Pat_extract [E_string, E_int 8, E_uint 16, E_bool]) = Inr None"
  using message_roundtrip [of "[P_str ''move'', P_int (- 3), P_uint 70000, P_bool True]" "[E_string, E_int 8, E_uint 32, E_bool]"]
    message_roundtrip [of "[P_str ''move'', P_int (- 3), P_uint 70000, P_bool True]" "[E_string, E_int 8, E_uint 16, E_bool]"]
  by (simp add: in_int_range_def)

end
