(* ===== verification/Io.thy ===== *)
theory Io
  imports Effects Env Cbor_Match
begin

text \<open>
  What the input/output objects of \<^verbatim>\<open>src/src/instance.cpp\<close> share. Each object belongs to the actor that
  created it, its owner, and talks to three parties: it puts messages into the owner's queue
  (\<open>owner_.send\<close>), it runs the owner on a message at once (\<open>owner_.dispatch_sync\<close>), and it starts
  operations of the executor, which call back when they complete. An object is a record whose first
  field is the list of these effects in order; a completion is an input of the model, with the
  error code and the counts the executor reports.

  What the owner does while it is run at once is an input too, a \<open>reaction\<close>: the calls it makes on
  this object, whether it destroyed it, and the result it returned. The destruction is seen through
  the shared flag \<open>alive_\<close>.
\<close>

record error_code =
  ec_value :: u64
  ec_message :: string

definition ec_ok :: error_code where
  "ec_ok = \<lparr>ec_value = 0, ec_message = ''Success''\<rparr>"

definition failed :: "error_code \<Rightarrow> bool" where
  "failed ec \<longleftrightarrow> ec_value ec \<noteq> 0"

definition ec_parms :: "error_code \<Rightarrow> parm list" where
  "ec_parms ec = [P_int (ec_value ec), P_str (ec_message ec)]"

datatype 'op io = To_owner buffer | Dispatched buffer | Start 'op | Traced "parm list"

record 'op obj =
  io_log :: "'op io list"

definition emit :: "'op io \<Rightarrow> (unit, ('op, 'z) obj_scheme) comp" where
  "emit e = modifyS (\<lambda>s. s\<lparr>io_log := io_log s @ [e]\<rparr>)"

definition owner_send :: "parm list \<Rightarrow> (unit, ('op, 'z) obj_scheme) comp" where
  "owner_send ps = emit (To_owner (cbor_array ps))"

definition start_op :: "'op \<Rightarrow> (unit, ('op, 'z) obj_scheme) comp" where
  "start_op c = emit (Start c)"

definition io_trace :: "bool \<Rightarrow> parm list \<Rightarrow> (unit, ('op, 'z) obj_scheme) comp" where
  "io_trace on ps = (if on then emit (Traced ps) else returnS ())"

text \<open>\<open>private_call()\<close>: the calls of the interface are made by the owner, that is in its context.\<close>

definition in_context :: "bool \<Rightarrow> (unit, 's) comp" where
  "in_context ctx = (if ctx then returnS () else throwS (Std_exn ''call out of context''))"

record 'c reaction =
  r_calls :: "'c list"
  r_alive :: bool
  r_result :: result

definition quiet_reaction :: "'c reaction" where
  "quiet_reaction = \<lparr>r_calls = [], r_alive = True, r_result = ok\<rparr>"

text \<open>\<open>call\<close> runs one call of the interface in the owner's context.\<close>

definition dispatch_sync ::
    "('c \<Rightarrow> (unit, ('op, 'z) obj_scheme) comp) \<Rightarrow> 'c reaction \<Rightarrow> parm list \<Rightarrow>
     (result, ('op, 'z) obj_scheme) comp" where
  "dispatch_sync call r ps =
     bindS (emit (Dispatched (cbor_array ps))) (\<lambda>_.
     bindS (forS (r_calls r) call) (\<lambda>_. returnS (r_result r)))"

text \<open>The messages among the effects, in order.\<close>

fun owner_msgs :: "'op io list \<Rightarrow> buffer list" where
  "owner_msgs [] = []"
| "owner_msgs (To_owner m # es) = m # owner_msgs es"
| "owner_msgs (_ # es) = owner_msgs es"

fun dispatched_msgs :: "'op io list \<Rightarrow> buffer list" where
  "dispatched_msgs [] = []"
| "dispatched_msgs (Dispatched m # es) = m # dispatched_msgs es"
| "dispatched_msgs (_ # es) = dispatched_msgs es"

fun started :: "'op io list \<Rightarrow> 'op list" where
  "started [] = []"
| "started (Start c # es) = c # started es"
| "started (_ # es) = started es"

lemma owner_msgs_append [simp]: "owner_msgs (xs @ ys) = owner_msgs xs @ owner_msgs ys"
  by (induction xs rule: owner_msgs.induct) simp_all

lemma dispatched_msgs_append [simp]: "dispatched_msgs (xs @ ys) = dispatched_msgs xs @ dispatched_msgs ys"
  by (induction xs rule: dispatched_msgs.induct) simp_all

lemma started_append [simp]: "started (xs @ ys) = started xs @ started ys"
  by (induction xs rule: started.induct) simp_all

lemma emit_apply [simp]: "emit e s = (Inr (), s\<lparr>io_log := io_log s @ [e]\<rparr>)"
  by (simp add: emit_def)

lemma io_apply [simp]:
  "owner_send ps s = (Inr (), s\<lparr>io_log := io_log s @ [To_owner (cbor_array ps)]\<rparr>)"
  "start_op c s = (Inr (), s\<lparr>io_log := io_log s @ [Start c]\<rparr>)"
  "io_trace on ps s = (Inr (), s\<lparr>io_log := io_log s @ (if on then [Traced ps] else [])\<rparr>)"
  "in_context True s = (Inr (), s)"
  "in_context False s = (Inl (Std_exn ''call out of context''), s)"
  by (simp_all add: owner_send_def start_op_def io_trace_def in_context_def)

lemma forS_ok:
  assumes "\<And>c s. fst (call c s) = Inr ()"
  shows "fst (forS cs call s) = Inr ()"
proof (induction cs arbitrary: s)
  case (Cons c cs)
  obtain t where "call c s = (Inr (), t)" using assms [of c s] by (metis prod.collapse)
  then show ?case using Cons by (simp add: bindS_def)
qed simp

end
