(* ===== verification/Timers.thy ===== *)
theory Timers
  imports Io Actor
begin

text \<open>
  Signals, timeouts and metronomes (\<open>signal_impl\<close>, \<open>timeout_impl\<close>, \<open>metronome_state\<close> of
  \<^verbatim>\<open>src/src/instance.cpp\<close>). A timer or signal set calls its handler once, with an error code when it
  was cancelled; the executor drops the call when the object is gone (\<open>token_\<close>, see the theory
  \<open>Executor\<close>). Times are microseconds on the system clock.
\<close>

section \<open>Signals\<close>

datatype signal_op = Fires_on int | On_fired | Signal_cancel

record signal_impl = "signal_op obj" +
  sg_msg :: buffer
  sg_lifelock :: bool
  sg_trace :: bool
  sg_dtor_cancelled :: bool

definition create_signal :: "bool \<Rightarrow> bool \<Rightarrow> int \<Rightarrow> buffer \<Rightarrow> signal_impl" where
  "create_signal traced lifelock signum m =
     \<lparr>io_log = (if traced then [Traced [P_str ''signal'', P_str ''set'', P_buf m, P_int (word_of_int signum)]]
        else []) @ [Start (Fires_on signum), Start On_fired],
      sg_msg = m, sg_lifelock = lifelock, sg_trace = traced, sg_dtor_cancelled = False\<rparr>"

definition signal_cancel :: "(unit, signal_impl) comp" where
  "signal_cancel = start_op Signal_cancel"

definition destroy_signal :: "(unit, signal_impl) comp" where
  "destroy_signal = bindS (modifyS (\<lambda>s. s\<lparr>sg_dtor_cancelled := True\<rparr>)) (\<lambda>_. signal_cancel)"

definition signal_fired :: "error_code \<Rightarrow> int \<Rightarrow> (unit, signal_impl) comp" where
  "signal_fired ec signum s =
     (if \<not> sg_lifelock s then (Inr (), s)
      else bindS (io_trace (sg_trace s) ([P_str ''signal'', P_str ''fired'', P_buf (sg_msg s),
             P_int (word_of_int signum)] @ ec_parms ec)) (\<lambda>_.
        if \<not> failed ec then emit (To_owner (sg_msg s))
        else if \<not> sg_dtor_cancelled s then
          emit (To_owner (exit_message ''signal_error'' (ec_parms ec)))
        else returnS ()) s)"

section \<open>Timeouts\<close>

datatype timer_op = Expires_at int | Expires_after int | On_expired | Timer_cancel

record timeout_impl = "timer_op obj" +
  to_msg :: buffer
  to_lifelock :: bool
  to_trace :: bool
  to_start :: int
  to_dtor_cancelled :: bool

definition create_timeout :: "bool \<Rightarrow> bool \<Rightarrow> int \<Rightarrow> int \<Rightarrow> buffer \<Rightarrow> timeout_impl" where
  "create_timeout traced lifelock now us m =
     \<lparr>io_log = (if traced then [Traced [P_str ''timeout'', P_str ''set'', P_buf m, P_int (word_of_int us)]]
        else []) @ [Start (Expires_after us), Start On_expired],
      to_msg = m, to_lifelock = lifelock, to_trace = traced, to_start = now, to_dtor_cancelled = False\<rparr>"

definition timeout_cancel :: "(unit, timeout_impl) comp" where
  "timeout_cancel = start_op Timer_cancel"

text \<open>\<open>timeout::cancel\<close> on a timeout that may be \<open>never()\<close>.\<close>

definition cancel_timeout :: "timeout_impl option \<Rightarrow> timeout_impl option" where
  "cancel_timeout = map_option (\<lambda>t. snd (timeout_cancel t))"

definition destroy_timeout :: "(unit, timeout_impl) comp" where
  "destroy_timeout = bindS (modifyS (\<lambda>s. s\<lparr>to_dtor_cancelled := True\<rparr>)) (\<lambda>_. timeout_cancel)"

definition timeout_expired :: "int \<Rightarrow> error_code \<Rightarrow> (unit, timeout_impl) comp" where
  "timeout_expired now ec s =
     (if \<not> to_lifelock s then (Inr (), s)
      else bindS (io_trace (to_trace s) ([P_str ''timeout'', P_str ''expired'', P_buf (to_msg s),
             P_int (word_of_int (now - to_start s))] @ ec_parms ec)) (\<lambda>_.
        if \<not> failed ec then emit (To_owner (to_msg s))
        else if \<not> to_dtor_cancelled s then
          emit (To_owner (exit_message ''timeout_error'' (ec_parms ec)))
        else returnS ()) s)"

section \<open>Metronomes\<close>

record metronome_state = "timer_op obj" +
  me_us :: int
  me_trace :: bool
  me_last_tick :: int
  me_running :: bool
  me_counter :: u64

definition create_metronome :: "bool \<Rightarrow> int \<Rightarrow> metronome_state" where
  "create_metronome traced us =
     \<lparr>io_log = [], me_us = us, me_trace = traced, me_last_tick = 0, me_running = False, me_counter = 0\<rparr>"

definition schedule_tick :: "(unit, metronome_state) comp" where
  "schedule_tick s =
     bindS (start_op (Expires_at (me_last_tick s + me_us s))) (\<lambda>_. start_op On_expired) s"

definition metronome_stop :: "(unit, metronome_state) comp" where
  "metronome_stop = bindS (start_op Timer_cancel) (\<lambda>_. modifyS (\<lambda>s. s\<lparr>me_running := False\<rparr>))"

text \<open>\<open>alive\<close>: the owner still holds its own lifetime.\<close>

definition metronome_start :: "bool \<Rightarrow> int \<Rightarrow> (unit, metronome_state) comp" where
  "metronome_start alive now s =
     (if me_running s then (Inr (), s)
      else if \<not> alive then (Inr (), s)
      else bindS (modifyS (\<lambda>s. s\<lparr>me_running := True, me_last_tick := now\<rparr>)) (\<lambda>_.
           bindS (io_trace (me_trace s) [P_str ''metronome'', P_str ''start'', P_int (word_of_int (me_us s))])
             (\<lambda>_. schedule_tick)) s)"

text \<open>\<open>sent\<close> is the result of sending the tick to the owner.\<close>

definition metronome_tick :: "error_code \<Rightarrow> result \<Rightarrow> (unit, metronome_state) comp" where
  "metronome_tick ec sent s =
     (if failed ec then (Inr (), s)
      else if \<not> me_running s then (Inr (), s)
      else bindS (modifyS (\<lambda>s. s\<lparr>me_last_tick := me_last_tick s + me_us s\<rparr>)) (\<lambda>_.
           bindS (io_trace (me_trace s) [P_str ''metronome'', P_str ''tick'', P_uint (me_counter s),
             P_int (word_of_int (me_us s))]) (\<lambda>_.
           bindS (owner_send [P_str ''tick'', P_uint (me_counter s)]) (\<lambda>_.
           bindS (modifyS (\<lambda>s. s\<lparr>me_counter := me_counter s + 1\<rparr>)) (\<lambda>_.
           case sent of Inr _ \<Rightarrow> schedule_tick | Inl _ \<Rightarrow> metronome_stop)))) s)"

definition destroy_metronome :: "(unit, metronome_state) comp" where
  "destroy_metronome = metronome_stop"

section \<open>Properties\<close>

text \<open>
  A timeout sends its owner exactly one message when it ends: the message it was created with
  when the time has passed, a \<open>timeout_error\<close> exit when it was cancelled, and nothing at all once it
  is being destroyed.
\<close>

theorem timeout_one_message:
  assumes "to_lifelock t"
  shows "owner_msgs (io_log (snd (timeout_expired now ec t))) = owner_msgs (io_log t)
     @ (if \<not> failed ec then [to_msg t]
        else if to_dtor_cancelled t then [] else [exit_message ''timeout_error'' (ec_parms ec)])
    \<and> (failed ec \<longrightarrow> owner_msgs (io_log (snd (timeout_expired now ec (snd (destroy_timeout t)))))
         = owner_msgs (io_log t))"
  using assms
  by (auto simp: timeout_expired_def destroy_timeout_def timeout_cancel_def bindS_def)

theorem timeout_one_message_witness:
  "owner_msgs (io_log (snd (timeout_expired 5 ec_ok (create_timeout True True 0 5 [0x80])))) = [[0x80]]"
  using timeout_one_message [of "create_timeout True True 0 5 [0x80]" 5 ec_ok]
  by (simp add: create_timeout_def failed_def ec_ok_def)

fun run_ticks :: "nat \<Rightarrow> metronome_state \<Rightarrow> metronome_state" where
  "run_ticks 0 s = s"
| "run_ticks (Suc n) s = snd (metronome_tick ec_ok ok (run_ticks n s))"

lemma run_ticks_state:
  assumes "me_running s"
  shows "me_running (run_ticks n s) \<and> me_us (run_ticks n s) = me_us s
    \<and> me_last_tick (run_ticks n s) = me_last_tick s + int n * me_us s
    \<and> me_counter (run_ticks n s) = me_counter s + of_nat n
    \<and> me_trace (run_ticks n s) = me_trace s
    \<and> owner_msgs (io_log (run_ticks n s)) = owner_msgs (io_log s)
       @ map (\<lambda>i. cbor_array [P_str ''tick'', P_uint (me_counter s + of_nat i)]) [0..<n]
    \<and> started (io_log (run_ticks n s)) = started (io_log s)
       @ concat (map (\<lambda>i. [Expires_at (me_last_tick s + (int i + 2) * me_us s), On_expired]) [0..<n])"
proof (induction n)
  case (Suc n)
  then show ?case
    using assms
    by (simp add: metronome_tick_def bindS_def failed_def ec_ok_def ok_def schedule_tick_def algebra_simps)
qed (use assms in simp)

text \<open>
  C39. A metronome started at time \<open>t\<close> whose ticks all succeed sends ticks numbered from its counter
  on without a gap, and the deadline of the \<open>n\<close>-th tick is \<open>t + n * us\<close>: the deadlines do not
  drift, however late the handlers run.
\<close>

theorem metronome_no_drift:
  assumes "\<not> me_running s"
  shows "let s' = run_ticks n (snd (metronome_start True t s)) in
    owner_msgs (io_log s') = owner_msgs (io_log s)
      @ map (\<lambda>i. cbor_array [P_str ''tick'', P_uint (me_counter s + of_nat i)]) [0..<n]
    \<and> started (io_log s') = started (io_log s)
      @ concat (map (\<lambda>i. [Expires_at (t + (int i + 1) * me_us s), On_expired]) [0..<Suc n])"
proof -
  let ?s = "snd (metronome_start True t s)"
  have s: "me_running ?s" "me_us ?s = me_us s" "me_last_tick ?s = t" "me_counter ?s = me_counter s"
    "owner_msgs (io_log ?s) = owner_msgs (io_log s)"
    "started (io_log ?s) = started (io_log s) @ [Expires_at (t + me_us s), On_expired]"
    using assms by (simp_all add: metronome_start_def bindS_def schedule_tick_def)
  have m: "concat (map f [0..<Suc n]) = f 0 @ concat (map (\<lambda>i. f (Suc i)) [0..<n])" for f :: "nat \<Rightarrow> timer_op list"
    by (simp add: upt_conv_Cons comp_def flip: map_Suc_upt del: upt_Suc)
  from run_ticks_state [OF s(1), of n] s show ?thesis
    by (simp add: Let_def m algebra_simps del: upt_Suc)
qed

theorem metronome_no_drift_witness:
  "started (io_log (run_ticks 1 (snd (metronome_start True 100 (create_metronome False 7)))))
     = [Expires_at 107, On_expired, Expires_at 114, On_expired]"
  using metronome_no_drift [of "create_metronome False 7" 1 100]
  by (simp add: create_metronome_def Let_def)

end
