(* ===== verification/Socket.thy ===== *)
theory Socket
  imports Io
begin

text \<open>
  Stream sockets (\<open>socket_impl\<close> of \<^verbatim>\<open>src/src/instance.cpp\<close>). The object keeps at most one write in
  progress, on \<open>write_buf_\<close>; what is written meanwhile is kept in \<open>write_q_\<close>. The executor may write
  only a part of the buffer. The abstract view is a queue of bytes that have not been sent yet; the
  locale \<open>byte_stream\<close> states it, and the socket is an instance.
\<close>

section \<open>The socket object\<close>

datatype sock_op = Sock_write buffer | Sock_read | Sock_close

datatype sock_cmd = Call_write buffer | Call_read | Call_close

record socket_impl = "sock_op obj" +
  so_tag :: string
  so_open :: bool
  so_write_buf :: buffer
  so_write_q :: buffer
  so_write_pending :: bool
  so_alive :: bool

definition socket_create :: "string \<Rightarrow> socket_impl" where
  "socket_create tag = \<lparr>io_log = [], so_tag = tag, so_open = True, so_write_buf = [], so_write_q = [],
     so_write_pending = False, so_alive = True\<rparr>"

definition destroy_socket :: "(unit, socket_impl) comp" where
  "destroy_socket = bindS (start_op Sock_close) (\<lambda>_. modifyS (\<lambda>s. s\<lparr>so_alive := False\<rparr>))"

definition write_internal :: "(unit, socket_impl) comp" where
  "write_internal s = bindS (modifyS (\<lambda>s. s\<lparr>so_write_pending := True\<rparr>))
     (\<lambda>_. start_op (Sock_write (so_write_buf s))) s"

definition socket_write :: "bool \<Rightarrow> buffer \<Rightarrow> (unit, socket_impl) comp" where
  "socket_write ctx buf =
     bindS (in_context ctx) (\<lambda>_ s.
       if so_write_pending s then (Inr (), s\<lparr>so_write_q := so_write_q s @ buf\<rparr>)
       else bindS (modifyS (\<lambda>s. s\<lparr>so_write_buf := buf @ so_write_buf s\<rparr>)) (\<lambda>_. write_internal) s)"

definition socket_read :: "bool \<Rightarrow> (unit, socket_impl) comp" where
  "socket_read ctx = bindS (in_context ctx) (\<lambda>_. start_op Sock_read)"

definition close_internal :: "(unit, socket_impl) comp" where
  "close_internal s =
     bindS (if so_open s then bindS (modifyS (\<lambda>s. s\<lparr>so_open := False\<rparr>)) (\<lambda>_. start_op Sock_close)
            else returnS ())
       (\<lambda>_. owner_send [P_str ''socket'', P_str (so_tag s), P_str ''closed'']) s"

definition socket_close :: "bool \<Rightarrow> (unit, socket_impl) comp" where
  "socket_close ctx = bindS (in_context ctx) (\<lambda>_. close_internal)"

fun sock_call :: "sock_cmd \<Rightarrow> (unit, socket_impl) comp" where
  "sock_call (Call_write b) = socket_write True b"
| "sock_call Call_read = socket_read True"
| "sock_call Call_close = socket_close True"

text \<open>Running the owner at once; it may destroy the socket.\<close>

definition sock_dispatch :: "sock_cmd reaction \<Rightarrow> parm list \<Rightarrow> (result, socket_impl) comp" where
  "sock_dispatch r ps s =
     bindS (dispatch_sync sock_call r (P_str ''socket'' # P_str (so_tag s) # ps)) (\<lambda>ret.
     bindS (if r_alive r then returnS () else destroy_socket) (\<lambda>_. returnS ret)) s"

definition close_on_error :: "result \<Rightarrow> (unit, socket_impl) comp" where
  "close_on_error ret = (case ret of Inl _ \<Rightarrow> close_internal | Inr _ \<Rightarrow> returnS ())"

definition write_complete :: "nat \<Rightarrow> sock_cmd reaction \<Rightarrow> (unit, socket_impl) comp" where
  "write_complete len r =
     bindS (sock_dispatch r [P_str ''write_complete'', P_uint (of_nat len)]) (\<lambda>ret s.
       if \<not> so_alive s then (Inr (), s)
       else bindS (close_on_error ret) (\<lambda>_.
            bindS (modifyS (\<lambda>s. s\<lparr>so_write_pending := False\<rparr>)) (\<lambda>_ s.
              if len < length (so_write_buf s) then
                bindS (modifyS (\<lambda>s. s\<lparr>so_write_buf := drop len (so_write_buf s)\<rparr>)) (\<lambda>_. write_internal) s
              else bindS (modifyS (\<lambda>s. s\<lparr>so_write_buf := []\<rparr>)) (\<lambda>_ s.
                if so_write_q s \<noteq> [] then
                  bindS (modifyS (\<lambda>s. s\<lparr>so_write_buf := so_write_q s, so_write_q := so_write_buf s\<rparr>))
                    (\<lambda>_. write_internal) s
                else (Inr (), s)) s)) s)"

text \<open>The handlers of the write and of the read.\<close>

definition write_done :: "error_code \<Rightarrow> nat \<Rightarrow> sock_cmd reaction \<Rightarrow> (unit, socket_impl) comp" where
  "write_done ec len r =
     (if failed ec then
        bindS (sock_dispatch r (P_str ''write_error'' # ec_parms ec)) (\<lambda>_ s.
          if \<not> so_alive s then (Inr (), s) else close_internal s)
      else write_complete len r)"

definition read_done :: "error_code \<Rightarrow> string \<Rightarrow> sock_cmd reaction \<Rightarrow> (unit, socket_impl) comp" where
  "read_done ec data r s =
     (if \<not> so_open s then (Inr (), s)
      else let completed = (\<lambda>d. bindS (sock_dispatch r [P_str ''read_complete'', P_str d]) (\<lambda>ret s.
             if so_alive s then close_on_error ret s else (Inr (), s))) in
        if failed ec then
          (if data = [] \<and> ec_value ec = 2 then completed [] s
           else if ec_value ec = 125 then close_internal s
           else bindS (sock_dispatch r (P_str ''read_error'' # ec_parms ec)) (\<lambda>_. returnS ()) s)
        else completed data s)"

section \<open>Byte streams\<close>

text \<open>
  What a sender of bytes promises: what is submitted is kept in order behind what has not been sent,
  and a transfer of \<open>n\<close> bytes removes the oldest \<open>n\<close>; submissions made while the transfer is
  reported come behind.
\<close>

locale byte_stream =
  fixes inv :: "'s \<Rightarrow> bool"
    and unsent :: "'s \<Rightarrow> buffer"
    and in_flight :: "'s \<Rightarrow> nat option"
    and submit :: "buffer \<Rightarrow> 's \<Rightarrow> 's"
    and transfer :: "nat \<Rightarrow> 'r \<Rightarrow> 's \<Rightarrow> 's"
    and writes :: "'r \<Rightarrow> buffer"
  assumes submit: "inv s \<Longrightarrow> inv (submit b s) \<and> unsent (submit b s) = unsent s @ b"
    and transfer: "inv s \<Longrightarrow> in_flight s = Some k \<Longrightarrow> n \<le> k \<Longrightarrow>
      inv (transfer n r s) \<and> unsent (transfer n r s) = drop n (unsent s) @ writes r"
begin

text \<open>
  A history is a list of submissions (\<open>Inl\<close>) and reports of transfers (\<open>Inr\<close>); a report comes only
  when something is in flight, and for no more than that.
\<close>

fun stream_step :: "buffer + nat \<times> 'r \<Rightarrow> 's \<times> buffer \<times> buffer \<Rightarrow> 's \<times> buffer \<times> buffer" where
  "stream_step (Inl b) (s, sent, given) = (submit b s, sent, given @ b)"
| "stream_step (Inr (n, r)) (s, sent, given) =
     (case in_flight s of None \<Rightarrow> (s, sent, given)
      | Some k \<Rightarrow> if n \<le> k then (transfer n r s, sent @ take n (unsent s), given @ writes r)
                  else (s, sent, given))"

lemma in_order:
  assumes "inv s" "fold stream_step es (s, [], unsent s) = (s', sent, given)"
  shows "inv s' \<and> sent @ unsent s' = given"
proof -
  have "inv s' \<and> sent @ unsent s' = given"
    if "fold stream_step es (t, p, g) = (s', sent, given)" "inv t" "p @ unsent t = g" for t p g
    using that
  proof (induction es arbitrary: t p g)
    case (Cons e es)
    show ?case
    proof (cases e)
      case (Inl b)
      with Cons.prems submit [of t b] show ?thesis by (intro Cons.IH [of "submit b t" p "g @ b"]) auto
    next
      case (Inr x)
      obtain n r where x: "x = (n, r)" by (cases x)
      show ?thesis
      proof (cases "\<exists>k. in_flight t = Some k \<and> n \<le> k")
        case True
        then obtain k where k: "in_flight t = Some k" "n \<le> k" by blast
        have "take n (unsent t) @ drop n (unsent t) = unsent t" by simp
        with k Inr x Cons.prems transfer [of t k n r] show ?thesis
          by (intro Cons.IH [of "transfer n r t" "p @ take n (unsent t)" "g @ writes r"]) auto
      next
        case False
        with Inr x Cons.prems show ?thesis
          by (intro Cons.IH [of t p g]) (auto split: option.splits if_splits)
      qed
    qed
  qed simp
  from this [OF assms(2) assms(1)] show ?thesis by simp
qed

end

section \<open>The socket is a byte stream\<close>

definition so_unsent :: "socket_impl \<Rightarrow> buffer" where
  "so_unsent s = so_write_buf s @ so_write_q s"

definition write_ops :: "sock_op io list \<Rightarrow> buffer list" where
  "write_ops es = concat (map (\<lambda>c. case c of Sock_write b \<Rightarrow> [b] | _ \<Rightarrow> []) (started es))"

lemma write_ops_append [simp]:
  "write_ops [] = []" "write_ops (xs @ ys) = write_ops xs @ write_ops ys"
  "write_ops (Start (Sock_write b) # es) = b # write_ops es" "write_ops (Start Sock_read # es) = write_ops es"
  "write_ops (Start Sock_close # es) = write_ops es"
  "write_ops (To_owner m # es) = write_ops es" "write_ops (Dispatched m # es) = write_ops es"
  by (simp_all add: write_ops_def)

definition sock_inv :: "socket_impl \<Rightarrow> bool" where
  "sock_inv s \<longleftrightarrow>
     (if so_write_pending s then write_ops (io_log s) \<noteq> [] \<and> last (write_ops (io_log s)) = so_write_buf s
      else so_unsent s = [])"

fun call_bytes :: "sock_cmd \<Rightarrow> buffer" where
  "call_bytes (Call_write b) = b"
| "call_bytes _ = []"

definition reaction_bytes :: "sock_cmd reaction \<Rightarrow> buffer" where
  "reaction_bytes r = concat (map call_bytes (r_calls r))"

lemma sock_call_ok: "fst (sock_call c s) = Inr ()"
  by (cases c) (simp_all add: socket_write_def socket_read_def socket_close_def close_internal_def
      write_internal_def bindS_def)

lemma close_internal_simps [simp]:
  "fst (close_internal s) = Inr ()"
  "so_write_buf (snd (close_internal s)) = so_write_buf s" "so_write_q (snd (close_internal s)) = so_write_q s"
  "so_write_pending (snd (close_internal s)) = so_write_pending s"
  "so_alive (snd (close_internal s)) = so_alive s"
  "write_ops (io_log (snd (close_internal s))) = write_ops (io_log s)"
  by (simp_all add: close_internal_def bindS_def)

text \<open>A call while a write is in progress leaves the buffer lent to the executor alone.\<close>

lemma pending_call:
  assumes "so_write_pending s"
  shows "so_write_pending (snd (sock_call c s))"
    "so_write_buf (snd (sock_call c s)) = so_write_buf s" "so_alive (snd (sock_call c s)) = so_alive s"
    "so_write_q (snd (sock_call c s)) = so_write_q s @ call_bytes c"
    "write_ops (io_log (snd (sock_call c s))) = write_ops (io_log s)"
  using assms
  by (cases c; simp add: socket_write_def socket_read_def socket_close_def bindS_def)+

lemma pending_calls:
  assumes "so_write_pending s" "forS cs sock_call s = (r, s')"
  shows "r = Inr () \<and> so_write_pending s' \<and> so_write_buf s' = so_write_buf s \<and> so_alive s' = so_alive s
    \<and> so_write_q s' = so_write_q s @ concat (map call_bytes cs)
    \<and> write_ops (io_log s') = write_ops (io_log s)"
  using assms
proof (induction cs arbitrary: s)
  case (Cons c cs)
  obtain t where t: "sock_call c s = (Inr (), t)" using sock_call_ok [of c s] by (metis prod.collapse)
  with Cons.prems(2) have f: "forS cs sock_call t = (r, s')" by (simp add: bindS_def)
  have "so_write_pending t" using pending_call(1) [OF Cons.prems(1), of c] t by simp
  from Cons.IH [OF this f] pending_call [OF Cons.prems(1), of c] t show ?case by simp
qed simp

lemma sock_dispatch_pending:
  assumes "so_write_pending s" "so_alive s" "r_alive r" "sock_dispatch r ps s = (x, s')"
  shows "x = Inr (r_result r) \<and> so_write_pending s' \<and> so_write_buf s' = so_write_buf s \<and> so_alive s'
    \<and> so_write_q s' = so_write_q s @ reaction_bytes r \<and> write_ops (io_log s') = write_ops (io_log s)"
proof -
  let ?s = "s\<lparr>io_log := io_log s @ [Dispatched (cbor_array (P_str ''socket'' # P_str (so_tag s) # ps))]\<rparr>"
  obtain y t where t: "forS (r_calls r) sock_call ?s = (y, t)" by fastforce
  have "so_write_pending ?s" using assms(1) by simp
  note p = pending_calls [OF this t]
  then have "x = Inr (r_result r)" "s' = t"
    using assms(3,4) t by (auto simp: sock_dispatch_def dispatch_sync_def bindS_def)
  with p assms(2) show ?thesis by (simp add: reaction_bytes_def)
qed

lemma close_on_error_state:
  "\<exists>t. close_on_error ret s = (Inr (), t) \<and> so_write_buf t = so_write_buf s \<and> so_write_q t = so_write_q s
     \<and> so_alive t = so_alive s"
  using close_internal_simps [of s] by (cases ret) (auto simp: close_on_error_def prod_eq_iff)

lemma write_complete_stream:
  assumes "sock_inv s" "so_write_pending s" "so_alive s" "r_alive r" "n \<le> length (so_write_buf s)"
  shows "sock_inv (snd (write_complete n r s)) \<and> so_alive (snd (write_complete n r s))
    \<and> so_unsent (snd (write_complete n r s)) = drop n (so_unsent s) @ reaction_bytes r
    \<and> fst (write_complete n r s) = Inr ()"
proof -
  obtain x t where t: "sock_dispatch r [P_str ''write_complete'', P_uint (of_nat n)] s = (x, t)" by fastforce
  note d = sock_dispatch_pending [OF assms(2-4) t]
  obtain u where u: "close_on_error (r_result r) t = (Inr (), u)" "so_write_buf u = so_write_buf s"
      "so_write_q u = so_write_q s @ reaction_bytes r" "so_alive u"
    using close_on_error_state [of "r_result r" t] d by auto
  have "drop n (so_unsent s) = drop n (so_write_buf s) @ so_write_q s"
    using assms(5) by (simp add: so_unsent_def)
  moreover have "so_write_buf s = [] \<or> n < length (so_write_buf s) \<or> n = length (so_write_buf s)"
    using assms(5) by auto
  ultimately show ?thesis
    using t d u assms(5)
    by (auto simp: write_complete_def bindS_def sock_inv_def so_unsent_def write_internal_def)
qed

text \<open>
  The locale's operations on the socket: the owner writes, and the executor reports a transfer
  while the socket is alive; the owner may react to the report by any calls and any result.
\<close>

definition stream_inv :: "socket_impl \<Rightarrow> bool" where
  "stream_inv s \<longleftrightarrow> sock_inv s \<and> so_alive s"

definition so_in_flight :: "socket_impl \<Rightarrow> nat option" where
  "so_in_flight s = (if so_write_pending s then Some (length (so_write_buf s)) else None)"

definition so_submit :: "buffer \<Rightarrow> socket_impl \<Rightarrow> socket_impl" where
  "so_submit b s = snd (socket_write True b s)"

definition so_transfer :: "nat \<Rightarrow> sock_cmd list \<times> result \<Rightarrow> socket_impl \<Rightarrow> socket_impl" where
  "so_transfer n cr s = snd (write_done ec_ok n \<lparr>r_calls = fst cr, r_alive = True, r_result = snd cr\<rparr> s)"

interpretation so: byte_stream stream_inv so_unsent so_in_flight so_submit so_transfer
    "\<lambda>cr. concat (map call_bytes (fst cr))"
proof (unfold_locales, goal_cases)
  case (1 s b)
  then show ?case
    by (auto simp: stream_inv_def sock_inv_def so_unsent_def so_submit_def socket_write_def bindS_def
        write_internal_def)
next
  case (2 s k n cr)
  let ?r = "\<lparr>r_calls = fst cr, r_alive = True, r_result = snd cr\<rparr>"
  have "write_done ec_ok n ?r = write_complete n ?r" by (simp add: write_done_def failed_def ec_ok_def)
  with 2 write_complete_stream [of s ?r n] show ?case
    by (simp add: stream_inv_def so_transfer_def so_in_flight_def reaction_bytes_def split: if_splits)
qed

text \<open>
  A history of a socket: the state, the bytes the executor has reported as written, and the bytes
  the owner has given it.
\<close>

fun sock_event :: "buffer + nat \<times> sock_cmd list \<times> result \<Rightarrow>
    socket_impl \<times> buffer \<times> buffer \<Rightarrow> socket_impl \<times> buffer \<times> buffer" where
  "sock_event (Inl b) (s, sent, given) = (snd (socket_write True b s), sent, given @ b)"
| "sock_event (Inr (n, calls, ret)) (s, sent, given) =
     (if so_write_pending s \<and> n \<le> length (so_write_buf s) then
        (snd (write_done ec_ok n \<lparr>r_calls = calls, r_alive = True, r_result = ret\<rparr> s),
         sent @ take n (so_write_buf s), given @ concat (map call_bytes calls))
      else (s, sent, given))"

lemma sock_event_stream: "sock_event e x = so.stream_step e x"
  by (cases "(e, x)" rule: sock_event.cases)
    (auto simp: so_submit_def so_transfer_def so_in_flight_def so_unsent_def)

lemma socket_in_order:
  assumes "fold sock_event es (socket_create tag, [], []) = (s, sent, given)"
  shows "sent @ so_write_buf s @ so_write_q s = given
    \<and> (if so_write_pending s then last (write_ops (io_log s)) = so_write_buf s else sent = given)"
proof -
  have i: "stream_inv (socket_create tag)"
    by (simp add: stream_inv_def sock_inv_def socket_create_def so_unsent_def)
  have u: "so_unsent (socket_create tag) = []" by (simp add: socket_create_def so_unsent_def)
  have "sock_event = so.stream_step" by (intro ext sock_event_stream)
  with so.in_order [OF i, of es s sent given] u assms have "stream_inv s" "sent @ so_unsent s = given" by simp_all
  then show ?thesis by (auto simp: stream_inv_def sock_inv_def so_unsent_def split: if_splits)
qed

text \<open>
  C5. A socket sends what it is given, all of it and in order: whatever the owner writes, at any
  time, also while a completed write is being reported to it, and however small the pieces the
  executor writes, the bytes sent so far followed by the buffered ones are the bytes given. The
  write in progress is on the current write buffer, which nothing changes before it completes; and
  when no write is in progress everything has been sent.
\<close>

theorem socket_stream_in_order:
  assumes "fold sock_event es (socket_create tag, [], []) = (s, sent, given)"
  shows "sent @ so_write_buf s @ so_write_q s = given
    \<and> (if so_write_pending s then last (write_ops (io_log s)) = so_write_buf s else sent = given)"
  using socket_in_order [OF assms] .

theorem socket_stream_in_order_witness:
  "\<exists>s. fold sock_event [Inl [1, 2, 3], Inl [4], Inr (2, [Call_write [5]], ok), Inr (1, [], ok)]
      (socket_create ''t'', [], []) = (s, [1, 2, 3], [1, 2, 3, 4, 5])
    \<and> [1, 2, 3] @ so_write_buf s @ so_write_q s = [1, 2, 3, 4, 5]"
proof -
  let ?r = "fold sock_event [Inl [1, 2, 3], Inl [4], Inr (2, [Call_write [5]], ok), Inr (1, [], ok)]
      (socket_create ''t'', [], [])"
  have e: "snd ?r = ([1, 2, 3], [1, 2, 3, 4, 5])" by code_simp
  then have r: "?r = (fst ?r, [1, 2, 3], [1, 2, 3, 4, 5])" by (metis prod.collapse)
  from socket_stream_in_order [OF r] r show ?thesis by blast
qed

text \<open>
  After a socket was closed or has failed, its owner is told: every close reports \<open>closed\<close>, the
  underlying socket is closed exactly once, and a read that completes afterwards is not reported.
\<close>

theorem closed_socket_is_silent:
  assumes "so_open s"
  shows "let s' = snd (socket_close True s) in
    owner_msgs (io_log s') = owner_msgs (io_log s)
      @ [cbor_array [P_str ''socket'', P_str (so_tag s), P_str ''closed'']]
    \<and> started (io_log s') = started (io_log s) @ [Sock_close]
    \<and> started (io_log (snd (socket_close True s'))) = started (io_log s')
    \<and> snd (read_done ec data r s') = s'"
  using assms
  by (simp add: socket_close_def close_internal_def bindS_def read_done_def Let_def)

theorem closed_socket_is_silent_witness:
  "snd (read_done ec_ok ''x'' quiet_reaction (snd (socket_close True (socket_create ''t''))))
     = snd (socket_close True (socket_create ''t''))"
  using closed_socket_is_silent [of "socket_create ''t''" ec_ok "''x''" quiet_reaction]
  by (simp add: socket_create_def Let_def)

text \<open>
  When the owner's reaction to a completed write is an error, the socket is closed but the rest of
  the buffer is still handed to the executor.
\<close>

lemma write_after_close:
  "started (io_log (fst (fold sock_event [Inl [1, 2], Inr (1, [], Inl [])] (socket_create ''t'', [], []))))
     = [Sock_write [1, 2], Sock_close, Sock_write [2]]"
  by code_simp

end
