(* ===== verification/Endpoint.thy ===== *)
theory Endpoint
  imports Io Message Actor
begin

text \<open>
  Endpoints (\<open>namespace endpoint\<close> of \<^verbatim>\<open>src/src/instance.cpp\<close>): actors that carry messages over a stream
  socket. A \<open>connection\<close> writes the messages it is sent to its socket, and cuts the bytes it reads into
  messages for its owner. A connector makes the connection, with retries; an acceptor starts a
  connection for every descriptor it is given.

  The objects are written as the input/output objects are (theory \<open>Io\<close>): calls on the socket are
  started operations, messages to the owner are \<open>To_owner\<close>. What sending to the owner yields is an
  argument \<open>reply\<close>: a result, or an exception (from a dead owner, on a message that is not an array).
\<close>

section \<open>Connections\<close>

datatype conn_op = C_read | C_write buffer | C_close

record connection = "conn_op obj" +
  cn_tag :: string
  cn_trace :: bool
  cn_read_buf :: buffer
  cn_write_pending :: bool
  cn_close_on_write_complete :: bool

text \<open>The code's trace starts with the actor and the address of the object, which are left out here.\<close>

definition conn_trace :: "parm list \<Rightarrow> (unit, connection) comp" where
  "conn_trace ps s = io_trace (cn_trace s) (P_str (cn_tag s) # ps) s"

definition conn_read :: "(unit, connection) comp" where
  "conn_read = bindS (conn_trace [P_str ''read'']) (\<lambda>_. start_op C_read)"

definition conn_write :: "buffer \<Rightarrow> (unit, connection) comp" where
  "conn_write buf =
     bindS (modifyS (\<lambda>s. s\<lparr>cn_write_pending := True\<rparr>)) (\<lambda>_.
     bindS (conn_trace [P_str ''write'', P_buf buf]) (\<lambda>_. start_op (C_write buf)))"

definition conn_close :: "(unit, connection) comp" where
  "conn_close =
     bindS (modifyS (\<lambda>s. s\<lparr>cn_close_on_write_complete := True\<rparr>)) (\<lambda>_ s.
       if \<not> cn_write_pending s then bindS (conn_trace [P_str ''close'']) (\<lambda>_. start_op C_close) s
       else (Inr (), s))"

definition connection_new :: "bool \<Rightarrow> string \<Rightarrow> connection" where
  "connection_new traced tag = snd (conn_read \<lparr>io_log = [], cn_tag = tag, cn_trace = traced,
     cn_read_buf = [], cn_write_pending = False, cn_close_on_write_complete = False\<rparr>)"

definition owner_exit :: "parm list \<Rightarrow> (unit, connection) comp" where
  "owner_exit ps = owner_send (P_str ''exit'' # ps)"

text \<open>\<open>extract(range)\<close>: whether a complete value is an array, map or null, and what follows it.\<close>

lemma extract_range_shrinks: "extract_range b = Inr (r, b') \<Longrightarrow> length b' < length b"
proof -
  assume "extract_range b = Inr (r, b')"
  then obtain tt where m: "match_type b = Inr (tt, b')"
    by (auto simp: extract_range_def bindE_eq_Inr split: prod.splits if_splits)
  then obtain major minor ty d where d: "decode_type b = Inr ((major, minor, ty), d)"
      "skip_value_type major minor d = Inr ((), b')"
    by (auto simp: match_type_def bindE_eq_Inr split: if_splits)
  then have "skip_value b = Inr ((), b')" by (simp add: skip_value.simps)
  then show ?thesis by (rule skip_value_shrinks)
qed

text \<open>
  The loop over the buffered bytes. A \<open>domain_error\<close>, from the decoder or from sending, ends it and
  leaves the bytes for the next read; every other exception leaves the receiver.
\<close>

function conn_deliver :: "(buffer \<Rightarrow> exn + result) \<Rightarrow> buffer \<Rightarrow> (unit, connection) comp" where
  "conn_deliver reply buf s =
     (if buf = [] then (Inr (), s)
      else case extract_range buf of
          Inl (Domain_error _) \<Rightarrow> (Inr (), s)
        | Inl (Out_of_range w) \<Rightarrow> (Inl (Std_exn w), s)
        | Inr (r, rest) \<Rightarrow>
            let msg = take (length buf - length rest) buf;
                s = (if r = None then snd (bindS (owner_exit [P_str ''framing_error'']) (\<lambda>_. conn_close) s) else s);
                s = snd (emit (To_owner msg) s)
            in case reply msg of
                Inl (Domain_error _) \<Rightarrow> (Inr (), s)
              | Inl (Out_of_range w) \<Rightarrow> (Inl (Std_exn w), s)
              | Inr ret \<Rightarrow>
                  let s = s\<lparr>cn_read_buf := rest\<rparr>;
                      s = (case ret of Inl _ \<Rightarrow> snd (conn_close s) | Inr _ \<Rightarrow> s)
                  in conn_deliver reply rest s)"
  by pat_completeness auto
termination conn_deliver
  by (relation "measure (\<lambda>(reply, buf, s). length buf)") (auto dest: extract_range_shrinks)

declare conn_deliver.simps [simp del]

text \<open>Data from the socket.\<close>

definition conn_data :: "(buffer \<Rightarrow> exn + result) \<Rightarrow> buffer \<Rightarrow> (unit, connection) comp" where
  "conn_data reply data =
     (if data = [] then conn_close
      else bindS (modifyS (\<lambda>s. s\<lparr>cn_read_buf := cn_read_buf s @ data\<rparr>)) (\<lambda>_.
           bindS (\<lambda>s. conn_deliver reply (cn_read_buf s) s) (\<lambda>_. conn_read)))"

abbreviation p_str where "p_str \<equiv> Pat_string"
abbreviation x_int where "x_int \<equiv> Pat_extract (E_int 32)"
abbreviation x_str where "x_str \<equiv> Pat_extract E_string"

definition str_at :: "extracted list \<Rightarrow> nat \<Rightarrow> string" where
  "str_at xs i = (case drop i xs of X_string s # _ \<Rightarrow> s | _ \<Rightarrow> [])"

definition connection_receive :: "(buffer \<Rightarrow> exn + result) \<Rightarrow> buffer \<Rightarrow> (result, connection) comp" where
  "connection_receive reply m s =
     (let sk = (\<lambda>ps. p_str ''socket'' # p_str (cn_tag s) # ps); done = (\<lambda>c. bindS c (\<lambda>_. returnS ok)) in
      on_match m (sk [p_str ''read_error'', x_int, x_str]) (\<lambda>xs.
        done (bindS (owner_exit [P_str ''read_error'', P_str (str_at xs 1)]) (\<lambda>_. conn_close)))
     (on_match m (sk [p_str ''read_complete'', x_str]) (\<lambda>xs.
        done (conn_data reply (bytes_of (str_at xs 0))))
     (on_match m (sk [p_str ''write_error'', x_int, x_str]) (\<lambda>xs.
        done (bindS (owner_exit [P_str ''write_error'', P_str (str_at xs 1)]) (\<lambda>_. conn_close)))
     (on_match m (sk [p_str ''write_complete'', x_int]) (\<lambda>xs.
        done (bindS (modifyS (\<lambda>s. s\<lparr>cn_write_pending := False\<rparr>)) (\<lambda>_ s.
          if cn_close_on_write_complete s then conn_close s else (Inr (), s))))
     (on_match m (sk [p_str ''closed'']) (\<lambda>xs. returnS (exit_result ''closed'' []))
     (bindS (liftS (is_exit_msg m)) (\<lambda>e.
        if e then done (bindS (conn_write m) (\<lambda>_. conn_close)) else done (conn_write m)))))))) s"

section \<open>Connectors\<close>

text \<open>
  The TCP and the Unix connector differ in the address and in two lines of the \<open>connected\<close> branch,
  which the Unix one starts by cancelling the retry timeout and ends by closing the descriptor when
  the owner is gone. \<open>Attach\<close> turns the actor into a connection. The retry time is the 64-bit signed
  count of milliseconds; C++ leaves the overflow of its doubling open, here it wraps around.
\<close>

datatype econn_op = E_connect | E_cancel | E_timeout int | E_timeout_cancel | E_close_fd u64 | Attach u64

record econnector = "econn_op obj" +
  ec_tag :: string
  ec_unx :: bool
  ec_connection_count :: u64
  ec_retry_time :: u64
  ec_retry_count :: u64

definition econnector_new :: "string \<Rightarrow> bool \<Rightarrow> u64 \<Rightarrow> u64 \<Rightarrow> econnector" where
  "econnector_new tag unx retry_time retry_count =
     \<lparr>io_log = [Start E_connect], ec_tag = tag, ec_unx = unx, ec_connection_count = 1,
      ec_retry_time = retry_time, ec_retry_count = retry_count\<rparr>"

definition int_at :: "extracted list \<Rightarrow> nat \<Rightarrow> u64" where
  "int_at xs i = (case drop i xs of X_int n # _ \<Rightarrow> n | _ \<Rightarrow> 0)"

definition connector_error :: "string \<Rightarrow> (result, econnector) comp" where
  "connector_error data s =
     (if ec_connection_count s > ec_retry_count s then (Inr (exit_result ''connect_error'' [P_str data]), s)
      else bindS (modifyS (\<lambda>s. s\<lparr>ec_connection_count := ec_connection_count s + 1\<rparr>)) (\<lambda>_.
           bindS (start_op (E_timeout (sint (ec_retry_time s)))) (\<lambda>_.
           bindS (modifyS (\<lambda>s. s\<lparr>ec_retry_time := ec_retry_time s * 2\<rparr>)) (\<lambda>_. returnS ok))) s)"

definition econnector_receive :: "(buffer \<Rightarrow> exn + result) \<Rightarrow> buffer \<Rightarrow> (result, econnector) comp" where
  "econnector_receive reply m s =
     (let co = (\<lambda>ps. p_str ''connector'' # p_str (ec_tag s) # ps); connected = cbor_array [P_str ''connected''] in
      on_match m (co [p_str ''connected'', x_int]) (\<lambda>xs.
        bindS (if ec_unx s then start_op E_timeout_cancel else returnS ()) (\<lambda>_.
        bindS (emit (To_owner connected)) (\<lambda>_.
        bindS (liftS (reply connected)) (\<lambda>ret. case ret of
            Inl e \<Rightarrow> bindS (if ec_unx s then start_op (E_close_fd (int_at xs 0)) else returnS ()) (\<lambda>_. returnS (Inl e))
          | Inr _ \<Rightarrow> bindS (start_op (Attach (int_at xs 0))) (\<lambda>_. returnS ok)))))
     (on_match m (co [p_str ''cancelled'']) (\<lambda>xs. returnS (exit_result ''cancelled'' []))
     (on_match m (co [p_str ''error'', x_int, x_str]) (\<lambda>xs. connector_error (str_at xs 1))
     (on_match m (co [p_str ''retry'']) (\<lambda>xs. bindS (start_op E_connect) (\<lambda>_. returnS ok))
     (bindS (liftS (is_exit_msg m)) (\<lambda>e.
        if e then bindS (start_op E_cancel) (\<lambda>_. returnS ok) else liftS (unexpected m))))))) s"

section \<open>Acceptors\<close>

datatype eacc_op = Start_connection u64 | Acceptor_close | To_sender buffer

record eacceptor = "eacc_op obj" +
  ea_tag :: string
  ea_get :: string
  ea_value :: parm

text \<open>
  \<open>ea_get\<close> and \<open>ea_value\<close> are what the acceptor answers to \<open>["get", ...]\<close>: its port or its path.
  Messages to the sender are recorded, and \<open>reply\<close> is their result.
\<close>

definition eacceptor_new :: "string \<Rightarrow> string \<Rightarrow> parm \<Rightarrow> eacceptor" where
  "eacceptor_new tag name value = \<lparr>io_log = [], ea_tag = tag, ea_get = name, ea_value = value\<rparr>"

definition answer :: "(buffer \<Rightarrow> exn + result) \<Rightarrow> parm list \<Rightarrow> (result, eacceptor) comp" where
  "answer reply ps = bindS (start_op (To_sender (cbor_array ps))) (\<lambda>_. liftS (reply (cbor_array ps)))"

definition eacceptor_receive :: "(buffer \<Rightarrow> exn + result) \<Rightarrow> buffer \<Rightarrow> (result, eacceptor) comp" where
  "eacceptor_receive reply m s =
     (let ac = (\<lambda>ps. p_str ''acceptor'' # p_str (ea_tag s) # ps) in
      on_match m (ac [p_str ''accept'', x_int]) (\<lambda>xs.
        bindS (start_op (Start_connection (int_at xs 0))) (\<lambda>_. returnS ok))
     (on_match m (ac [p_str ''closed'']) (\<lambda>xs. returnS (exit_result ''closed'' []))
     (on_match m (ac [p_str ''error'', x_int, x_str]) (\<lambda>xs.
        returnS (exit_result ''listen_error'' [P_str (str_at xs 1)]))
     (on_match m [p_str ''ping''] (\<lambda>xs. answer reply [P_str ''pong''])
     (on_match m [p_str ''get'', p_str (ea_get s)] (\<lambda>xs. answer reply [P_str (ea_get s), ea_value s])
     (bindS (liftS (is_exit_msg m)) (\<lambda>e.
        if e then bindS (start_op Acceptor_close) (\<lambda>_. returnS ok) else liftS (unexpected m)))))))) s"

section \<open>Starting\<close>

text \<open>
  The behaviours of the three actors as programs of the actor core; \<open>r\<close> is the receiver, a function
  object around the object's \<open>receive\<close>.
\<close>

definition connection_start ::
    "handle \<Rightarrow> string \<Rightarrow> (handle \<Rightarrow> buffer \<Rightarrow> ('t, 'u) prog) \<Rightarrow> (error + handle \<Rightarrow> ('t, 'u) prog) \<Rightarrow> ('t, 'u) prog" where
  "connection_start owner tag r k =
     Spawn (Link owner (Set_trap True (\<lambda>_. Receive (Some r) (Ret ok)))) tag None k"

definition linked_start ::
    "string \<Rightarrow> (handle \<Rightarrow> handle \<Rightarrow> buffer \<Rightarrow> ('t, 'u) prog) \<Rightarrow> (error + handle \<Rightarrow> ('t, 'u) prog) \<Rightarrow> ('t, 'u) prog" where
  "linked_start tag r k =
     Self (\<lambda>owner. Spawn_link (Set_trap True (\<lambda>_. Receive (Some (r owner)) (Ret ok))) tag None k)"

text \<open>
  The actors of the two transports: the objects with their tags, and the functions that start them.
  The receivers are those above; the transport is in the object (\<open>ec_unx\<close>, \<open>ea_get\<close>).
\<close>

definition tcp_endpoint_connector :: "u64 \<Rightarrow> u64 \<Rightarrow> econnector" where
  "tcp_endpoint_connector = econnector_new ''endpoint::tcp::connector'' False"

definition unx_endpoint_connector :: "u64 \<Rightarrow> u64 \<Rightarrow> econnector" where
  "unx_endpoint_connector = econnector_new ''endpoint::unx::connector'' True"

definition tcp_endpoint_acceptor :: "u16 \<Rightarrow> eacceptor" where
  "tcp_endpoint_acceptor port = eacceptor_new ''endpoint::tcp::acceptor'' ''port'' (P_uint (ucast port))"

definition unx_endpoint_acceptor :: "string \<Rightarrow> eacceptor" where
  "unx_endpoint_acceptor path = eacceptor_new ''endpoint::unx::acceptor'' ''path'' (P_str path)"

definition unx_econnector_receive :: "(buffer \<Rightarrow> exn + result) \<Rightarrow> buffer \<Rightarrow> (result, econnector) comp" where
  "unx_econnector_receive = econnector_receive"

definition unx_eacceptor_receive :: "(buffer \<Rightarrow> exn + result) \<Rightarrow> buffer \<Rightarrow> (result, eacceptor) comp" where
  "unx_eacceptor_receive = eacceptor_receive"

definition endpoint_tcp_listen ::
    "(handle \<Rightarrow> handle \<Rightarrow> buffer \<Rightarrow> ('t, 'u) prog) \<Rightarrow> (error + handle \<Rightarrow> ('t, 'u) prog) \<Rightarrow> ('t, 'u) prog" where
  "endpoint_tcp_listen = linked_start ''endpoint::tcp::acceptor''"

definition endpoint_unx_connect ::
    "(handle \<Rightarrow> handle \<Rightarrow> buffer \<Rightarrow> ('t, 'u) prog) \<Rightarrow> (error + handle \<Rightarrow> ('t, 'u) prog) \<Rightarrow> ('t, 'u) prog" where
  "endpoint_unx_connect = linked_start ''endpoint::unx::connector''"

definition endpoint_unx_listen ::
    "(handle \<Rightarrow> handle \<Rightarrow> buffer \<Rightarrow> ('t, 'u) prog) \<Rightarrow> (error + handle \<Rightarrow> ('t, 'u) prog) \<Rightarrow> ('t, 'u) prog" where
  "endpoint_unx_listen = linked_start ''endpoint::unx::acceptor''"

end
