(* ===== verification/Endpoint_Props.thy ===== *)
theory Endpoint_Props
  imports Endpoint Socket
begin

text \<open>
  Properties of endpoints: the bytes of a stream are cut into the same messages however they arrive,
  the connector's attempts and delays, and what a connection does with the messages it is sent.
\<close>

section \<open>Frames\<close>

text \<open>Decoders that fail only with a \<open>domain_error\<close>.\<close>

definition domain_at :: "'a decoder \<Rightarrow> buffer \<Rightarrow> bool" where
  "domain_at d b \<longleftrightarrow> (\<forall>e. d b = Inl e \<longrightarrow> (\<exists>w. e = Domain_error w))"

lemma domain_at_bind [intro]:
  "domain_at d b \<Longrightarrow> (\<And>v b'. d b = Inr (v, b') \<Longrightarrow> domain_at (f v) b') \<Longrightarrow>
     domain_at (\<lambda>b. bindE (d b) (\<lambda>(v, b). f v b)) b"
  by (cases "d b") (auto simp: domain_at_def)

lemma domain_at_simps [simp, intro]:
  "domain_at (\<lambda>b. Inr (v, b)) b" "domain_at (\<lambda>b. Inl (Domain_error w)) b"
  by (simp_all add: domain_at_def)

lemma domain_at_if [intro]: "domain_at d b \<Longrightarrow> domain_at d' b \<Longrightarrow> domain_at (\<lambda>b. if P then d b else d' b) b"
  by (cases P) simp_all

lemma domain_at_cong: "(\<And>b. d b = d' b) \<Longrightarrow> domain_at d' b \<Longrightarrow> domain_at d b"
  by (simp add: domain_at_def)

lemma domain_int_recurse: "domain_at (\<lambda>b. decode_int_length_recurse len b i) b"
  by (induction len b i rule: decode_int_length_recurse.induct) (simp_all add: domain_at_def too_short_def Let_def)

lemma domain_pint [intro]: "domain_at (decode_pint ty) b"
  using domain_int_recurse by (auto simp: domain_at_def decode_pint_def decode_int_length_def)

lemma domain_nint [intro]: "domain_at (decode_nint ty) b"
  by (rule domain_at_cong [OF decode_nint_def]) auto

lemma domain_advance [intro]: "domain_at (advance len) b"
  by (induction len b rule: advance.induct) (auto simp: domain_at_def too_short_def)

lemma domain_skip_string [intro]: "domain_at (skip_string ty) b"
  by (rule domain_at_cong [OF skip_string_def]) auto

lemma domain_type [intro]: "domain_at decode_type b"
  by (auto simp: domain_at_def decode_type_def too_short_def split: list.splits)

lemma domain_skip:
  "domain_at (skip_value_type major minor) b" "domain_at skip_value b" "domain_at (skip_array ty) b"
  "domain_at (skip_map ty2) b" "domain_at (skip_values len) b"
proof (induction major minor b and b and ty b and ty2 b and len b
    rule: skip_value_type_skip_value_skip_array_skip_map_skip_values.induct)
  case (1 major minor b)
  have bytes: "domain_at (skip_bytes minor) b"
    by (rule domain_at_cong [OF _ domain_skip_string]) (simp add: skip_bytes_def)
  have one: "domain_at (\<lambda>b. bindE (decode_pint minor b) (\<lambda>(_, b). Inr ((), b))) b"
    "domain_at (\<lambda>b. bindE (decode_nint minor b) (\<lambda>(_, b). Inr ((), b))) b" by auto
  show ?case
    by (rule domain_at_cong [OF skip_value_type.simps])
      (use 1 bytes one domain_skip_string [of minor b] in \<open>auto simp: domain_at_def\<close>)
next
  case (2 b)
  show ?case
    by (rule domain_at_cong [OF skip_value.simps]) (auto intro!: domain_at_bind domain_type 2)
next
  case (3 ty b)
  show ?case by (rule domain_at_cong [OF skip_array.simps]) (intro domain_at_bind domain_pint 3, auto)
next
  case (4 ty b)
  show ?case by (rule domain_at_cong [OF skip_map.simps]) (intro domain_at_bind domain_pint 4, auto)
next
  case (5 len b)
  show ?case
  proof (cases "len = 0")
    case False
    then have "domain_at (\<lambda>b. bindE (skip_value b) (\<lambda>(_, b). skip_values (len - 1) b)) b"
      using 5 by (intro domain_at_bind) auto
    with False show ?thesis by (intro domain_at_cong [OF skip_values.simps]) (simp add: domain_at_def)
  qed (simp add: domain_at_def skip_values.simps)
qed

text \<open>\<open>match_type\<close> is \<open>skip_value\<close> with the type of what it skipped.\<close>

lemma match_type_skip:
  "match_type b = Inr ((k, t), b') \<Longrightarrow> skip_value b = Inr ((), b')"
  "match_type b = Inl e \<longleftrightarrow> skip_value b = Inl e"
  "skip_value b = Inr ((), b') \<Longrightarrow> \<exists>k t. match_type b = Inr ((k, t), b') \<and> (\<forall>c. match_type (b @ c) = Inr ((k, t), b' @ c))"
proof -
  show "match_type b = Inr ((k, t), b') \<Longrightarrow> skip_value b = Inr ((), b')"
    by (auto simp: match_type_def skip_value.simps bindE_eq_Inr split: if_splits)
  show "match_type b = Inl e \<longleftrightarrow> skip_value b = Inl e"
    by (auto simp: match_type_def skip_value.simps bindE_def split: sum.splits prod.splits if_splits)
  assume "skip_value b = Inr ((), b')"
  then obtain major minor ty d where d: "decode_type b = Inr ((major, minor, ty), d)"
      "skip_value_type major minor d = Inr ((), b')"
    by (auto simp: skip_value.simps bindE_eq_Inr)
  have "decode_type (b @ c) = Inr ((major, minor, ty), d @ c)" for c by (rule dtype.extend [OF d(1)])
  moreover have "skip_value_type major minor (d @ c) = Inr ((), b' @ c)" for c
    using skip_stable(1) [of major minor d] d(2) by (simp add: stable_at_def)
  ultimately show "\<exists>k t. match_type b = Inr ((k, t), b') \<and> (\<forall>c. match_type (b @ c) = Inr ((k, t), b' @ c))"
    using d by (auto simp: match_type_def)
qed

interpretation frame: progress_decoder extract_range
proof (unfold_locales, rule stable_atI)
  fix b v b' c
  assume r: "extract_range b = Inr (v, b')"
  then obtain k t where m: "match_type b = Inr ((k, t), b')"
    by (auto simp: extract_range_def bindE_eq_Inr split: if_splits)
  from match_type_skip(1) [OF m] have s: "skip_value b = Inr ((), b')" .
  then show p: "\<exists>p. b = p @ b'" by (rule skip.suffix)
  have "match_type (b @ c) = Inr ((k, t), b' @ c)" using match_type_skip(3) [OF s] m by auto
  with r m p show "extract_range (b @ c) = Inr (v, b' @ c)" by (auto simp: extract_range_def)
next
  fix b e c
  assume r: "extract_range b = Inl e" "e \<noteq> too_short"
  then have "match_type b = Inl e" by (auto simp: extract_range_def bindE_def split: sum.splits prod.splits if_splits)
  then have "skip_value b = Inl e" by (simp add: match_type_skip(2))
  from skip.error_stable [OF this r(2)] have "match_type (b @ c) = Inl e" by (simp add: match_type_skip(2))
  then show "extract_range (b @ c) = Inl e" by (simp add: extract_range_def)
next
  fix b v b'
  assume "extract_range b = Inr (v, b')"
  then show "length b' < length b" by (rule extract_range_shrinks)
qed

lemma extract_range_domain: "extract_range b = Inl e \<Longrightarrow> \<exists>w. e = Domain_error w"
proof -
  assume "extract_range b = Inl e"
  then have "match_type b = Inl e" by (auto simp: extract_range_def bindE_def split: sum.splits prod.splits if_splits)
  then show ?thesis using domain_skip(2) [of b] by (simp add: match_type_skip(2) domain_at_def)
qed

text \<open>
  The complete values at the front of a buffer, each with whether it is an array, map or null, and
  the bytes that remain.
\<close>

function frames :: "buffer \<Rightarrow> (bool \<times> buffer) list \<times> buffer" where
  "frames b = (case extract_range b of Inl _ \<Rightarrow> ([], b)
     | Inr (r, rest) \<Rightarrow> (case frames rest of (fs, q) \<Rightarrow>
         ((r \<noteq> None, take (length b - length rest) b) # fs, q)))"
  by pat_completeness auto
termination frames
  by (relation "measure length") (auto dest: extract_range_shrinks)

declare frames.simps [simp del]

text \<open>How the bytes are cut does not depend on how they arrive.\<close>

lemma frames_append:
  "frames (x @ y) = (case frames x of (fs, q) \<Rightarrow> (case frames (q @ y) of (gs, q') \<Rightarrow> (fs @ gs, q')))"
proof (induction x rule: frames.induct)
  case (1 x)
  show ?case
  proof (cases "extract_range x")
    case (Inl e)
    then show ?thesis by (simp add: frames.simps [of x] split: prod.splits)
  next
    case (Inr z)
    then obtain r rest where z: "extract_range x = Inr (r, rest)" by (cases z) auto
    have e: "extract_range (x @ y) = Inr (r, rest @ y)" by (rule frame.extend [OF z])
    obtain p where p: "x = p @ rest" using frame.suffix [OF z] by blast
    then have "take (length (x @ y) - length (rest @ y)) (x @ y) = take (length x - length rest) x" by simp
    then show ?thesis
      using 1 [OF z refl] by (simp add: frames.simps [of x] frames.simps [of "x @ y"] z e split: prod.splits)
  qed
qed

lemma frames_values:
  assumes "\<forall>v \<in> set vs. wf_cval v \<and> type_of v \<in> {Type_null, Type_array, Type_map}"
  shows "frames (concat (map enc vs) @ p) = (case frames p of (fs, q) \<Rightarrow> (map (\<lambda>v. (True, enc v)) vs @ fs, q))"
  using assms
proof (induction vs)
  case (Cons v vs)
  then have "reads extract_range v (Some (enc v))" using reads_extract_range [of v] by auto
  then have "extract_range (enc v @ concat (map enc vs) @ p) = Inr (Some (enc v), concat (map enc vs) @ p)"
    by (auto simp: reads_def)
  with Cons show ?case
    by (simp add: frames.simps [of "enc v @ concat (map enc vs) @ p"] split: prod.splits)
qed (simp split: prod.splits)

text \<open>A part of a value, not all of it, has no frame.\<close>

definition partial :: "buffer \<Rightarrow> bool" where
  "partial p \<longleftrightarrow> p = [] \<or> (\<exists>v c. wf_cval v \<and> enc v = p @ c \<and> c \<noteq> [])"

lemma frames_partial: "partial p \<Longrightarrow> frames p = ([], p)"
proof -
  assume "partial p"
  then consider "p = []" | v c where "wf_cval v" "enc v = p @ c" "c \<noteq> []" by (auto simp: partial_def)
  then have "\<exists>e. extract_range p = Inl e"
  proof cases
    case 1
    then show ?thesis using frame.empty_fails by (cases "extract_range p") auto
  next
    case 2
    have "skip_value (p @ c) = Inr ((), [])" using skip_value_enc [OF 2(1), of "[]"] 2(2) by simp
    from skip.partial_too_short [OF this 2(3)] have "match_type p = Inl too_short"
      by (simp add: match_type_skip(2))
    then show ?thesis by (simp add: extract_range_def)
  qed
  then show ?thesis by (auto simp: frames.simps [of p])
qed

section \<open>Reassembly\<close>

definition frame_msgs :: "bool \<times> buffer \<Rightarrow> buffer list" where
  "frame_msgs f = (if fst f then [] else [cbor_array [P_str ''exit'', P_str ''framing_error'']]) @ [snd f]"

abbreviation accepting where "accepting \<equiv> \<lambda>_. Inr ok :: exn + result"

lemma conn_close_simps [simp]:
  "fst (conn_close s) = Inr ()" "cn_read_buf (snd (conn_close s)) = cn_read_buf s"
  "owner_msgs (io_log (snd (conn_close s))) = owner_msgs (io_log s)"
  by (simp_all add: conn_close_def bindS_def conn_trace_def)

lemma conn_deliver_frames:
  assumes "cn_read_buf s = buf" "frames buf = (fs, q)"
  shows "\<exists>s'. conn_deliver accepting buf s = (Inr (), s') \<and> cn_read_buf s' = q
    \<and> owner_msgs (io_log s') = owner_msgs (io_log s) @ concat (map frame_msgs fs)"
  using assms
proof (induction buf arbitrary: s fs q rule: frames.induct)
  case (1 b)
  show ?case
  proof (cases "extract_range b")
    case (Inl e)
    then obtain w where "e = Domain_error w" using extract_range_domain by blast
    with Inl have "conn_deliver accepting b s = (Inr (), s)" by (simp add: conn_deliver.simps [of _ b])
    moreover have "fs = []" "q = b" using Inl 1(3) by (simp_all add: frames.simps [of b])
    ultimately show ?thesis using 1(2) by simp
  next
    case (Inr z)
    then obtain r rest where z: "extract_range b = Inr (r, rest)" by (cases z) auto
    then have ne: "b \<noteq> []" using frame.empty_fails by auto
    obtain gs where gs: "frames rest = (gs, q)" "fs = (r \<noteq> None, take (length b - length rest) b) # gs"
      using 1(3) z by (auto simp: frames.simps [of b] split: prod.splits)
    let ?s1 = "if r = None then snd (bindS (owner_exit [P_str ''framing_error'']) (\<lambda>_. conn_close) s) else s"
    let ?s2 = "(snd (emit (To_owner (take (length b - length rest) b)) ?s1))\<lparr>cn_read_buf := rest\<rparr>"
    have "conn_deliver accepting b s = conn_deliver accepting rest ?s2"
      by (simp add: conn_deliver.simps [of _ b] z ne ok_def Let_def)
    moreover have "owner_msgs (io_log ?s2) = owner_msgs (io_log s) @ frame_msgs (r \<noteq> None, take (length b - length rest) b)"
      by (auto simp: frame_msgs_def owner_exit_def bindS_def)
    ultimately show ?thesis using 1(1) [OF z refl, of ?s2 gs q] gs by simp
  qed
qed

lemma conn_data_frames:
  assumes "data \<noteq> []" "frames (cn_read_buf s @ data) = (fs, q)"
  shows "\<exists>s'. conn_data accepting data s = (Inr (), s') \<and> cn_read_buf s' = q
    \<and> owner_msgs (io_log s') = owner_msgs (io_log s) @ concat (map frame_msgs fs)"
proof -
  let ?s = "s\<lparr>cn_read_buf := cn_read_buf s @ data\<rparr>"
  obtain t where "conn_deliver accepting (cn_read_buf s @ data) ?s = (Inr (), t)" "cn_read_buf t = q"
      "owner_msgs (io_log t) = owner_msgs (io_log s) @ concat (map frame_msgs fs)"
    using conn_deliver_frames [of ?s "cn_read_buf s @ data" fs q] assms(2) by auto
  with assms(1) show ?thesis by (simp add: conn_data_def bindS_def conn_read_def conn_trace_def)
qed

lemma conn_chunks:
  assumes "[] \<notin> set chunks" "frames (cn_read_buf s) = ([], cn_read_buf s)"
    "frames (cn_read_buf s @ concat chunks) = (fs, q)"
    "s' = fold (\<lambda>d s. snd (conn_data accepting d s)) chunks s"
  shows "cn_read_buf s' = q \<and> owner_msgs (io_log s') = owner_msgs (io_log s) @ concat (map frame_msgs fs)"
  using assms
proof (induction chunks arbitrary: s fs)
  case (Cons d ds)
  obtain gs r where gs: "frames (cn_read_buf s @ d) = (gs, r)" by fastforce
  obtain hs q' where hs: "frames (r @ concat ds) = (hs, q')" by fastforce
  have fs: "fs = gs @ hs" "q' = q"
    using Cons.prems(3) frames_append [of "cn_read_buf s @ d" "concat ds"] gs hs by simp_all
  have rr: "frames r = ([], r)"
    using frames_append [of "cn_read_buf s @ d" "[]"] gs by (cases "frames r") auto
  have "d \<noteq> []" using Cons.prems(1) by auto
  from conn_data_frames [OF this gs] obtain t where t: "conn_data accepting d s = (Inr (), t)"
      "cn_read_buf t = r" "owner_msgs (io_log t) = owner_msgs (io_log s) @ concat (map frame_msgs gs)" by blast
  have "[] \<notin> set ds" using Cons.prems(1) by simp
  from Cons.IH [OF this, of t hs] t rr hs fs Cons.prems(4) show ?case by simp
qed simp

lemma connection_cuts:
  assumes "\<forall>v \<in> set vs. wf_cval v \<and> type_of v \<in> {Type_null, Type_array, Type_map}" "partial p"
    "[] \<notin> set chunks" "concat chunks = concat (map enc vs) @ p"
    "s' = fold (\<lambda>d s. snd (conn_data (\<lambda>_. Inr ok) d s)) chunks (connection_new traced tag)"
  shows "owner_msgs (io_log s') = map enc vs \<and> cn_read_buf s' = p"
proof -
  let ?s = "connection_new traced tag"
  have s: "cn_read_buf ?s = []" "owner_msgs (io_log ?s) = []"
    by (simp_all add: connection_new_def conn_read_def conn_trace_def bindS_def)
  have e: "frames [] = ([], [])" by (rule frames_partial) (simp add: partial_def)
  have f: "frames (concat chunks) = (map (\<lambda>v. (True, enc v)) vs, p)"
    using frames_values [OF assms(1), of p] frames_partial [OF assms(2)] assms(4) by simp
  have "concat (map frame_msgs (map (\<lambda>v. (True, enc v)) vs)) = map enc vs"
    by (induction vs) (simp_all add: frame_msgs_def)
  with conn_chunks [OF assms(3) _ _ assms(5)] s e f show ?thesis by simp
qed

text \<open>
  C4. A connection cuts the bytes it reads back into the messages the peer sent, however the network
  splits or joins them: after any non-empty pieces that together make up the encodings of messages
  followed by a part of the next one, the owner has been sent exactly these messages in order, and
  the connection keeps exactly the incomplete rest.
\<close>

theorem connection_reassembles:
  assumes "\<forall>v \<in> set vs. wf_cval v \<and> type_of v \<in> {Type_null, Type_array, Type_map}" "partial p"
    "[] \<notin> set chunks" "concat chunks = concat (map enc vs) @ p"
    "s' = fold (\<lambda>d s. snd (conn_data (\<lambda>_. Inr ok) d s)) chunks (connection_new traced tag)"
  shows "owner_msgs (io_log s') = map enc vs \<and> cn_read_buf s' = p"
  using connection_cuts [OF assms] .

theorem connection_reassembles_witness:
  "owner_msgs (io_log (fold (\<lambda>d s. snd (conn_data (\<lambda>_. Inr ok) d s)) [[0x82, 0x01], [0x02, 0x81], [0x03], [0x82]]
     (connection_new False ''t''))) = [[0x82, 0x01, 0x02], [0x81, 0x03]]"
proof -
  have e: "enc (V_arr [V_uint 1, V_uint 2]) = [0x82, 0x01, 0x02]" "enc (V_arr [V_uint 3]) = [0x81, 0x03]"
    by code_simp+
  have "partial [0x82]" unfolding partial_def using e(1)
    by (intro disjI2 exI [of _ "V_arr [V_uint 1, V_uint 2]"] exI [of _ "[0x01, 0x02]"]) (simp del: enc.simps)
  from connection_reassembles [OF _ this _ _ refl,
      of "[V_arr [V_uint 1, V_uint 2], V_arr [V_uint 3]]" "[[0x82, 0x01], [0x02, 0x81], [0x03], [0x82]]" False "''t''"]
    e show ?thesis by (simp del: enc.simps)
qed

text \<open>
  Bytes that are not CBOR stall a connection for good: once the buffered bytes fail to decode for
  another reason than being incomplete, nothing that arrives later is ever passed on, and the owner
  is not told.
\<close>

theorem malformed_input_stalls:
  assumes "extract_range (cn_read_buf s) = Inl e" "e \<noteq> Domain_error ''cbor message too short''"
    "[] \<notin> set chunks" "s' = fold (\<lambda>d s. snd (conn_data (\<lambda>_. Inr ok) d s)) chunks s"
  shows "owner_msgs (io_log s') = owner_msgs (io_log s) \<and> cn_read_buf s' = cn_read_buf s @ concat chunks"
proof -
  have "extract_range (cn_read_buf s @ c) = Inl e" for c
    by (rule frame.error_stable [OF assms(1)]) (use assms(2) in \<open>simp add: too_short_def\<close>)
  then have f: "frames (cn_read_buf s @ c) = ([], cn_read_buf s @ c)" for c
    by (simp add: frames.simps [of "cn_read_buf s @ c"])
  from conn_chunks [OF assms(3) _ f assms(4)] f [of "[]"] show ?thesis by simp
qed

theorem malformed_input_stalls_witness:
  "owner_msgs (io_log (fold (\<lambda>d s. snd (conn_data (\<lambda>_. Inr ok) d s)) [[0x81, 0x01]]
     ((connection_new False ''t'')\<lparr>cn_read_buf := [0xC0]\<rparr>))) = []"
proof -
  have e: "extract_range [0xC0] = Inl (Domain_error ''cbor unsupported type tag'')" by code_simp
  let ?s = "(connection_new False ''t'')\<lparr>cn_read_buf := [0xC0]\<rparr>"
  have r: "extract_range (cn_read_buf ?s) = Inl (Domain_error ''cbor unsupported type tag'')" using e by simp
  have "owner_msgs (io_log ?s) = []" by (simp add: connection_new_def conn_read_def conn_trace_def bindS_def)
  with malformed_input_stalls [OF r _ _ refl, of "[[0x81, 0x01]]"] show ?thesis by simp
qed

section \<open>Messages between the objects\<close>

lemma sint_of_nat_small: "n < 2 ^ 31 \<Longrightarrow> sint (of_nat n :: u64) = int n"
  by (simp add: signed_of_nat signed_take_bit_int_eq_self)

lemma small_count: "n < 2 ^ 31 \<Longrightarrow> int_of_cval (V_uint (of_nat n)) = Some (of_nat n) \<and> in_int_range 32 (of_nat n)"
  by (simp add: word_sless_alt sint_of_nat_small in_int_range_def)

text \<open>What the socket reports is what the connection acts on.\<close>

lemma connection_read_message:
  assumes "length tag < 2 ^ 64" "length data < 2 ^ 64" "cn_tag s = tag"
  shows "connection_receive reply (cbor_array [P_str ''socket'', P_str tag, P_str ''read_complete'', P_str data]) s
    = bindS (conn_data reply (bytes_of data)) (\<lambda>_. returnS ok) s"
  using assms by (simp add: connection_receive_def Let_def on_match_parms str_at_def)

lemma connection_write_message:
  assumes "length tag < 2 ^ 64" "n < 2 ^ 31" "cn_tag s = tag"
  shows "connection_receive reply (cbor_array [P_str ''socket'', P_str tag, P_str ''write_complete'', P_uint (of_nat n)]) s
    = bindS (modifyS (\<lambda>s. s\<lparr>cn_write_pending := False\<rparr>)) (\<lambda>_ s.
        bindS (if cn_close_on_write_complete s then conn_close else returnS ()) (\<lambda>_. returnS ok) s) s"
  using assms small_count [OF assms(2)]
  by (simp add: connection_receive_def Let_def on_match_parms bindS_def)

lemma connector_error_message:
  assumes "length tag < 2 ^ 64" "length (ec_message ec) < 2 ^ 64" "ec_value ec = of_nat n" "n < 2 ^ 31" "ec_tag s = tag"
  shows "econnector_receive reply (cbor_array ([P_str ''connector'', P_str tag, P_str ''error''] @ ec_parms ec)) s
    = connector_error (ec_message ec) s"
proof -
  have "\<not> (of_nat n :: u64) <s 0" using small_count [OF assms(4)] by (auto split: if_splits)
  with assms small_count [OF assms(4)] show ?thesis
    by (simp add: econnector_receive_def Let_def on_match_parms ec_parms_def str_at_def)
qed

text \<open>
  When the owner of a connector is gone, the Unix connector closes the descriptor it was given; the
  TCP one returns with the descriptor still open.
\<close>

lemma connected_to_dead_owner:
  assumes "reply (cbor_array [P_str ''connected'']) = Inr (Inl e)" "length (ec_tag s) < 2 ^ 64" "n < 2 ^ 31"
    "m = cbor_array [P_str ''connector'', P_str (ec_tag s), P_str ''connected'', P_int (of_nat n)]"
  shows "fst (econnector_receive reply m s) = Inr (Inl e)
    \<and> started (io_log (snd (econnector_receive reply m s))) = started (io_log s)
        @ (if ec_unx s then [E_timeout_cancel, E_close_fd (of_nat n)] else [])"
proof -
  have "\<not> (of_nat n :: u64) <s 0" using small_count [OF assms(3)] by (auto split: if_splits)
  with assms small_count [OF assms(3)] show ?thesis
    by (simp add: econnector_receive_def Let_def on_match_parms bindS_def int_at_def)
qed

text \<open>
  A connection that has written a message and is then told to exit closes its socket when the first
  write completes: the socket is closed while the exit message is still queued.
\<close>

definition conn_after :: "buffer list \<Rightarrow> connection" where
  "conn_after ms = fold (\<lambda>m s. snd (connection_receive (\<lambda>_. Inr ok) m s)) ms (connection_new False ''t'')"

lemma exit_message_not_flushed:
  "started (io_log (conn_after [[0x81, 0x01], exit_message ''bye'' [],
       cbor_array [P_str ''socket'', P_str ''t'', P_str ''write_complete'', P_uint 2]]))
     = [C_read, C_write [0x81, 0x01], C_write (exit_message ''bye'' []), C_close]"
  "started (io_log (fst (fold sock_event
       [Inl [0x81, 0x01], Inl (exit_message ''bye'' []), Inr (2, [Call_close], ok)] (socket_create ''t'', [], []))))
     = [Sock_write [0x81, 0x01], Sock_close, Sock_write (exit_message ''bye'' [])]"
  by code_simp+

section \<open>Retries\<close>

lemma of_nat_less_u64: "m < 2 ^ 64 \<Longrightarrow> k < 2 ^ 64 \<Longrightarrow> (of_nat m :: u64) < of_nat k \<longleftrightarrow> m < k"
  by (simp add: word_less_nat_alt unat_of_nat)

text \<open>
  One failure: the connector is told of an error, with its code and text, and later, when the timer has
  expired, to retry.
\<close>

definition error_parms :: "string \<Rightarrow> nat \<times> string \<Rightarrow> parm list" where
  "error_parms tag e = [P_str ''connector'', P_str tag, P_str ''error'', P_int (of_nat (fst e)), P_str (snd e)]"

definition retry_parms :: "string \<Rightarrow> parm list" where
  "retry_parms tag = [P_str ''connector'', P_str tag, P_str ''retry'']"

fun after_failures :: "(buffer \<Rightarrow> exn + result) \<Rightarrow> (nat \<times> string) list \<Rightarrow> econnector \<Rightarrow> econnector" where
  "after_failures reply [] s = s"
| "after_failures reply (e # es) s =
     (let s = snd (econnector_receive reply (cbor_array (error_parms (ec_tag s) e)) s);
          s = snd (econnector_receive reply (cbor_array (retry_parms (ec_tag s))) s)
      in after_failures reply es s)"

definition plain_error :: "nat \<times> string \<Rightarrow> bool" where
  "plain_error e \<longleftrightarrow> fst e < 2 ^ 31 \<and> length (snd e) < 2 ^ 64"

lemma receive_error:
  assumes "length (ec_tag s) < 2 ^ 64" "plain_error e"
  shows "econnector_receive reply (cbor_array (error_parms (ec_tag s) e)) s = connector_error (snd e) s"
  using connector_error_message [of "ec_tag s" "\<lparr>ec_value = of_nat (fst e), ec_message = snd e\<rparr>" "fst e" s reply] assms
  by (simp add: plain_error_def error_parms_def ec_parms_def)

lemma receive_retry:
  assumes "length tag < 2 ^ 64" "ec_tag s = tag"
  shows "econnector_receive reply (cbor_array (retry_parms tag)) s = bindS (start_op E_connect) (\<lambda>_. returnS ok) s"
  using assms by (simp add: econnector_receive_def retry_parms_def Let_def on_match_parms)

text \<open>The connector before failure number \<open>k + 1\<close>.\<close>

definition retrying :: "nat \<Rightarrow> u64 \<Rightarrow> u64 \<Rightarrow> econnector \<Rightarrow> bool" where
  "retrying k t n s \<longleftrightarrow> ec_connection_count s = of_nat k + 1 \<and> ec_retry_time s = t * 2 ^ k \<and> ec_retry_count s = n"

lemma one_failure:
  assumes "retrying k t (of_nat n) s" "k < n" "n < 2 ^ 64 - 1" "length (ec_tag s) < 2 ^ 64" "plain_error e"
    "s' = after_failures reply [e] s"
  shows "retrying (Suc k) t (of_nat n) s' \<and> ec_tag s' = ec_tag s
    \<and> started (io_log s') = started (io_log s) @ [E_timeout (sint (t * 2 ^ k)), E_connect]"
proof -
  have "\<not> (of_nat n :: u64) < of_nat k + 1"
    using assms(2,3) of_nat_less_u64 [of n "Suc k"] by (simp add: add.commute)
  then show ?thesis
    using assms(1,4-6)
    by (simp add: retrying_def receive_error receive_retry connector_error_def bindS_def Let_def mult_ac)
qed

lemma failures_state:
  assumes "retrying k t (of_nat n) s" "k + length es \<le> n" "n < 2 ^ 64 - 1" "length (ec_tag s) < 2 ^ 64"
    "list_all plain_error es"
  shows "retrying (k + length es) t (of_nat n) (after_failures reply es s)
    \<and> ec_tag (after_failures reply es s) = ec_tag s
    \<and> started (io_log (after_failures reply es s)) = started (io_log s)
        @ concat (map (\<lambda>i. [E_timeout (sint (t * 2 ^ i)), E_connect]) [k..<k + length es])"
  using assms
proof (induction es arbitrary: k s)
  case (Cons e es)
  let ?s = "after_failures reply [e] s"
  have "k < n" "plain_error e" "list_all plain_error es" using Cons.prems(2,5) by simp_all
  with one_failure [OF Cons.prems(1) _ Cons.prems(3,4) _ refl, of e reply]
  have 1: "retrying (Suc k) t (of_nat n) ?s" "ec_tag ?s = ec_tag s"
    "started (io_log ?s) = started (io_log s) @ [E_timeout (sint (t * 2 ^ k)), E_connect]" by blast+
  have "Suc k + length es \<le> n" "length (ec_tag ?s) < 2 ^ 64" using Cons.prems(2,4) 1(2) by simp_all
  from Cons.IH [OF 1(1) this(1) Cons.prems(3) this(2) \<open>list_all plain_error es\<close>] 1(2,3)
  have "retrying (Suc k + length es) t (of_nat n) (after_failures reply es ?s)
    \<and> ec_tag (after_failures reply es ?s) = ec_tag s
    \<and> started (io_log (after_failures reply es ?s)) = started (io_log s) @ [E_timeout (sint (t * 2 ^ k)), E_connect]
        @ concat (map (\<lambda>i. [E_timeout (sint (t * 2 ^ i)), E_connect]) [Suc k..<Suc k + length es])"
    by simp
  moreover have "after_failures reply (e # es) s = after_failures reply es ?s" by (simp add: Let_def)
  moreover have "[k..<k + length (e # es)] = k # [Suc k..<Suc k + length es]" by (simp add: upt_rec)
  ultimately show ?case by simp
qed simp

lemma sint_doubled:
  assumes "0 \<le> t" "t * 2 ^ n < 2 ^ 63" "i \<le> n"
  shows "sint (word_of_int t * 2 ^ i :: u64) = t * 2 ^ i"
proof -
  have "(2 :: int) ^ i \<le> 2 ^ n" using assms(3) by simp
  then have "t * 2 ^ i < 2 ^ 63" using assms(1,2) by (meson le_less_trans mult_left_mono)
  moreover have "word_of_int t * 2 ^ i = (word_of_int (t * 2 ^ i) :: u64)" by simp
  moreover have "0 \<le> t * 2 ^ i" using assms(1) by simp
  ultimately show ?thesis by (simp only: signed_of_int) (simp add: signed_take_bit_int_eq_self)
qed

text \<open>
  C37. A connector with retry count \<open>n\<close> connects once and retries up to \<open>n\<close> times. Each of the first \<open>n\<close>
  error messages of the connection attempt starts a timer, of twice the time of the one before, and the
  message of the timer starts the next attempt; error number \<open>n + 1\<close> ends the connector with
  \<open>connect_error\<close> and the text of the error. The times are below the overflow of 64-bit milliseconds.
\<close>

theorem connector_retries:
  assumes "length es \<le> n" "n < 2 ^ 64 - 1" "0 \<le> t" "t * 2 ^ n < 2 ^ 63" "length tag < 2 ^ 64"
    "list_all plain_error (e # es)"
    "s' = after_failures reply es (econnector_new tag unx (word_of_int t) (of_nat n))"
  shows "started (io_log s') = E_connect # concat (map (\<lambda>i. [E_timeout (t * 2 ^ i), E_connect]) [0..<length es])
    \<and> fst (econnector_receive reply (cbor_array (error_parms tag e)) s')
      = Inr (if length es < n then ok else exit_result ''connect_error'' [P_str (snd e)])"
proof -
  let ?s = "econnector_new tag unx (word_of_int t) (of_nat n)"
  have "retrying 0 (word_of_int t) (of_nat n) ?s" by (simp add: retrying_def econnector_new_def)
  from failures_state [OF this, of es reply] assms
  have f: "retrying (length es) (word_of_int t) (of_nat n) s'" "ec_tag s' = tag"
    "started (io_log s') = E_connect # concat (map (\<lambda>i. [E_timeout (sint (word_of_int t * 2 ^ i :: u64)), E_connect]) [0..<length es])"
    by (simp_all add: econnector_new_def)
  have "map (\<lambda>i. [E_timeout (sint (word_of_int t * 2 ^ i :: u64)), E_connect]) [0..<length es]
      = map (\<lambda>i. [E_timeout (t * 2 ^ i), E_connect]) [0..<length es]"
    using sint_doubled [OF assms(3,4)] assms(1) by simp
  then have st: "started (io_log s') = E_connect # concat (map (\<lambda>i. [E_timeout (t * 2 ^ i), E_connect]) [0..<length es])"
    using f(3) by metis
  have "(of_nat n :: u64) < of_nat (length es) + 1 \<longleftrightarrow> n = length es"
    using assms(1,2) of_nat_less_u64 [of n "Suc (length es)"] by (auto simp: add.commute)
  moreover have "econnector_receive reply (cbor_array (error_parms tag e)) s' = connector_error (snd e) s'"
    using receive_error [of s' e reply] f(2) assms(5,6) by simp
  ultimately show ?thesis
    using f(1) st assms(1) by (auto simp: connector_error_def bindS_def retrying_def)
qed

theorem connector_retries_witness:
  "started (io_log (after_failures (\<lambda>_. Inr ok) [(111, ''refused''), (110, ''timed out'')] (econnector_new ''c'' False 50 2)))
     = [E_connect, E_timeout 50, E_connect, E_timeout 100, E_connect]
   \<and> fst (econnector_receive (\<lambda>_. Inr ok) (cbor_array (error_parms ''c'' (111, ''refused'')))
       (after_failures (\<lambda>_. Inr ok) [(111, ''refused''), (110, ''timed out'')] (econnector_new ''c'' False 50 2)))
     = Inr (exit_result ''connect_error'' [P_str ''refused''])"
  using connector_retries [where n = 2 and es = "[(111, ''refused''), (110, ''timed out'')]" and e = "(111, ''refused'')"
      and tag = "''c''" and unx = False and t = 50 and reply = "\<lambda>_. Inr ok", OF _ _ _ _ _ _ refl]
  by (simp add: plain_error_def upt_rec [of 0 2] upt_rec [of 1 2] del: after_failures.simps)

end
