(* ===== verification/Hub.thy ===== *)
theory Hub
  imports Io Message Actor Cbor_Iter
begin

text \<open>
  The publish/subscribe hub (\<^verbatim>\<open>src/src/hub.cpp\<close>): an actor that keeps a list of subscribers, each with
  an optional filter, and sends what is broadcast to those whose filter accepts it. Filters are
  function objects and do not fit into a message, so they are handed over in a queue beside the
  mailbox (\<open>subscribe_queue\<close>), in the order of the messages that announce them.
\<close>

section \<open>The hub object\<close>

type_synonym hub_filter = "buffer \<Rightarrow> exn + bool"

datatype hub_op = Hub_send handle buffer | Hub_listen string

record hub_impl = "hub_op obj" +
  subscribers :: "(handle \<times> hub_filter option) list"
  hub_q :: "hub_filter list"

definition hub_new :: hub_impl where
  "hub_new = \<lparr>io_log = [], subscribers = [], hub_q = []\<rparr>"

text \<open>\<open>pop\<close> on an empty queue is undefined behaviour; the model makes it an exception of its own.\<close>

definition q_pop :: "(hub_filter, hub_impl) comp" where
  "q_pop s = (case hub_q s of [] \<Rightarrow> (Inl Other_exn, s) | f # q \<Rightarrow> (Inr f, s\<lparr>hub_q := q\<rparr>))"

definition hub_to :: "(handle \<Rightarrow> buffer \<Rightarrow> exn + result) \<Rightarrow> handle \<Rightarrow> buffer \<Rightarrow> (unit, hub_impl) comp" where
  "hub_to reply h m = bindS (start_op (Hub_send h m)) (\<lambda>_. bindS (liftS (reply h m)) (\<lambda>_. returnS ()))"

definition hub_broadcast ::
    "(handle \<Rightarrow> buffer \<Rightarrow> exn + result) \<Rightarrow> buffer \<Rightarrow> (unit, hub_impl) comp" where
  "hub_broadcast reply msg s =
     forS (subscribers s) (\<lambda>(h, f). case f of
         Some p \<Rightarrow> bindS (liftS (p msg)) (\<lambda>accept. if accept then hub_to reply h msg else returnS ())
       | None \<Rightarrow> hub_to reply h msg) s"

text \<open>The filter made from a list of message tags, and the loop that reads the tags.\<close>

definition tag_filter :: "string list \<Rightarrow> hub_filter" where
  "tag_filter msgs m = bindE (matches m [Pat_extract E_string, p_more]) (\<lambda>r.
     Inr (case r of Some (X_string tag # _) \<Rightarrow> tag \<in> set msgs | _ \<Rightarrow> False))"

text \<open>\<open>string(val)\<close> of a value that is not a string is whatever the uninitialised view holds; \<open>junk\<close>.\<close>

fun tag_of :: "string \<Rightarrow> buffer \<Rightarrow> exn + string" where
  "tag_of junk b = bindE (accessor_get E_string b) (\<lambda>x. Inr (case x of Some (X_string t) \<Rightarrow> t | _ \<Rightarrow> junk))"

fun map_exn :: "('a \<Rightarrow> exn + 'b) \<Rightarrow> 'a list \<Rightarrow> exn + 'b list" where
  "map_exn f [] = Inr []"
| "map_exn f (x # xs) = bindE (f x) (\<lambda>y. bindE (map_exn f xs) (\<lambda>ys. Inr (y # ys)))"

definition hub_subscribe_as :: "handle \<Rightarrow> hub_filter option \<Rightarrow> (unit, hub_impl) comp" where
  "hub_subscribe_as from f = modifyS (\<lambda>s. s\<lparr>subscribers := subscribers s @ [(from, f)]\<rparr>)"

definition hub_receive ::
    "string \<Rightarrow> (handle \<Rightarrow> buffer \<Rightarrow> exn + result) \<Rightarrow> handle \<Rightarrow> buffer \<Rightarrow> (result, hub_impl) comp" where
  "hub_receive junk reply from msg =
      on_match msg [Pat_string ''broadcast'', Pat_type Type_array] (\<lambda>_.
        bindS (hub_broadcast reply (drop 11 msg)) (\<lambda>_. returnS ok))
     (on_match msg [Pat_string ''subscribe''] (\<lambda>_. bindS (hub_subscribe_as from None) (\<lambda>_. returnS ok))
     (on_match msg [Pat_string ''subscribe_filtered''] (\<lambda>_.
        bindS q_pop (\<lambda>f. bindS (hub_subscribe_as from (Some f)) (\<lambda>_. returnS ok)))
     (on_match msg [Pat_string ''subscribe_messages'', Pat_extract E_range] (\<lambda>xs.
        bindS (liftS (bindE (for_range (case xs of X_range r # _ \<Rightarrow> r | _ \<Rightarrow> [])) (map_exn (tag_of junk)))) (\<lambda>tags.
        bindS (hub_subscribe_as from (Some (tag_filter tags))) (\<lambda>_. returnS ok)))
     (bindS (on_match msg [Pat_string ''listen'', Pat_extract E_string] (\<lambda>xs.
        start_op (Hub_listen (case xs of X_string d # _ \<Rightarrow> d | _ \<Rightarrow> []))) (returnS ())) (\<lambda>_.
      on_match msg [Pat_string ''shutdown''] (\<lambda>_. returnS (exit_result ''shutdown'' []))
        (liftS (unexpected msg)))))))"

section \<open>The interface\<close>

definition subscribe_msg :: buffer where
  "subscribe_msg = cbor_array [P_str ''subscribe'']"

definition subscribe_filtered_msg :: buffer where
  "subscribe_filtered_msg = cbor_array [P_str ''subscribe_filtered'']"

definition hub_subscribe :: "handle \<Rightarrow> (thrown + result \<Rightarrow> ('t, 'u) prog) \<Rightarrow> ('t, 'u) prog" where
  "hub_subscribe h k = Link h (Send_raw h subscribe_msg k)"

definition hub_broadcast_msg :: "parm list \<Rightarrow> buffer" where
  "hub_broadcast_msg ps = cbor_array [P_str ''broadcast'', P_buf (cbor_array ps)]"

definition hub_listen_msg :: "string \<Rightarrow> buffer" where
  "hub_listen_msg desc = cbor_array [P_str ''listen'', P_str desc]"

definition hub_create ::
    "string \<Rightarrow> (handle \<Rightarrow> buffer \<Rightarrow> ('t, 'u) prog) \<Rightarrow> (error + handle \<Rightarrow> ('t, 'u) prog) \<Rightarrow> ('t, 'u) prog" where
  "hub_create name r k = Spawn_link (Receive (Some r) (Ret ok)) name None k"

text \<open>
  \<open>subscribe_queue::push\<close> holds its mutex while it queues the filter and sends the announcement, so
  the two happen as one step: the state is the hub and its mailbox.
\<close>

definition q_push :: "handle \<Rightarrow> hub_filter \<Rightarrow> (handle \<times> buffer) list \<times> hub_impl \<Rightarrow> (handle \<times> buffer) list \<times> hub_impl" where
  "q_push subscriber f st = (fst st @ [(subscriber, subscribe_filtered_msg)], (snd st)\<lparr>hub_q := hub_q (snd st) @ [f]\<rparr>)"

section \<open>Broadcasts\<close>

fun accepts :: "hub_filter option \<Rightarrow> buffer \<Rightarrow> bool" where
  "accepts None m = True"
| "accepts (Some f) m = (f m = Inr True)"

lemma hub_broadcast_sends:
  assumes "\<forall>h f. (h, Some f) \<in> set (subscribers s) \<longrightarrow> (\<exists>b. f m = Inr b)" "\<forall>h. \<exists>r. reply h m = Inr r"
  shows "hub_broadcast reply m s = (Inr (), s\<lparr>io_log := io_log s @
    map (\<lambda>(h, f). Start (Hub_send h m)) (filter (\<lambda>(h, f). accepts f m) (subscribers s))\<rparr>)"
proof -
  have "forS subs (\<lambda>(h, f). case f of
         Some p \<Rightarrow> bindS (liftS (p m)) (\<lambda>accept. if accept then hub_to reply h m else returnS ())
       | None \<Rightarrow> hub_to reply h m) t
     = (Inr (), t\<lparr>io_log := io_log t @ map (\<lambda>(h, f). Start (Hub_send h m)) (filter (\<lambda>(h, f). accepts f m) subs)\<rparr>)"
    if "set subs \<subseteq> set (subscribers s)" for subs t
    using that
  proof (induction subs arbitrary: t)
    case (Cons x subs)
    obtain h f where x: "x = (h, f)" by (cases x)
    have to: "hub_to reply h m t = (Inr (), t\<lparr>io_log := io_log t @ [Start (Hub_send h m)]\<rparr>)" for t
      using spec [OF assms(2), of h] by (auto simp: hub_to_def bindS_def)
    have "\<exists>b. p m = Inr b" if "f = Some p" for p using assms(1) Cons.prems x that by auto
    with Cons x to show ?case by (cases f) (auto simp: bindS_def)
  qed simp
  then show ?thesis by (simp add: hub_broadcast_def)
qed

lemma broadcast_header: "length (array_header 2 [] @ push_string ''broadcast'' []) = 11"
  by code_simp

lemma drop_broadcast: "drop 11 (enc (V_arr [V_str ''broadcast'', v])) = enc v"
proof -
  have "enc (V_arr [V_str ''broadcast'', v]) = (array_header 2 [] @ push_string ''broadcast'' []) @ enc v" by simp
  then show ?thesis using broadcast_header by (metis append_eq_conv_conj)
qed

text \<open>
  C21. A broadcast reaches every subscriber whose filter accepts it, and no other, once each and in the
  order of subscription; what they get is the message that was broadcast, without the envelope.
\<close>

theorem hub_broadcast_delivers:
  assumes "wf_cval (V_arr xs)" "\<forall>h. \<exists>r. reply h (enc (V_arr xs)) = Inr r"
    "\<forall>h f. (h, Some f) \<in> set (subscribers s) \<longrightarrow> (\<exists>b. f (enc (V_arr xs)) = Inr b)"
    "hub_receive junk reply from (enc (V_arr [V_str ''broadcast'', V_arr xs])) s = (r, s')"
  shows "r = Inr ok \<and> subscribers s' = subscribers s \<and> started (io_log s') = started (io_log s) @
    map (\<lambda>(h, f). Hub_send h (enc (V_arr xs))) (filter (\<lambda>(h, f). accepts f (enc (V_arr xs))) (subscribers s))"
proof -
  let ?m = "enc (V_arr xs)"
  have "matches (enc (V_arr [V_str ''broadcast'', V_arr xs])) [Pat_string ''broadcast'', Pat_type Type_array] = Inr (Some [])"
    using matches_enc [of "[V_str ''broadcast'', V_arr xs]" "[Pat_string ''broadcast'', Pat_type Type_array]"] assms(1)
    by (simp del: enc.simps)
  then have "hub_receive junk reply from (enc (V_arr [V_str ''broadcast'', V_arr xs])) s
      = bindS (hub_broadcast reply ?m) (\<lambda>_. returnS ok) s"
    by (simp add: hub_receive_def on_match_def bindS_def drop_broadcast del: enc.simps)
  with assms(4) hub_broadcast_sends [of s ?m reply, OF assms(3,2)]
  have s': "r = Inr ok" "s' = s\<lparr>io_log := io_log s @
      map (\<lambda>(h, f). Start (Hub_send h ?m)) (filter (\<lambda>(h, f). accepts f ?m) (subscribers s))\<rparr>"
    by (auto simp: bindS_def)
  have "started (map (\<lambda>(h, f). Start (Hub_send h ?m)) ys) = map (\<lambda>(h, f). Hub_send h ?m) ys"
    for ys :: "(handle \<times> hub_filter option) list"
    by (induction ys) auto
  with s' show ?thesis by simp
qed

theorem hub_broadcast_delivers_witness:
  "started (io_log (snd (hub_receive [] (\<lambda>_ _. Inr ok) null_handle (enc (V_arr [V_str ''broadcast'', V_arr [V_uint 1]]))
     (hub_new\<lparr>subscribers := [(null_handle, None), (null_handle, Some (\<lambda>_. Inr False))]\<rparr>))))
   = [Hub_send null_handle (enc (V_arr [V_uint 1]))]"
proof -
  let ?s = "hub_new\<lparr>subscribers := [(null_handle, None), (null_handle, Some (\<lambda>_. Inr False))]\<rparr>"
  have w: "wf_cval (V_arr [V_uint 1])" by simp
  have f: "\<forall>h f. (h, Some f) \<in> set (subscribers ?s) \<longrightarrow> (\<exists>b. f (enc (V_arr [V_uint 1])) = Inr b)" by auto
  have r: "\<forall>h. \<exists>r. (\<lambda>_ _. Inr ok :: exn + result) h (enc (V_arr [V_uint 1])) = Inr r" by simp
  from hub_broadcast_delivers [OF w r f surjective_pairing] show ?thesis
    by (simp add: hub_new_def del: enc.simps)
qed

section \<open>Filters find their subscribers\<close>

text \<open>
  A history: somebody subscribes, without or with a filter, or the hub handles its oldest message.
\<close>

datatype hub_ev = Subscribe handle "hub_filter option" | Handle_next

fun hub_event :: "hub_ev \<Rightarrow> (handle \<times> buffer) list \<times> hub_impl \<Rightarrow> (handle \<times> buffer) list \<times> hub_impl" where
  "hub_event (Subscribe h None) st = (fst st @ [(h, subscribe_msg)], snd st)"
| "hub_event (Subscribe h (Some f)) st = q_push h f st"
| "hub_event Handle_next st = (case fst st of [] \<Rightarrow> st
     | (from, m) # ms \<Rightarrow> (ms, snd (hub_receive [] (\<lambda>_ _. Inr ok) from m (snd st))))"

fun subscriptions :: "hub_ev list \<Rightarrow> (handle \<times> hub_filter option) list" where
  "subscriptions [] = []"
| "subscriptions (Subscribe h f # es) = (h, f) # subscriptions es"
| "subscriptions (Handle_next # es) = subscriptions es"

lemma subscriptions_append [simp]: "subscriptions (xs @ ys) = subscriptions xs @ subscriptions ys"
  by (induction xs rule: subscriptions.induct) simp_all

text \<open>The waiting subscriptions, the filters taken from the queue in order.\<close>

fun waiting :: "(handle \<times> buffer) list \<Rightarrow> hub_filter list \<Rightarrow> (handle \<times> hub_filter option) list option" where
  "waiting [] q = (if q = [] then Some [] else None)"
| "waiting ((h, m) # ms) q =
     (if m = subscribe_msg then map_option (\<lambda>w. (h, None) # w) (waiting ms q)
      else if m = subscribe_filtered_msg then
        (case q of [] \<Rightarrow> None | f # q \<Rightarrow> map_option (\<lambda>w. (h, Some f) # w) (waiting ms q))
      else None)"

lemma msgs_distinct [simp]: "subscribe_filtered_msg \<noteq> subscribe_msg" "subscribe_msg \<noteq> subscribe_filtered_msg"
  by code_simp+

lemma waiting_subscribe:
  "waiting ms q = Some w \<Longrightarrow> waiting (ms @ [(h, subscribe_msg)]) q = Some (w @ [(h, None)])"
  by (induction ms q arbitrary: w rule: waiting.induct) (auto split: if_splits list.splits)

lemma waiting_filtered:
  "waiting ms q = Some w \<Longrightarrow> waiting (ms @ [(h, subscribe_filtered_msg)]) (q @ [f]) = Some (w @ [(h, Some f)])"
  by (induction ms q arbitrary: w rule: waiting.induct) (auto split: if_splits list.splits)

lemma hub_receive_subscribe:
  "hub_receive junk reply from subscribe_msg s = (Inr ok, s\<lparr>subscribers := subscribers s @ [(from, None)]\<rparr>)"
  "hub_q s = f # q \<Longrightarrow> hub_receive junk reply from subscribe_filtered_msg s
     = (Inr ok, s\<lparr>hub_q := q, subscribers := subscribers s @ [(from, Some f)]\<rparr>)"
  by (simp_all add: hub_receive_def subscribe_msg_def subscribe_filtered_msg_def on_match_parms hub_subscribe_as_def
      bindS_def q_pop_def)

lemma hub_history:
  assumes "fold hub_event es ([], hub_new) = (ms, s)"
  shows "\<exists>w. waiting ms (hub_q s) = Some w \<and> subscribers s @ w = subscriptions es"
  using assms
proof (induction es arbitrary: ms s rule: rev_induct)
  case Nil
  then show ?case by (auto simp: hub_new_def)
next
  case (snoc e es)
  obtain ms1 s1 where st: "fold hub_event es ([], hub_new) = (ms1, s1)" by fastforce
  from snoc.IH [OF this] obtain w where w: "waiting ms1 (hub_q s1) = Some w" "subscribers s1 @ w = subscriptions es"
    by blast
  have e: "hub_event e (ms1, s1) = (ms, s)" using snoc.prems st by simp
  show ?case
  proof (cases e)
    case (Subscribe h f)
    with e w waiting_subscribe [OF w(1), of h] waiting_filtered [OF w(1), of h] show ?thesis
      by (cases f) (auto simp: q_push_def simp flip: append_assoc)
  next
    case Handle_next
    show ?thesis
    proof (cases ms1)
      case Nil
      with Handle_next e w show ?thesis by simp
    next
      case (Cons x ms2)
      then obtain h m where x: "ms1 = (h, m) # ms2" by (cases x) auto
      with w(1) consider "m = subscribe_msg" | f q where "m = subscribe_filtered_msg" "hub_q s1 = f # q"
        by (auto split: if_splits list.splits)
      then show ?thesis
        using Handle_next e w x by cases (auto simp: hub_receive_subscribe)
    qed
  qed
qed

text \<open>
  C22. However subscriptions and the hub's own work interleave, every filter ends up with the
  subscriber that brought it: the subscribers so far are a beginning of the subscriptions in the
  order they were made, and all of them once the mailbox is empty. The queue of filters is never
  found empty.
\<close>

theorem hub_filters_in_order:
  assumes "fold hub_event es ([], hub_new) = (ms, s)"
  shows "(\<exists>w. subscribers s @ w = subscriptions es) \<and> (ms = [] \<longrightarrow> subscribers s = subscriptions es)
    \<and> (\<forall>h ms'. ms = (h, subscribe_filtered_msg) # ms' \<longrightarrow> hub_q s \<noteq> [])"
  using hub_history [OF assms] by (auto split: if_splits list.splits)

theorem hub_filters_in_order_witness:
  "subscribers (snd (fold hub_event [Subscribe null_handle (Some (\<lambda>_. Inr True)), Subscribe null_handle None, Handle_next, Handle_next]
     ([], hub_new))) = [(null_handle, Some (\<lambda>_. Inr True)), (null_handle, None)]"
proof -
  let ?es = "[Subscribe null_handle (Some (\<lambda>_. Inr True)), Subscribe null_handle None, Handle_next, Handle_next]"
  have "fold hub_event ?es ([], hub_new) = ([], snd (fold hub_event ?es ([], hub_new)))"
    by (simp add: q_push_def hub_new_def prod_eq_iff)
  from hub_filters_in_order [OF this] show ?thesis by simp
qed

text \<open>
  Three facts about single messages: a \<open>listen\<close> request starts listening and then counts as
  unexpected; a bare \<open>subscribe_filtered\<close> finds no filter; a broadcast without arguments is null, not
  an array, and unexpected.
\<close>

lemma hub_listen_fails:
  "\<exists>e. hub_receive [] (\<lambda>_ _. Inr ok) null_handle (hub_listen_msg ''x'') hub_new
     = (Inr (Inl e), hub_new\<lparr>io_log := [Start (Hub_listen ''x'')]\<rparr>)"
proof -
  have m: "to_json (hub_listen_msg ''x'') = Inr (CHR ''['' # CHR 0x22 # ''listen'' @ [CHR 0x22, CHR '','', CHR 0x22, CHR ''x'', CHR 0x22, CHR '']''])"
    by code_simp
  show ?thesis using m
    by (simp add: hub_receive_def hub_listen_msg_def on_match_parms bindS_def unexpected_def exit_result_def hub_new_def)
qed

lemma hub_bare_filtered: "fst (hub_receive [] reply from subscribe_filtered_msg hub_new) = Inl Other_exn"
  by (simp add: hub_receive_def subscribe_filtered_msg_def on_match_parms bindS_def q_pop_def hub_new_def)

lemma hub_empty_broadcast:
  "\<exists>e. fst (hub_receive [] (\<lambda>_ _. Inr ok) null_handle (hub_broadcast_msg []) hub_new) = Inr (Inl e)"
proof -
  have "case fst (hub_receive [] (\<lambda>_ _. Inr ok) null_handle (hub_broadcast_msg []) hub_new) of
      Inr (Inl _) \<Rightarrow> True | _ \<Rightarrow> False" by code_simp
  then show ?thesis by (auto split: sum.splits)
qed

end
