(* ===== verification/Trace.thy ===== *)
theory Trace
  imports Message Actor "HOL-Library.Sublist"
begin

text \<open>
  Trace files (\<^verbatim>\<open>src/src/trace.cpp\<close>): records of any thread are pushed on a lock-free stack; whoever
  gets the lock takes the whole stack, turns it round and writes the records out. Below, the
  writers for the three formats, and the queue as a step relation over all interleavings of
  pushing threads with the one that holds the lock.
\<close>

section \<open>The queue\<close>

text \<open>\<open>reverse\<close>: the loop that turns the linked list round; a list of nodes is the list of their data.\<close>

fun reverse_loop :: "'q list \<Rightarrow> 'q list \<Rightarrow> 'q list" where
  "reverse_loop prev [] = prev"
| "reverse_loop prev (x # p) = reverse_loop (x # prev) p"

definition reverse_nodes :: "'q list \<Rightarrow> 'q list" where
  "reverse_nodes p = reverse_loop [] p"

lemma reverse_nodes_rev [simp]: "reverse_nodes p = rev p"
proof -
  have "reverse_loop prev p = rev p @ prev" for prev by (induction prev p rule: reverse_loop.induct) simp_all
  then show ?thesis by (simp add: reverse_nodes_def)
qed

text \<open>
  \<open>tf_head\<close> is the stack; \<open>tf_batch\<close> what the holder of the lock has taken and not yet handed to
  \<open>on_trace\<close>. For the proofs, \<open>tf_done\<close> has the records that left the queue, each with whether it was
  written, and \<open>tf_pushed\<close> the records that were pushed.
\<close>

record 'q trace_file =
  tf_head :: "'q list"
  tf_batch :: "'q list option"
  tf_done :: "('q \<times> bool) list"
  tf_pushed :: "'q list"

definition trace_file_new :: "'q trace_file" where
  "trace_file_new = \<lparr>tf_head = [], tf_batch = None, tf_done = [], tf_pushed = []\<rparr>"

definition tf_written :: "'q trace_file \<Rightarrow> 'q list" where
  "tf_written f = map fst (filter snd (tf_done f))"

text \<open>The successful compare-and-swap of \<open>push\<close>.\<close>

definition tf_push :: "'q \<Rightarrow> 'q trace_file \<Rightarrow> 'q trace_file" where
  "tf_push x f = f\<lparr>tf_head := x # tf_head f, tf_pushed := tf_pushed f @ [x]\<rparr>"

text \<open>
  \<open>do_work\<close> in steps: take the lock and the stack, hand one record to \<open>on_trace\<close>, let the lock go.
  \<open>do_work\<close> returns false when the lock is held or the stack is empty; the mutex is recursive, but none
  of the writers pushes a record. \<open>throws\<close> says on which records \<open>on_trace\<close> throws: the exception leaves
  \<open>do_work\<close> and \<open>push\<close>, the lock is let go, and the record and the rest of the batch are lost.
\<close>

definition tf_take :: "'q trace_file \<Rightarrow> 'q trace_file option" where
  "tf_take f = (case tf_batch f of Some _ \<Rightarrow> None
     | None \<Rightarrow> if tf_head f = [] then None
               else Some (f\<lparr>tf_batch := Some (reverse_nodes (tf_head f)), tf_head := []\<rparr>))"

definition tf_write :: "('q \<Rightarrow> bool) \<Rightarrow> 'q trace_file \<Rightarrow> 'q trace_file option" where
  "tf_write throws f = (case tf_batch f of
     Some (x # xs) \<Rightarrow>
       Some (if throws x then f\<lparr>tf_batch := None, tf_done := tf_done f @ map (\<lambda>y. (y, False)) (x # xs)\<rparr>
             else f\<lparr>tf_batch := Some xs, tf_done := tf_done f @ [(x, True)]\<rparr>)
   | _ \<Rightarrow> None)"

definition tf_release :: "'q trace_file \<Rightarrow> 'q trace_file option" where
  "tf_release f = (case tf_batch f of Some [] \<Rightarrow> Some (f\<lparr>tf_batch := None\<rparr>) | _ \<Rightarrow> None)"

inductive work_step :: "('q \<Rightarrow> bool) \<Rightarrow> 'q trace_file \<Rightarrow> 'q trace_file \<Rightarrow> bool" for throws where
  take: "tf_take f = Some f' \<Longrightarrow> work_step throws f f'"
| emit: "tf_write throws f = Some f' \<Longrightarrow> work_step throws f f'"
| release: "tf_release f = Some f' \<Longrightarrow> work_step throws f f'"

inductive trace_reachable :: "('q \<Rightarrow> bool) \<Rightarrow> 'q trace_file \<Rightarrow> bool" for throws where
  new: "trace_reachable throws trace_file_new"
| push: "trace_reachable throws f \<Longrightarrow> trace_reachable throws (tf_push x f)"
| work: "trace_reachable throws f \<Longrightarrow> work_step throws f f' \<Longrightarrow> trace_reachable throws f'"

inductive_cases work_stepE: "work_step throws f f'"

definition tf_in_flight :: "'q trace_file \<Rightarrow> 'q list" where
  "tf_in_flight f = (case tf_batch f of Some xs \<Rightarrow> xs | None \<Rightarrow> []) @ rev (tf_head f)"

text \<open>Every record that was pushed has left the queue or is in it, in the order of the pushes.\<close>

lemma work_step_order:
  "work_step throws f f' \<Longrightarrow>
     map fst (tf_done f') @ tf_in_flight f' = map fst (tf_done f) @ tf_in_flight f \<and> tf_pushed f' = tf_pushed f"
  by (elim work_stepE)
    (auto simp: tf_take_def tf_write_def tf_release_def tf_in_flight_def comp_def
      split: option.splits list.splits if_splits)

lemma trace_order: "trace_reachable throws f \<Longrightarrow> map fst (tf_done f) @ tf_in_flight f = tf_pushed f"
  by (induction rule: trace_reachable.induct)
    (simp_all add: trace_file_new_def tf_push_def tf_in_flight_def work_step_order [unfolded tf_in_flight_def])

text \<open>A record is written only if \<open>on_trace\<close> does not throw on it, and lost only if it throws on some record.\<close>

definition outcomes_ok :: "('q \<Rightarrow> bool) \<Rightarrow> ('q \<times> bool) list \<Rightarrow> bool" where
  "outcomes_ok throws ds \<longleftrightarrow> (\<forall>d \<in> set ds. snd d \<longrightarrow> \<not> throws (fst d))
     \<and> ((\<exists>d \<in> set ds. \<not> snd d) \<longrightarrow> (\<exists>d \<in> set ds. throws (fst d)))"

lemma outcomes_append: "outcomes_ok throws ds \<Longrightarrow> outcomes_ok throws es \<Longrightarrow> outcomes_ok throws (ds @ es)"
  unfolding outcomes_ok_def set_append by blast

lemma write_outcomes:
  assumes "tf_write throws f = Some f'" "outcomes_ok throws (tf_done f)"
  shows "outcomes_ok throws (tf_done f')"
proof -
  obtain x xs where b: "tf_batch f = Some (x # xs)" using assms(1) by (auto simp: tf_write_def split: option.splits list.splits)
  have "outcomes_ok throws (if throws x then map (\<lambda>y. (y, False)) (x # xs) else [(x, True)])"
    by (simp add: outcomes_ok_def)
  moreover have "tf_done f' = tf_done f @ (if throws x then map (\<lambda>y. (y, False)) (x # xs) else [(x, True)])"
    using assms(1) b by (auto simp: tf_write_def)
  ultimately show ?thesis using outcomes_append [OF assms(2)] by metis
qed

lemma trace_outcomes: "trace_reachable throws f \<Longrightarrow> outcomes_ok throws (tf_done f)"
proof (induction rule: trace_reachable.induct)
  case (work f f')
  have "tf_take f = Some f' \<or> tf_release f = Some f' \<Longrightarrow> tf_done f' = tf_done f"
    by (auto simp: tf_take_def tf_release_def split: option.splits list.splits if_splits)
  with work write_outcomes [of throws f f'] show ?case by (auto elim: work_stepE)
qed (simp_all add: outcomes_ok_def trace_file_new_def tf_push_def)









section \<open>The formats\<close>

definition newline :: string where
  "newline = [CHR 0x0A]"

text \<open>What is written to the file, and the exception when there is one.\<close>

definition cbor_cr :: buffer where
  "cbor_cr = cbor_array [P_str newline]"

definition on_trace_cbor :: "buffer \<Rightarrow> buffer \<Rightarrow> buffer" where
  "on_trace_cbor msg out = out @ msg @ cbor_cr"

definition on_trace_json :: "buffer \<Rightarrow> string \<Rightarrow> string \<times> exn option" where
  "on_trace_json msg out = (case to_json_ostream msg out of (out, Some e) \<Rightarrow> (out, Some e)
     | (out, None) \<Rightarrow> (out @ newline, None))"

definition x_string :: "extracted list \<Rightarrow> nat \<Rightarrow> string" where
  "x_string xs i = (case drop i xs of X_string s # _ \<Rightarrow> s | _ \<Rightarrow> [])"

abbreviation p_ref :: pat where
  "p_ref \<equiv> Pat_A [p_any, p_any, Pat_extract E_string]"

definition to_mermaid :: "buffer \<Rightarrow> string \<Rightarrow> string \<times> exn option" where
  "to_mermaid m s =
     (case matches m [p_ref, Pat_extract E_string, p_more] of
        Inl e \<Rightarrow> (s, Some e)
      | Inr None \<Rightarrow> (s, None)
      | Inr (Some xs) \<Rightarrow>
          let from = (if x_string xs 0 = [] then ''UNKNOWN'' else x_string xs 0); typ = x_string xs 1 in
          if typ = ''spawn'' then (s @ ''    Note right of '' @ from @ '': SPAWN'' @ newline, None)
          else if typ = ''receive'' then (s, None)
          else if typ = ''run'' then (s @ ''    activate '' @ from @ newline, None)
          else if typ = ''sleep'' then (s @ ''    deactivate '' @ from @ newline, None)
          else if typ = ''send'' then
            (case matches m [p_any, p_any, p_ref, Pat_extract E_range] of
               Inl e \<Rightarrow> (s, Some e)
             | Inr (Some [X_string to, X_range msg]) \<Rightarrow>
                 (case to_json_ostream msg (s @ ''    '' @ from @ ''->>'' @ to @ '': send '') of
                    (s, Some e) \<Rightarrow> (s, Some e) | (s, None) \<Rightarrow> (s @ newline, None))
             | Inr _ \<Rightarrow> (s, None))
          else if typ = ''link'' then
            (case matches m [p_any, p_any, p_ref] of
               Inl e \<Rightarrow> (s, Some e)
             | Inr (Some xs) \<Rightarrow> (s @ ''    '' @ from @ ''-->>'' @ x_string xs 0 @ '': create link'' @ newline, None)
             | Inr None \<Rightarrow> (s, None))
          else if typ = ''exit'' then
            (case matches m [p_any, p_any, Pat_A [p_any, Pat_extract E_string, p_more]] of
               Inl e \<Rightarrow> (s, Some e)
             | Inr (Some xs) \<Rightarrow> (s @ ''    Note right of '' @ from @ '': EXIT '' @ x_string xs 0 @ newline, None)
             | Inr None \<Rightarrow> (s, None))
          else (s, None))"

definition mermaid_header :: string where
  "mermaid_header = ''sequenceDiagram'' @ newline"

text \<open>
  Everything the actors trace starts with counters, and the writer of sequence diagrams expects the
  printed form of an actor first: it throws on every such record.
\<close>

lemma mermaid_rejects_actor_traces:
  assumes "wf_cval (V_arr (V_uint tasks # vs))" "vs \<noteq> []"
  shows "to_mermaid (enc (V_arr (V_uint tasks # vs))) s
    = (s, Some (Domain_error ''cbor unexpected type (expected array)''))"
  using matches_enc [OF assms(1), of "[p_ref, Pat_extract E_string, p_more]"]
  by (simp add: to_mermaid_def del: enc.simps)

lemma mermaid_rejects_example:
  "to_mermaid (enc (V_arr [V_uint 0, V_uint 0, V_uint 1, V_uint 1, V_arr [V_str ''PID'', V_uint 1, V_str ''a''], V_str ''run''])) []
     = ([], Some (Domain_error ''cbor unexpected type (expected array)''))"
  by (rule mermaid_rejects_actor_traces) (simp_all del: enc.simps)

text \<open>So a file of sequence diagrams stays empty: every batch is lost with its first record.\<close>

lemma mermaid_file_stays_empty:
  assumes "trace_reachable (\<lambda>m. \<exists>s. snd (to_mermaid m s) \<noteq> None) f"
    "\<forall>m \<in> set (tf_pushed f). \<exists>tasks vs. wf_cval (V_arr (V_uint tasks # vs)) \<and> vs \<noteq> [] \<and> m = enc (V_arr (V_uint tasks # vs))"
  shows "tf_written f = []"
proof -
  let ?throws = "\<lambda>m. \<exists>s. snd (to_mermaid m s) \<noteq> None"
  have t: "\<forall>m \<in> set (tf_pushed f). ?throws m"
    using assms(2) mermaid_rejects_actor_traces by (metis option.discI snd_conv)
  have "fst ` set (tf_done f) \<subseteq> set (tf_pushed f)" using arg_cong [OF trace_order [OF assms(1)], of set] by auto
  with t trace_outcomes [OF assms(1)] have "\<forall>d \<in> set (tf_done f). \<not> snd d" unfolding outcomes_ok_def by blast
  then show ?thesis by (simp add: tf_written_def filter_empty_conv)
qed

end
