(* ===== verification/Debug_Console.thy ===== *)
theory Debug_Console
  imports Io Message Actor Cbor_Iter Json_Parse
begin

text \<open>
  The debug console (\<open>namespace debug::tcp\<close> of \<^verbatim>\<open>src/src/instance.cpp\<close>): an actor per connection
  that reads lines from its socket, understands a text form and a JSON form of commands, sends
  messages to named actors on behalf of the user, taps actors, and writes what it hears back.

  A connection works on two states at once, its own members and the context of the actors: the
  record below holds both, and \<open>on_ctx\<close> runs an operation of the actor core on the second. While a
  connection runs, \<open>current_instance\<close> of the context is the connection's actor.
\<close>

section \<open>Fields of a command\<close>

definition value_type :: "buffer \<Rightarrow> exn + ctype" where
  "value_type v = accessor_type v"

text \<open>The loop of \<open>get_fields\<close>; \<open>fields[k] = v\<close> replaces an earlier value of the same key.\<close>

function get_fields_loop :: "value_iterator \<Rightarrow> (string \<times> buffer) list \<Rightarrow> exn + (string \<times> buffer) list" where
  "get_fields_loop it fs =
     (if \<not> iter_neq it iter_end then Inr fs
      else
        bindE (iter_deref it) (\<lambda>key.
        bindE (accessor_type key) (\<lambda>t.
        if t \<noteq> Type_string then Inl (Domain_error ''command keys must be strings'')
        else
          bindE (accessor_get E_string key) (\<lambda>k.
          bindE (iter_incr it) (\<lambda>it1.
          if \<not> iter_neq it1 iter_end then Inr fs
          else
            bindE (iter_incr it1) (\<lambda>it2.
              get_fields_loop it2 (omap_update (case k of Some (X_string s) \<Rightarrow> s | _ \<Rightarrow> [])
                (take (length (it_b it1) - length (it_b it2)) (it_b it1)) fs)))))))"
  by pat_completeness auto

lemma iter_incr_shrinks:
  "iter_incr it = Inr it' \<Longrightarrow> it_n it \<noteq> 0 \<Longrightarrow> length (it_b it') < length (it_b it)"
  by (auto simp: iter_incr_def bindE_eq_Inr match_value_type_shrinks)

lemma iter_incr_le: "iter_incr it = Inr it' \<Longrightarrow> length (it_b it') \<le> length (it_b it)"
  using iter_incr_shrinks [of it it'] by (cases "it_n it = 0") (auto simp: iter_incr_def less_imp_le)

termination get_fields_loop
proof (relation "measure (\<lambda>(it, fs). length (it_b it))", simp_all)
  fix it key it1 it2
  assume "iter_deref it = Inr (key :: buffer)" "iter_incr it = Inr it1" "iter_incr it1 = Inr it2"
  then show "length (it_b it2) < length (it_b it)"
    using iter_incr_shrinks [of it it1] iter_incr_le [of it1 it2] by (auto simp: iter_deref_def split: if_splits)
qed

declare get_fields_loop.simps [simp del]

definition get_fields :: "buffer \<Rightarrow> exn + (string \<times> buffer) list" where
  "get_fields cmd =
     bindE (value_type cmd) (\<lambda>t.
       if t \<noteq> Type_map then Inl (Domain_error ''command must be a JSON object'')
       else bindE (iter_begin cmd) (\<lambda>it. get_fields_loop it []))"

definition require :: "(string \<times> buffer) list \<Rightarrow> string \<Rightarrow> exn + buffer" where
  "require f k = (case map_of f k of
     None \<Rightarrow> Inl (Domain_error (''missing field: '' @ k)) | Some v \<Rightarrow> Inr v)"

definition require_string :: "(string \<times> buffer) list \<Rightarrow> string \<Rightarrow> exn + string" where
  "require_string f k =
     bindE (require f k) (\<lambda>v.
     bindE (value_type v) (\<lambda>t.
       if t \<noteq> Type_string then Inl (Domain_error (''field must be a string: '' @ k))
       else bindE (accessor_get E_string v) (\<lambda>x. Inr (case x of Some (X_string s) \<Rightarrow> s | _ \<Rightarrow> []))))"

text \<open>\<open>junk\<close> is the value of a variable the accessor leaves unset, for a number beyond \<open>int64_t\<close>.\<close>

definition optional_int :: "int \<Rightarrow> (string \<times> buffer) list \<Rightarrow> string \<Rightarrow> int \<Rightarrow> exn + int" where
  "optional_int junk f k def =
     (case map_of f k of None \<Rightarrow> Inr def
      | Some v \<Rightarrow> bindE (value_type v) (\<lambda>t.
          if t \<noteq> Type_number then Inl (Domain_error (''field must be a number: '' @ k))
          else bindE (accessor_get (E_int 64) v) (\<lambda>x.
            Inr (case x of Some (X_int i) \<Rightarrow> sint i | _ \<Rightarrow> junk))))"

section \<open>The proxy of a call\<close>

text \<open>
  The timer of a proxy and what it sends to its connection are its effects; \<open>reply\<close> is the result
  of that send. \<open>from_name\<close> is \<open>instance_name(from)\<close>.
\<close>

datatype proxy_op = P_timeout int | P_cancel | P_to_conn buffer

record call_proxy = "proxy_op obj" +
  cp_seq :: u64
  cp_timed_out :: bool

definition call_proxy_new :: "u64 \<Rightarrow> int \<Rightarrow> call_proxy" where
  "call_proxy_new seq timeout_ms = \<lparr>io_log = [Start (P_timeout timeout_ms)], cp_seq = seq, cp_timed_out = False\<rparr>"

definition conn_send :: "(buffer \<Rightarrow> exn + result) \<Rightarrow> parm list \<Rightarrow> (result, call_proxy) comp" where
  "conn_send reply ps = bindS (start_op (P_to_conn (cbor_array ps))) (\<lambda>_. liftS (reply (cbor_array ps)))"

definition call_proxy_receive ::
    "(buffer \<Rightarrow> exn + result) \<Rightarrow> string \<Rightarrow> buffer \<Rightarrow> (result, call_proxy) comp" where
  "call_proxy_receive reply from_name m s =
     (if cp_timed_out s then (Inr ok, s)
      else on_match m [Pat_string ''debug_call_timeout''] (\<lambda>_.
             bindS (modifyS (\<lambda>s. s\<lparr>cp_timed_out := True\<rparr>)) (\<lambda>_.
             conn_send reply [P_str ''debug_call_timeout'', P_uint (cp_seq s)]))
           (bindS (start_op P_cancel) (\<lambda>_.
            bindS (conn_send reply [P_str ''debug_call_reply'', P_uint (cp_seq s), P_str from_name, P_buf m]) (\<lambda>_.
            returnS exit_normal))) s)"

text \<open>
  The behaviour \<open>call_proxy::start\<close> spawns: send the request, report a failure, or wait with the
  receiver \<open>r\<close>, a function object around the proxy.
\<close>

definition call_proxy_behaviour ::
    "handle \<Rightarrow> u64 \<Rightarrow> handle \<Rightarrow> buffer \<Rightarrow> (handle \<Rightarrow> buffer \<Rightarrow> ('t, 'u) prog) \<Rightarrow> ('t, 'u) prog" where
  "call_proxy_behaviour conn seq to msg r =
     Send_raw to msg (\<lambda>ret. case ret of
        Inl t \<Rightarrow> Throw t
      | Inr (Inl e) \<Rightarrow> Send_raw conn (cbor_array [P_str ''debug_call_error'', P_uint seq, P_buf e])
          (\<lambda>ret. case ret of Inl t \<Rightarrow> Throw t | Inr _ \<Rightarrow> Ret exit_normal)
      | Inr (Inr _) \<Rightarrow> Receive (Some r) (Ret ok))"

definition call_proxy_start ::
    "(u64 \<Rightarrow> int \<Rightarrow> handle \<Rightarrow> buffer \<Rightarrow> ('t, 'u) prog) \<Rightarrow> handle \<Rightarrow> u64 \<Rightarrow> handle \<Rightarrow> buffer \<Rightarrow> int \<Rightarrow>
     (error + handle, ('t, 'u) sys) comp" where
  "call_proxy_start proxy conn seq to msg timeout_ms =
     api_spawn_link (call_proxy_behaviour conn seq to msg (proxy seq timeout_ms)) ''debug_call'' None"

section \<open>A connection\<close>

datatype dbg_op = D_write string | D_read | D_close

record ('t, 'u) dbg_connection = "dbg_op obj" +
  dc_ctx :: "('t, 'u) sys"
  dc_prompt :: string
  dc_prev_buf :: string
  dc_self :: handle
  dc_json_mode :: bool
  dc_close_on_write_complete :: bool
  dc_unwritten :: nat
  dc_next_call :: u64
  dc_pending_calls :: "(u64 \<times> buffer) list"

type_synonym ('a, 't, 'u) dbg = "('a, ('t, 'u) dbg_connection) comp"

definition dbg_tag :: string where
  "dbg_tag = ''debug_connection''"

definition on_ctx :: "('a, ('t, 'u) sys) comp \<Rightarrow> ('a, 't, 'u) dbg" where
  "on_ctx f s = (case f (dc_ctx s) of (r, c) \<Rightarrow> (r, s\<lparr>dc_ctx := c\<rparr>))"

definition getword :: "string \<Rightarrow> string \<times> string" where
  "getword str = (takeWhile (\<lambda>c. c \<noteq> CHR '' '') str, drop 1 (dropWhile (\<lambda>c. c \<noteq> CHR '' '') str))"

definition dbg_write :: "string \<Rightarrow> (unit, 't, 'u) dbg" where
  "dbg_write data =
     bindS (modifyS (\<lambda>s. s\<lparr>dc_unwritten := dc_unwritten s + length data\<rparr>)) (\<lambda>_. start_op (D_write data))"

definition nl :: string where
  "nl = [CHR 0x0A]"

definition dbg_write_line :: "string \<Rightarrow> (unit, 't, 'u) dbg" where
  "dbg_write_line line = bindS (dbg_write line) (\<lambda>_. dbg_write nl)"

definition dbg_write_json :: "buffer \<Rightarrow> (unit, 't, 'u) dbg" where
  "dbg_write_json b = bindS (liftS (to_json b)) dbg_write_line"

definition reply_ok :: "buffer \<Rightarrow> (unit, 't, 'u) dbg" where
  "reply_ok i = dbg_write_json (cbor_map [P_str ''id'', P_buf i, P_str ''ok'', P_bool True])"

definition reply_error :: "buffer \<Rightarrow> string \<Rightarrow> (unit, 't, 'u) dbg" where
  "reply_error i err =
     dbg_write_json (cbor_map [P_str ''id'', P_buf i, P_str ''ok'', P_bool False, P_str ''error'', P_str err])"

definition dbg_new :: "('t, 'u) sys \<Rightarrow> string \<Rightarrow> handle \<Rightarrow> ('t, 'u) dbg_connection" where
  "dbg_new ctx prompt self =
     snd (bindS (dbg_write prompt) (\<lambda>_. start_op D_read)
       \<lparr>io_log = [], dc_ctx = ctx, dc_prompt = prompt, dc_prev_buf = [], dc_self = self, dc_json_mode = False,
        dc_close_on_write_complete = False, dc_unwritten = 0, dc_next_call = 0, dc_pending_calls = []\<rparr>)"

definition lookup :: "string \<Rightarrow> (handle, 't, 'u) dbg" where
  "lookup name s =
     (let a = get_name (dc_ctx s) name in
      if expired (dc_ctx s) a then (Inl (Std_exn (name @ '' not found'')), s) else (Inr a, s))"

text \<open>The error message, empty on success.\<close>

definition dbg_tap :: "string \<Rightarrow> (string, 't, 'u) dbg" where
  "dbg_tap name s =
     (if take 6 name = ''debug_'' then (Inr ''cannot tap debug interface actors'', s)
      else (Inr [], s\<lparr>dc_ctx := tap_add name (dc_self s) (dc_ctx s)\<rparr>))"

definition dbg_untap :: "string \<Rightarrow> (bool, 't, 'u) dbg" where
  "dbg_untap name s =
     (case tap_remove name (dc_self s) (dc_ctx s) of (removed, c) \<Rightarrow> (Inr removed, s\<lparr>dc_ctx := c\<rparr>))"

definition take_call :: "u64 \<Rightarrow> (buffer, 't, 'u) dbg" where
  "take_call seq s =
     (case map_of (dc_pending_calls s) seq of
        None \<Rightarrow> (Inr null_value, s)
      | Some i \<Rightarrow> (Inr i, s\<lparr>dc_pending_calls := omap_erase seq (dc_pending_calls s)\<rparr>))"

section \<open>Text commands\<close>

text \<open>The names of the registry, the live ones separated by blanks.\<close>

fun write_names :: "bool \<Rightarrow> string list \<Rightarrow> (unit, 't, 'u) dbg" where
  "write_names first [] = returnS ()"
| "write_names first (n # ns) =
     bindS (if first then returnS () else dbg_write '' '') (\<lambda>_. bindS (dbg_write n) (\<lambda>_. write_names False ns))"

definition list_names :: "(unit, 't, 'u) dbg" where
  "list_names s =
     (let reg = registry (dc_ctx s); live = (\<lambda>(n, h). \<not> expired (dc_ctx s) h);
          expired_names = map fst (filter (\<lambda>p. \<not> live p) reg)
      in bindS (write_names True (map fst (filter live reg))) (\<lambda>_.
         bindS (dbg_write nl) (\<lambda>_.
           on_ctx (forS expired_names (\<lambda>n. modifyS (unregister_instance n))))) s)"

text \<open>
  Sending the JSON text after the name to the actor of that name. Every exception of the block is a
  \<open>domain_error\<close>, from the parser, from \<open>deadsend\<close> or from \<open>to_json\<close>, and is reported.
\<close>

definition send_text :: "handle \<Rightarrow> string \<Rightarrow> (unit, 't, 'u) dbg" where
  "send_text a text =
     catchS
       (bindS (case push_json text [] of (r, m) \<Rightarrow> bindS (liftS r) (\<lambda>_. returnS m)) (\<lambda>m.
        bindS (on_ctx (handle_send_raw a m)) (\<lambda>ret. case ret of
            Inr _ \<Rightarrow> returnS ()
          | Inl e \<Rightarrow> bindS (dbg_write ''error: '') (\<lambda>_. bindS (liftS (to_json e)) (\<lambda>j.
              bindS (dbg_write j) (\<lambda>_. dbg_write nl))))))
       (\<lambda>t. case t of
          Std_exn what \<Rightarrow> bindS (dbg_write ''error: '') (\<lambda>_. bindS (dbg_write what) (\<lambda>_. dbg_write nl))
        | Other_exn \<Rightarrow> throwS Other_exn)"

definition dispatch_text :: "string \<Rightarrow> (bool, 't, 'u) dbg" where
  "dispatch_text buf s =
     (if buf = [] then bindS list_names (\<lambda>_. returnS True) s
      else if buf = ''bye'' then bindS (dbg_write (''bye'' @ nl)) (\<lambda>_. returnS False) s
      else case getword buf of (w, rest) \<Rightarrow>
        if (w = ''tap'' \<or> w = ''untap'') \<and> rest \<noteq> [] then
          bindS (if w = ''tap'' then dbg_tap rest
                 else bindS (dbg_untap rest) (\<lambda>r. returnS (if r then [] else rest @ '' not tapped''))) (\<lambda>err.
          bindS (if err \<noteq> [] then dbg_write_line (''error: '' @ err) else returnS ()) (\<lambda>_. returnS True)) s
        else
          let a = get_name (dc_ctx s) w in
          if expired (dc_ctx s) a then
            bindS (dbg_write ''error: '') (\<lambda>_. bindS (dbg_write w) (\<lambda>_.
            bindS (dbg_write ('' not found'' @ nl)) (\<lambda>_. returnS True))) s
          else bindS (send_text a rest) (\<lambda>_. returnS True) s)"

section \<open>JSON commands\<close>

text \<open>
  The body of the \<open>try\<close> block once the fields and the id are known, one branch per command.
  \<open>junk\<close> is the junk of \<open>optional_int\<close>, \<open>proxy\<close> the receiver of the spawned proxies.
\<close>

definition json_send :: "buffer \<Rightarrow> (string \<times> buffer) list \<Rightarrow> (unit, 't, 'u) dbg" where
  "json_send i f =
     bindS (liftS (require_string f ''to'')) (\<lambda>to.
     bindS (lookup to) (\<lambda>a.
     bindS (liftS (require f ''msg'')) (\<lambda>msg.
     bindS (on_ctx (handle_send_raw a msg)) (\<lambda>ret. case ret of
         Inr _ \<Rightarrow> reply_ok i
       | Inl e \<Rightarrow> bindS (liftS (to_json e)) (reply_error i)))))"

definition json_call ::
    "int \<Rightarrow> (u64 \<Rightarrow> int \<Rightarrow> handle \<Rightarrow> buffer \<Rightarrow> ('t, 'u) prog) \<Rightarrow> buffer \<Rightarrow> (string \<times> buffer) list \<Rightarrow>
     (unit, 't, 'u) dbg" where
  "json_call junk proxy i f =
     bindS (liftS (require_string f ''to'')) (\<lambda>name.
     bindS (lookup name) (\<lambda>to.
     bindS (liftS (require f ''msg'')) (\<lambda>msg.
     bindS (liftS (optional_int junk f ''timeout_ms'' 5000)) (\<lambda>timeout_ms.
     bindS (\<lambda>s. (Inr (dc_next_call s), s\<lparr>dc_next_call := dc_next_call s + 1\<rparr>)) (\<lambda>seq.
     bindS (modifyS (\<lambda>s. s\<lparr>dc_pending_calls := omap_update seq i (dc_pending_calls s)\<rparr>)) (\<lambda>_.
     bindS (\<lambda>s. on_ctx (call_proxy_start proxy (dc_self s) seq to msg timeout_ms) s) (\<lambda>ret. case ret of
         Inr _ \<Rightarrow> returnS ()
       | Inl e \<Rightarrow>
           bindS (modifyS (\<lambda>s. s\<lparr>dc_pending_calls := omap_erase seq (dc_pending_calls s)\<rparr>)) (\<lambda>_.
           bindS (liftS (to_json e)) (reply_error i)))))))))"

definition json_tap :: "buffer \<Rightarrow> (string \<times> buffer) list \<Rightarrow> (unit, 't, 'u) dbg" where
  "json_tap i f =
     bindS (liftS (require_string f ''name'')) (\<lambda>name.
     bindS (dbg_tap name) (\<lambda>err. if err = [] then reply_ok i else reply_error i err))"

definition json_untap :: "buffer \<Rightarrow> (string \<times> buffer) list \<Rightarrow> (unit, 't, 'u) dbg" where
  "json_untap i f =
     bindS (liftS (require_string f ''name'')) (\<lambda>name.
     bindS (dbg_untap name) (\<lambda>removed. if removed then reply_ok i else reply_error i (name @ '' not tapped'')))"

definition json_list :: "buffer \<Rightarrow> (unit, 't, 'u) dbg" where
  "json_list i s =
     dbg_write_json (cbor_map [P_str ''id'', P_buf i, P_str ''ok'', P_bool True, P_str ''result'',
       P_buf (get_names (dc_ctx s))]) s"

definition json_op ::
    "int \<Rightarrow> (u64 \<Rightarrow> int \<Rightarrow> handle \<Rightarrow> buffer \<Rightarrow> ('t, 'u) prog) \<Rightarrow> buffer \<Rightarrow> (string \<times> buffer) list \<Rightarrow>
     string \<Rightarrow> (bool, 't, 'u) dbg" where
  "json_op junk proxy i f op =
     (let stay = (\<lambda>c. bindS c (\<lambda>_. returnS True)) in
      if op = ''list'' then stay (json_list i)
      else if op = ''send'' then stay (json_send i f)
      else if op = ''call'' then stay (json_call junk proxy i f)
      else if op = ''tap'' then stay (json_tap i f)
      else if op = ''untap'' then stay (json_untap i f)
      else if op = ''bye'' then bindS (reply_ok i) (\<lambda>_. returnS False)
      else stay (reply_error i (''unknown cmd: '' @ op)))"

text \<open>
  \<open>catch (const domain_error &e) { reply_error(id, e.what()); }\<close> around \<open>c\<close>. The only exception of
  another class the block can meet is the \<open>out_of_range\<close> of the iterator in \<open>get_fields\<close>, which is
  therefore passed on.
\<close>

definition or_reply_error :: "buffer \<Rightarrow> (bool, 't, 'u) dbg \<Rightarrow> (bool, 't, 'u) dbg" where
  "or_reply_error i c =
     catchS c (\<lambda>t. case t of
        Std_exn what \<Rightarrow> bindS (reply_error i what) (\<lambda>_. returnS True)
      | Other_exn \<Rightarrow> throwS Other_exn)"

definition json_fields :: "string \<Rightarrow> exn + (string \<times> buffer) list" where
  "json_fields line = (case push_json line [] of (r, cmd) \<Rightarrow> bindE r (\<lambda>_. get_fields cmd))"

definition json_id :: "(string \<times> buffer) list \<Rightarrow> buffer" where
  "json_id f = (case map_of f ''id'' of Some i \<Rightarrow> i | None \<Rightarrow> null_value)"

definition dispatch_json ::
    "int \<Rightarrow> (u64 \<Rightarrow> int \<Rightarrow> handle \<Rightarrow> buffer \<Rightarrow> ('t, 'u) prog) \<Rightarrow> string \<Rightarrow> (bool, 't, 'u) dbg" where
  "dispatch_json junk proxy line =
     (case json_fields line of
        Inl (Domain_error w) \<Rightarrow> or_reply_error null_value (throwS (Std_exn w))
      | Inl (Out_of_range w) \<Rightarrow> throwS (Std_exn w)
      | Inr f \<Rightarrow> or_reply_error (json_id f)
          (bindS (liftS (require_string f ''cmd'')) (json_op junk proxy (json_id f) f)))"

definition is_blank :: "char \<Rightarrow> bool" where
  "is_blank c \<longleftrightarrow> c = CHR '' '' \<or> c = CHR 0x09"

definition dispatch ::
    "int \<Rightarrow> (u64 \<Rightarrow> int \<Rightarrow> handle \<Rightarrow> buffer \<Rightarrow> ('t, 'u) prog) \<Rightarrow> string \<Rightarrow> (bool, 't, 'u) dbg" where
  "dispatch junk proxy buf s =
     (let buf = (if buf \<noteq> [] \<and> last buf = CHR 0x0D then butlast buf else buf);
          text = dropWhile is_blank buf in
      if text \<noteq> [] \<and> hd text = CHR ''{'' then
        bindS (modifyS (\<lambda>s. s\<lparr>dc_json_mode := True\<rparr>)) (\<lambda>_. dispatch_json junk proxy buf) s
      else if dc_json_mode s then
        bindS (if text \<noteq> [] then reply_error null_value ''expected a JSON object'' else returnS ())
          (\<lambda>_. returnS True) s
      else bindS (dispatch_text buf) (\<lambda>go. if \<not> go then returnS False
        else bindS (dbg_write (dc_prompt s)) (\<lambda>_. returnS True)) s)"

section \<open>Messages to a connection\<close>

definition dbg_shutdown :: "string \<Rightarrow> string \<Rightarrow> (result, 't, 'u) dbg" where
  "dbg_shutdown reason msg =
     bindS (dbg_untap []) (\<lambda>_. returnS (if msg = [] then exit_result reason [] else exit_result reason [P_str msg]))"

definition send_dispatch :: "string \<Rightarrow> (result, 't, 'u) dbg" where
  "send_dispatch line =
     bindS (on_ctx api_self) (\<lambda>h. on_ctx (handle_send_raw h (cbor_array [P_str ''dispatch'', P_str line])))"

text \<open>
  The loop over the lines of the buffer: each complete line becomes a message to the connection
  itself; the rest is returned, or the error that stopped it.
\<close>

definition newline_in :: "string \<Rightarrow> bool" where
  "newline_in buf \<longleftrightarrow> CHR 0x0A \<in> set buf"

definition line_of :: "string \<Rightarrow> string" where
  "line_of buf = takeWhile (\<lambda>c. c \<noteq> CHR 0x0A) buf"

definition after_line :: "string \<Rightarrow> string" where
  "after_line buf = drop 1 (dropWhile (\<lambda>c. c \<noteq> CHR 0x0A) buf)"

lemma after_line_shorter: "newline_in buf \<Longrightarrow> length (after_line buf) < length buf"
  using length_dropWhile_le [of "\<lambda>c. c \<noteq> CHR 0x0A" buf]
  by (cases "dropWhile (\<lambda>c. c \<noteq> CHR 0x0A) buf") (auto simp: after_line_def newline_in_def dropWhile_eq_Nil_conv)

function send_lines :: "string \<Rightarrow> (error + string, 't, 'u) dbg" where
  "send_lines buf =
     (if \<not> newline_in buf then returnS (Inr buf)
      else bindS (send_dispatch (line_of buf)) (\<lambda>ret. case ret of
          Inl e \<Rightarrow> returnS (Inl e) | Inr _ \<Rightarrow> send_lines (after_line buf)))"
  by pat_completeness auto
termination send_lines
  by (relation "measure length") (auto simp: after_line_shorter)

declare send_lines.simps [simp del]

text \<open>\<open>prev_buf\<close> and \<open>buf\<close> are swapped first: an early return leaves the new data in \<open>prev_buf\<close>.\<close>

definition read_complete :: "string \<Rightarrow> (result, 't, 'u) dbg" where
  "read_complete data s =
     (if data = [] then bindS (start_op D_close) (\<lambda>_. returnS ok) s
      else bindS (send_lines (dc_prev_buf s @ data)) (\<lambda>r. case r of
          Inl e \<Rightarrow> returnS (Inl e)
        | Inr rest \<Rightarrow> bindS (modifyS (\<lambda>s. s\<lparr>dc_prev_buf := rest\<rparr>)) (\<lambda>_.
            bindS (start_op D_read) (\<lambda>_. returnS ok))) (s\<lparr>dc_prev_buf := data\<rparr>))"

text \<open>\<open>static_cast<size_t>(written)\<close> is the sign-extended word itself.\<close>

definition dbg_write_complete :: "u64 \<Rightarrow> (result, 't, 'u) dbg" where
  "dbg_write_complete written =
     bindS (modifyS (\<lambda>s. s\<lparr>dc_unwritten := dc_unwritten s - min (dc_unwritten s) (unat written)\<rparr>)) (\<lambda>_ s.
       bindS (if dc_close_on_write_complete s \<and> dc_unwritten s = 0 then start_op D_close else returnS ())
         (\<lambda>_. returnS ok) s)"

definition uint_at :: "extracted list \<Rightarrow> nat \<Rightarrow> u64" where
  "uint_at xs i = (case drop i xs of X_uint n # _ \<Rightarrow> n | X_int n # _ \<Rightarrow> n | _ \<Rightarrow> 0)"

definition text_at :: "extracted list \<Rightarrow> nat \<Rightarrow> string" where
  "text_at xs i = (case drop i xs of X_string t # _ \<Rightarrow> t | _ \<Rightarrow> [])"

definition range_at :: "extracted list \<Rightarrow> nat \<Rightarrow> buffer" where
  "range_at xs i = (case drop i xs of X_range r # _ \<Rightarrow> r | _ \<Rightarrow> [])"

definition call_reply :: "u64 \<Rightarrow> string \<Rightarrow> buffer \<Rightarrow> (unit, 't, 'u) dbg" where
  "call_reply seq name r =
     bindS (take_call seq) (\<lambda>i.
       dbg_write_json (cbor_map [P_str ''id'', P_buf i, P_str ''ok'', P_bool True, P_str ''from'', P_str name,
         P_str ''result'', P_buf r]))"

definition call_failed :: "u64 \<Rightarrow> string \<Rightarrow> (unit, 't, 'u) dbg" where
  "call_failed seq err = bindS (take_call seq) (\<lambda>i. reply_error i err)"

definition write_tap :: "string \<Rightarrow> string \<Rightarrow> string \<Rightarrow> buffer \<Rightarrow> (unit, 't, 'u) dbg" where
  "write_tap name dir peer r s =
     (if dc_json_mode s then
        dbg_write_json (cbor_map ([P_str ''event'', P_str ''tap'', P_str ''actor'', P_str name, P_str ''dir'', P_str dir]
          @ (if dir = ''exit'' then [] else [P_str ''peer'', P_str peer]) @ [P_str ''msg'', P_buf r])) s
      else bindS (liftS (to_json r)) (\<lambda>j. dbg_write_line
        (if dir = ''exit'' then ''tap '' @ name @ '' exit '' @ j
         else ''tap '' @ name @ '' '' @ dir @ '' '' @ peer @ '' '' @ j)) s)"

definition write_message :: "handle \<Rightarrow> buffer \<Rightarrow> (unit, 't, 'u) dbg" where
  "write_message from m s =
     (let n = instance_name (dc_ctx s) from; name = (if n = [] then ''expired'' else n) in
      if dc_json_mode s then
        dbg_write_json (cbor_map [P_str ''event'', P_str ''message'', P_str ''from'', P_str name, P_str ''msg'', P_buf m]) s
      else bindS (dbg_write name) (\<lambda>_. bindS (dbg_write '' '') (\<lambda>_.
           bindS (liftS (to_json m)) (\<lambda>j. bindS (dbg_write j) (\<lambda>_. dbg_write nl)))) s)"

definition dbg_receive ::
    "int \<Rightarrow> (u64 \<Rightarrow> int \<Rightarrow> handle \<Rightarrow> buffer \<Rightarrow> ('t, 'u) prog) \<Rightarrow> handle \<Rightarrow> buffer \<Rightarrow> (result, 't, 'u) dbg" where
  "dbg_receive junk proxy from m =
     (let sk = (\<lambda>ps. Pat_string ''socket'' # Pat_string dbg_tag # ps); x_s = Pat_extract E_string;
          x_i = Pat_extract (E_int 32); x_u = Pat_extract (E_uint 64); x_r = Pat_extract E_range;
          then_ok = (\<lambda>c. bindS c (\<lambda>_. returnS ok)) in
      on_match m [Pat_string ''dispatch'', x_s] (\<lambda>xs.
        bindS (dispatch junk proxy (text_at xs 0)) (\<lambda>go.
        bindS (if \<not> go then modifyS (\<lambda>s. s\<lparr>dc_close_on_write_complete := True\<rparr>) else returnS ())
          (\<lambda>_. returnS ok)))
     (on_match m (sk [Pat_string ''read_complete'', x_s]) (\<lambda>xs. read_complete (text_at xs 0))
     (on_match m (sk [Pat_string ''write_complete'', x_i]) (\<lambda>xs. dbg_write_complete (uint_at xs 0))
     (on_match m (sk [Pat_string ''closed'']) (\<lambda>xs. dbg_shutdown ''closed'' [])
     (on_match m (sk [Pat_string ''read_error'', x_i, x_s]) (\<lambda>xs. dbg_shutdown ''read_error'' (text_at xs 1))
     (on_match m (sk [Pat_string ''write_error'', x_i, x_s]) (\<lambda>xs. dbg_shutdown ''write_error'' (text_at xs 1))
     (on_match m [Pat_string ''debug_call_reply'', x_u, x_s, x_r] (\<lambda>xs.
        then_ok (call_reply (uint_at xs 0) (text_at xs 1) (range_at xs 2)))
     (on_match m [Pat_string ''debug_call_timeout'', x_u] (\<lambda>xs. then_ok (call_failed (uint_at xs 0) ''timeout''))
     (on_match m [Pat_string ''debug_call_error'', x_u, x_r] (\<lambda>xs.
        bindS (take_call (uint_at xs 0)) (\<lambda>i. bindS (liftS (to_json (range_at xs 1))) (\<lambda>j. then_ok (reply_error i j))))
     (on_match m [Pat_string ''debug_tap'', x_s, x_s, x_s, x_r] (\<lambda>xs.
        then_ok (write_tap (text_at xs 0) (text_at xs 1) (text_at xs 2) (range_at xs 3)))
     (then_ok (write_message from m))))))))))))"

text \<open>\<open>connection::start\<close>: the behaviour sets the receiver \<open>r\<close>, a function object around the connection.\<close>

definition dbg_start ::
    "(handle \<Rightarrow> handle \<Rightarrow> buffer \<Rightarrow> ('t, 'u) prog) \<Rightarrow> (error + handle \<Rightarrow> ('t, 'u) prog) \<Rightarrow> ('t, 'u) prog" where
  "dbg_start r k = Spawn (Self (\<lambda>self. Receive (Some (r self)) (Ret ok))) dbg_tag None k"

section \<open>Acceptors\<close>

text \<open>\<open>starts\<close> is the result of \<open>connection::start\<close>, \<open>reply\<close> that of sending to the sender.\<close>

datatype dbg_acc_op = DA_connection u64 | DA_close | DA_to_sender buffer

record dbg_acceptor = "dbg_acc_op obj" +
  da_tag :: string

definition dbg_acceptor_receive ::
    "(u64 \<Rightarrow> error + handle) \<Rightarrow> (buffer \<Rightarrow> exn + result) \<Rightarrow> buffer \<Rightarrow> (result, dbg_acceptor) comp" where
  "dbg_acceptor_receive starts reply m s =
     (let ac = (\<lambda>ps. Pat_string ''acceptor'' # Pat_string (da_tag s) # ps); x_i = Pat_extract (E_int 32) in
      on_match m (ac [Pat_string ''accept'', x_i]) (\<lambda>xs.
        bindS (start_op (DA_connection (uint_at xs 0))) (\<lambda>_.
        returnS (case starts (uint_at xs 0) of Inl e \<Rightarrow> Inl e | Inr _ \<Rightarrow> ok)))
     (on_match m (ac [Pat_string ''closed'']) (\<lambda>xs. returnS (exit_result ''closed'' []))
     (on_match m (ac [Pat_string ''error'', x_i, Pat_extract E_string]) (\<lambda>xs.
        returnS (exit_result ''listen_error'' [P_str (text_at xs 1)]))
     (on_match m [Pat_string ''ping''] (\<lambda>xs.
        bindS (start_op (DA_to_sender (cbor_array [P_str ''pong'']))) (\<lambda>_. liftS (reply (cbor_array [P_str ''pong'']))))
     (bindS (start_op DA_close) (\<lambda>_. returnS ok))))) s)"

definition dbg_acceptor_start ::
    "string \<Rightarrow> (handle \<Rightarrow> buffer \<Rightarrow> ('t, 'u) prog) \<Rightarrow> 't env_t \<Rightarrow> (error + handle, ('t, 'u) sys) comp" where
  "dbg_acceptor_start tag r env s =
     instance_spawn (Receive (Some r) (Ret ok)) None tag None
       (case current_instance s of Some p \<Rightarrow> a_env (actor_of s p) | None \<Rightarrow> env) s"

end
