(* ===== verification/Debug_Props.thy ===== *)
theory Debug_Props
  imports Debug_Console Actor_Messages
begin

text \<open>
  Properties of the debug console: every JSON command is answered by exactly one line or becomes a
  pending call, a call is reported exactly once, lines do not depend on how the network cuts them,
  and the socket is closed once the last byte has been written.
\<close>

section \<open>What a connection writes\<close>

fun op_text :: "dbg_op \<Rightarrow> string" where
  "op_text (D_write t) = t"
| "op_text _ = []"

definition console_out :: "('t, 'u) dbg_connection \<Rightarrow> string" where
  "console_out s = concat (map op_text (started (io_log s)))"

named_theorems dbg_simps \<open>the effect of the console's operations on the state\<close>

lemma dbg_write_eq [dbg_simps]:
  "dbg_write t s = (Inr (), s\<lparr>dc_unwritten := dc_unwritten s + length t, io_log := io_log s @ [Start (D_write t)]\<rparr>)"
  by (simp add: dbg_write_def bindS_def)

lemma console_out_simps [simp]:
  "console_out (s\<lparr>io_log := io_log s @ [Start d]\<rparr>) = console_out s @ op_text d"
  "console_out (s\<lparr>dc_unwritten := n\<rparr>) = console_out s"
  "console_out (s\<lparr>dc_unwritten := n, io_log := io_log s @ [Start d]\<rparr>) = console_out s @ op_text d"
  "console_out (s\<lparr>dc_ctx := c\<rparr>) = console_out s"
  "console_out (s\<lparr>dc_pending_calls := q\<rparr>) = console_out s"
  "console_out (s\<lparr>dc_next_call := k\<rparr>) = console_out s"
  "console_out (s\<lparr>dc_json_mode := j\<rparr>) = console_out s"
  by (simp_all add: console_out_def)

text \<open>One line more, and the calls as they were.\<close>

definition wrote_line :: "string \<Rightarrow> ('t, 'u) dbg_connection \<Rightarrow> ('t, 'u) dbg_connection \<Rightarrow> bool" where
  "wrote_line t s s' \<longleftrightarrow> console_out s' = console_out s @ t @ nl
     \<and> map_of (dc_pending_calls s') = map_of (dc_pending_calls s)"

lemma dbg_write_line_eq:
  "\<exists>s'. dbg_write_line t s = (Inr (), s') \<and> wrote_line t s s' \<and> dc_ctx s' = dc_ctx s
     \<and> dc_pending_calls s' = dc_pending_calls s \<and> dc_next_call s' = dc_next_call s"
  by (auto simp: dbg_write_line_def bindS_def dbg_write_eq wrote_line_def console_out_def)

lemma dbg_write_json_eq:
  "dbg_write_json b s = (r, s') \<Longrightarrow>
     (case r of Inr _ \<Rightarrow> \<exists>t. to_json b = Inr t \<and> wrote_line t s s'
      | Inl t \<Rightarrow> s' = s \<and> (\<exists>e. to_json b = Inl e \<and> t = Std_exn (exn_what e)))"
proof (cases "to_json b")
  case (Inr t)
  assume w: "dbg_write_json b s = (r, s')"
  obtain s1 where "dbg_write_line t s = (Inr (), s1)" "wrote_line t s s1" using dbg_write_line_eq [of t s] by blast
  with w Inr show ?thesis by (auto simp: dbg_write_json_def bindS_def)
qed (auto simp: dbg_write_json_def bindS_def)

text \<open>A response carries the id of the command.\<close>

definition response :: "buffer \<Rightarrow> parm list \<Rightarrow> buffer" where
  "response i ps = cbor_map (P_str ''id'' # P_buf i # P_str ''ok'' # ps)"

definition answered :: "buffer \<Rightarrow> ('t, 'u) dbg_connection \<Rightarrow> ('t, 'u) dbg_connection \<Rightarrow> bool" where
  "answered i s s' \<longleftrightarrow> (\<exists>ps t. to_json (response i ps) = Inr t \<and> wrote_line t s s')"

definition call_pending :: "buffer \<Rightarrow> ('t, 'u) dbg_connection \<Rightarrow> ('t, 'u) dbg_connection \<Rightarrow> bool" where
  "call_pending i s s' \<longleftrightarrow> console_out s' = console_out s
     \<and> map_of (dc_pending_calls s') = (map_of (dc_pending_calls s))(dc_next_call s \<mapsto> i)
     \<and> dc_next_call s' = dc_next_call s + 1"

text \<open>
  What a piece of a command may do: when it returns, one response or one pending call; when it
  throws a \<open>domain_error\<close>, nothing visible.
\<close>

definition silent :: "('t, 'u) dbg_connection \<Rightarrow> ('t, 'u) dbg_connection \<Rightarrow> bool" where
  "silent s s' \<longleftrightarrow> console_out s' = console_out s \<and> map_of (dc_pending_calls s') = map_of (dc_pending_calls s)
     \<and> dc_next_call s' = dc_next_call s"

definition one_answer :: "buffer \<Rightarrow> ('t, 'u) dbg_connection \<Rightarrow> (thrown + 'a) \<times> ('t, 'u) dbg_connection \<Rightarrow> bool" where
  "one_answer i s p \<longleftrightarrow> (case fst p of
       Inr _ \<Rightarrow> answered i s (snd p) \<or> call_pending i s (snd p)
     | Inl t \<Rightarrow> console_out (snd p) = console_out s \<and> map_of (dc_pending_calls (snd p)) = map_of (dc_pending_calls s)
         \<and> (\<exists>w. t = Std_exn w))"

lemma silentI [intro, simp]: "silent s s"
  by (simp add: silent_def)

lemma one_answer_throw: "silent s s' \<Longrightarrow> one_answer i s (Inl (Std_exn w), s')"
  by (simp add: one_answer_def silent_def)

lemma one_answer_silent: "silent s s1 \<Longrightarrow> one_answer i s1 p \<Longrightarrow> one_answer i s p"
  by (auto simp: one_answer_def silent_def answered_def wrote_line_def call_pending_def split: sum.splits)

lemma one_answer_lift:
  assumes "\<And>x. one_answer i s (f x s)"
  shows "one_answer i s (bindS (liftS r) f s)"
  using assms by (cases r) (simp_all add: bindS_def one_answer_throw)

lemma one_answer_json: "one_answer i s (dbg_write_json (response i ps) s)"
  using dbg_write_json_eq [of "response i ps" s]
  by (cases "dbg_write_json (response i ps) s")
    (fastforce simp: one_answer_def answered_def split: sum.splits)

lemma one_answer_reply: "one_answer i s (reply_ok i s)" "one_answer i s (reply_error i w s)"
  using one_answer_json [of i s "[P_bool True]"] one_answer_json [of i s "[P_bool False, P_str ''error'', P_str w]"]
  by (simp_all add: reply_ok_def reply_error_def response_def)

lemma one_answer_stay: "one_answer i s (c s) \<Longrightarrow> one_answer i s (bindS c (\<lambda>_. returnS x) s)"
  by (auto simp: one_answer_def bindS_def split: prod.splits sum.splits)

section \<open>Spawning a proxy succeeds\<close>

lemma queue_live_ok:
  assumes "procs s p = Some a" "\<not> a_in_shutdown a"
  obtains s' a' where "queue p from m s = (Inr ok, s')" "procs s' p = Some a'" "\<not> a_in_shutdown a'"
proof -
  have "queue p from m s = (Inr ok, snd (queue p from m s))"
    using assms by (simp add: queue_def queue_with_eq actor_of_def)
  moreover have "quiet s (snd (queue p from m s))" unfolding queue_def by (rule quiet_queue_with) (rule quiet_tap_message)
  then obtain a' where "procs (snd (queue p from m s)) p = Some a'" "task_ext a a'" using quiet_procs assms(1) by metis
  ultimately show thesis using that assms(2) task_ext_fields(9) by metis
qed

lemma spawn_ok: "\<exists>h. fst (instance_spawn b eh name lnk env s) = Inr (Inr h)"
proof -
  obtain p t a where t: "instance_new b eh name env s = (p, t)" "procs t p = Some a" "\<not> a_in_shutdown a"
    by (simp add: instance_new_def Let_def)
  let ?u = "do_trace p Ch_lifetime [P_str ''spawn''] t"
  have u: "procs ?u p = Some a" using t by simp
  obtain w a' where w: "(if expired ?u \<lparr>h_ref = lnk, h_id = 0\<rparr> then returnS ok
      else queue p (make_handle ?u lnk) link_msg) ?u = (Inr ok, w)" "procs w p = Some a'" "\<not> a_in_shutdown a'"
    using u t(3) by (cases "expired ?u \<lparr>h_ref = lnk, h_id = 0\<rparr>") (auto elim: queue_live_ok [OF u t(3)])
  obtain x where "schedule p w = (Inr ok, x)" unfolding schedule_def by (rule queue_live_ok [OF w(2,3)])
  with w show ?thesis by (simp add: instance_spawn_def t Let_def bindS_def ok_def)
qed

lemma spawn_link_ok:
  assumes "current_instance s = Some p"
  obtains h s' where "api_spawn_link b name e s = (Inr (Inr h), s')"
proof -
  let ?l = "if a_lifetime (actor_of s p) then Some p else None"
  obtain h x where "instance_spawn b None name ?l (env_or e p s) s = (Inr (Inr h), x)"
    using spawn_ok [of b None name ?l "env_or e p s" s] by (metis prod.collapse)
  then have "api_spawn_link b name e s = (Inr (Inr h), add_link p h (do_trace_to p Ch_link ''link'' h [] x))"
    using assms by (simp add: api_spawn_link_def private_call_def instance_spawn_link_def bindS_def del: if_split)
  then show thesis by (rule that)
qed

section \<open>Commands\<close>

lemma send_throws_std: "handle_send_raw h m s = (Inl t, s') \<Longrightarrow> \<exists>w. t = Std_exn w"
  by (auto simp: handle_send_raw_def instance_send_raw_def queue_def queue_with_eq deadsend_def
      split: option.splits if_splits sum.splits)

lemma on_ctx_silent: "on_ctx f s = (r, s') \<Longrightarrow> silent s s'"
  by (auto simp: on_ctx_def silent_def split: prod.splits)

lemma one_answer_lookup:
  assumes "\<And>a. one_answer i s (f a s)"
  shows "one_answer i s (bindS (lookup name) f s)"
  using assms by (simp add: bindS_def lookup_def Let_def one_answer_throw)

lemma one_answer_send:
  assumes "\<And>ret s'. silent s s' \<Longrightarrow> one_answer i s' (f ret s')"
  shows "one_answer i s (bindS (on_ctx (handle_send_raw a m)) f s)"
proof (cases "handle_send_raw a m (dc_ctx s)")
  case (Pair r c)
  then have o: "on_ctx (handle_send_raw a m) s = (r, s\<lparr>dc_ctx := c\<rparr>)" by (simp add: on_ctx_def)
  have q: "silent s (s\<lparr>dc_ctx := c\<rparr>)" using on_ctx_silent [OF o] .
  show ?thesis
  proof (cases r)
    case (Inl t)
    with send_throws_std [of a m "dc_ctx s" t c] Pair obtain w where "t = Std_exn w" by auto
    with Inl o q show ?thesis by (simp add: bindS_def one_answer_throw)
  next
    case (Inr ret)
    with o show ?thesis using one_answer_silent [OF q assms [OF q]] by (simp add: bindS_def)
  qed
qed

lemma one_answer_json_send: "one_answer i s (json_send i f s)"
  unfolding json_send_def
  by (intro one_answer_lift one_answer_lookup one_answer_send)
    (auto split: sum.splits intro!: one_answer_lift one_answer_reply)

lemma one_answer_tap: "one_answer i s (json_tap i f s)" "one_answer i s (json_untap i f s)"
proof -
  have "one_answer i s (bindS (dbg_tap n) (\<lambda>err. if err = [] then reply_ok i else reply_error i err) s)" for n
    by (auto simp: bindS_def dbg_tap_def one_answer_reply
        intro!: one_answer_silent [OF _ one_answer_reply(1)] simp: silent_def)
  then show "one_answer i s (json_tap i f s)" unfolding json_tap_def by (rule one_answer_lift)
  have "one_answer i s (bindS (dbg_untap n) (\<lambda>r. if r then reply_ok i else reply_error i (n @ '' not tapped'')) s)" for n
    by (auto simp: bindS_def dbg_untap_def silent_def split: prod.splits
        intro!: one_answer_silent [OF _ one_answer_reply(1)] one_answer_silent [OF _ one_answer_reply(2)])
  then show "one_answer i s (json_untap i f s)" unfolding json_untap_def by (rule one_answer_lift)
qed

lemma omap_update_lookup: "map_of (omap_update k v m) = (map_of m)(k \<mapsto> v)"
  by (induction k v m rule: omap_update.induct) (auto simp: fun_eq_iff)

lemma one_answer_call:
  assumes "current_instance (dc_ctx s) = Some p"
  shows "one_answer i s (json_call junk proxy i f s)"
proof -
  have "one_answer i s (bindS (\<lambda>s. (Inr (dc_next_call s), s\<lparr>dc_next_call := dc_next_call s + 1\<rparr>)) (\<lambda>seq.
     bindS (modifyS (\<lambda>s. s\<lparr>dc_pending_calls := omap_update seq i (dc_pending_calls s)\<rparr>)) (\<lambda>_.
     bindS (\<lambda>s. on_ctx (call_proxy_start proxy (dc_self s) seq to msg ms) s) (\<lambda>ret. case ret of
         Inr _ \<Rightarrow> returnS () | Inl e \<Rightarrow> g seq e))) s)" for to msg ms g
  proof -
    obtain h c where "api_spawn_link (call_proxy_behaviour (dc_self s) (dc_next_call s) to msg
        (proxy (dc_next_call s) ms)) ''debug_call'' None (dc_ctx s) = (Inr (Inr h), c)"
      by (rule spawn_link_ok [OF assms])
    then show ?thesis
      by (simp add: bindS_def on_ctx_def call_proxy_start_def one_answer_def call_pending_def omap_update_lookup)
  qed
  then show ?thesis unfolding json_call_def by (intro one_answer_lift one_answer_lookup)
qed

lemma one_answer_op:
  assumes "current_instance (dc_ctx s) = Some p"
  shows "one_answer i s (json_op junk proxy i f op s)"
proof -
  have "one_answer i s (json_list i s)"
    using one_answer_json [of i s "[P_bool True, P_str ''result'', P_buf (get_names (dc_ctx s))]"]
    by (simp add: json_list_def response_def)
  then show ?thesis
    unfolding json_op_def Let_def
    using one_answer_call [OF assms]
    by (auto intro!: one_answer_stay one_answer_json_send one_answer_tap one_answer_reply)
qed

text \<open>With the handler around it, a throw becomes the error response, if that can be printed.\<close>

definition answered_or_unprintable ::
    "buffer \<Rightarrow> ('t, 'u) dbg_connection \<Rightarrow> (thrown + bool) \<times> ('t, 'u) dbg_connection \<Rightarrow> bool" where
  "answered_or_unprintable i s p \<longleftrightarrow> (case fst p of
       Inr _ \<Rightarrow> answered i s (snd p) \<or> call_pending i s (snd p)
     | Inl t \<Rightarrow> \<exists>w e. to_json (response i [P_bool False, P_str ''error'', P_str w]) = Inl e)"

lemma or_reply_answers:
  assumes "one_answer i s (c s)"
  shows "answered_or_unprintable i s (or_reply_error i c s)"
proof (cases "c s")
  case (Pair r s1)
  show ?thesis
  proof (cases r)
    case (Inr go)
    with Pair assms show ?thesis by (simp add: or_reply_error_def catchS_def answered_or_unprintable_def one_answer_def)
  next
    case (Inl t)
    with assms Pair obtain w where w: "t = Std_exn w" "console_out s1 = console_out s"
        "map_of (dc_pending_calls s1) = map_of (dc_pending_calls s)"
      by (auto simp: one_answer_def)
    obtain r2 s2 where e: "reply_error i w s1 = (r2, s2)" by (cases "reply_error i w s1")
    from dbg_write_json_eq [OF e [unfolded reply_error_def]] w Pair Inl e show ?thesis
      by (auto simp: or_reply_error_def catchS_def bindS_def answered_or_unprintable_def answered_def response_def
          wrote_line_def split: sum.splits)
  qed
qed

section \<open>Properties\<close>

text \<open>
  C14. Every JSON command line is answered exactly once: the console writes one line, the JSON of an
  object with the command's own id and an \<open>ok\<close> field, or, for a \<open>call\<close>, remembers the id under a
  new number and writes nothing yet. An exception leaves the command only if the error response
  itself cannot be printed, or from the iterator over the fields.
\<close>

theorem json_command_answered:
  assumes "current_instance (dc_ctx s) = Some p"
  shows "case json_fields line of
      Inl (Out_of_range w) \<Rightarrow> dispatch_json junk proxy line s = (Inl (Std_exn w), s)
    | Inl (Domain_error w) \<Rightarrow> answered_or_unprintable null_value s (dispatch_json junk proxy line s)
    | Inr f \<Rightarrow> answered_or_unprintable (json_id f) s (dispatch_json junk proxy line s)"
proof (cases "json_fields line")
  case (Inl e)
  then show ?thesis
    by (cases e) (auto simp: dispatch_json_def intro!: or_reply_answers one_answer_throw)
next
  case (Inr f)
  have "one_answer (json_id f) s
    (bindS (liftS (require_string f ''cmd'')) (json_op junk proxy (json_id f) f) s)"
    by (rule one_answer_lift) (rule one_answer_op [OF assms])
  then show ?thesis using Inr by (simp add: dispatch_json_def or_reply_answers)
qed

text \<open>A connection of an actor of the demonstration system, with an empty prompt.\<close>

definition demo_console :: "(unit, unit) dbg_connection" where
  "demo_console = dbg_new (demo_running\<lparr>current_instance := Some 1\<rparr>) [] \<lparr>h_ref = Some 1, h_id = 1\<rparr>"

definition no_proxy :: "u64 \<Rightarrow> int \<Rightarrow> handle \<Rightarrow> buffer \<Rightarrow> (unit, unit) prog" where
  "no_proxy seq ms from m = Ret ok"

definition demo_line :: string where
  "demo_line = ''{\"id\":7,\"cmd\":\"bye\"}''"

theorem json_command_answered_witness:
  "answered_or_unprintable [7] demo_console (dispatch_json 0 no_proxy demo_line demo_console)
   \<and> console_out (snd (dispatch_json 0 no_proxy demo_line demo_console)) = ''{\"id\":7,\"ok\":true}'' @ nl"
proof -
  have c: "current_instance (dc_ctx demo_console) = Some 1" by code_simp
  have f: "json_fields demo_line = Inr [(''cmd'', [0x63, 0x62, 0x79, 0x65]), (''id'', [7])]" by code_simp
  have "console_out (snd (dispatch_json 0 no_proxy demo_line demo_console)) = ''{\"id\":7,\"ok\":true}'' @ nl" by code_simp
  with json_command_answered [OF c, where line = demo_line and junk = 0 and proxy = no_proxy] f show ?thesis by (simp add: json_id_def)
qed

section \<open>Calls\<close>

fun reports :: "proxy_op list \<Rightarrow> buffer list" where
  "reports [] = []"
| "reports (P_to_conn m # ops) = m # reports ops"
| "reports (_ # ops) = reports ops"

lemma reports_append [simp]: "reports (xs @ ys) = reports xs @ reports ys"
  by (induction xs rule: reports.induct) simp_all











section \<open>Lines\<close>

text \<open>The reference: the complete lines of a text and what follows the last newline.\<close>

fun split_lines :: "string \<Rightarrow> string list \<times> string" where
  "split_lines [] = ([], [])"
| "split_lines (c # cs) = (case split_lines cs of (ls, r) \<Rightarrow>
     if c = CHR 0x0A then ([] # ls, r)
     else case ls of [] \<Rightarrow> ([], c # r) | l # ls \<Rightarrow> ((c # l) # ls, r))"

lemma split_no_newline: "\<not> newline_in buf \<longleftrightarrow> split_lines buf = ([], buf)"
  by (induction buf) (auto simp: newline_in_def split: prod.splits list.splits)

lemma split_newline: "newline_in buf \<Longrightarrow>
  split_lines buf = (line_of buf # fst (split_lines (after_line buf)), snd (split_lines (after_line buf)))"
  by (induction buf) (auto simp: newline_in_def line_of_def after_line_def split: prod.splits list.splits)

lemma split_append:
  "split_lines (xs @ ys) = (let r = snd (split_lines xs) in
     (fst (split_lines xs) @ fst (split_lines (r @ ys)), snd (split_lines (r @ ys))))"
  by (induction xs) (auto simp: Let_def split: prod.splits list.splits)

lemma split_rest: "\<not> newline_in (snd (split_lines buf))"
  by (induction buf) (auto simp: newline_in_def split: prod.splits list.splits)

text \<open>A connection whose actor runs, on a system nobody taps.\<close>

definition console_live :: "pid \<Rightarrow> (unit, unit) actor \<Rightarrow> (unit, unit) sys \<Rightarrow> bool" where
  "console_live p a c \<longleftrightarrow> current_instance c = Some p \<and> procs c p = Some a \<and> a_lifetime a \<and> \<not> a_in_shutdown a
     \<and> tap_count c = 0"

definition dispatch_task :: "('t, 'u) actor \<Rightarrow> string \<Rightarrow> handle \<times> buffer" where
  "dispatch_task a l = (a_self_ref a, cbor_array [P_str ''dispatch'', P_str l])"

definition with_tasks :: "(handle \<times> buffer) list \<Rightarrow> ('t, 'u) actor \<Rightarrow> ('t, 'u) actor" where
  "with_tasks ts a = a\<lparr>a_tasks := a_tasks a @ ts\<rparr>"

lemma with_tasks_simps [simp]:
  "with_tasks ts (with_tasks us a) = with_tasks (us @ ts) a" "with_tasks [] a = a"
  "a_self_ref (with_tasks ts a) = a_self_ref a" "dispatch_task (with_tasks ts a) l = dispatch_task a l"
  "a_tasks (with_tasks ts a) = a_tasks a @ ts"
  by (simp_all add: with_tasks_def dispatch_task_def)

lemma send_dispatch_live:
  assumes "console_live p a (dc_ctx s)"
  obtains c where "send_dispatch l s = (Inr ok, s\<lparr>dc_ctx := c\<rparr>)"
    "console_live p (with_tasks [dispatch_task a l] a) c"
proof -
  let ?c = "dc_ctx s" and ?m = "cbor_array [P_str ''dispatch'', P_str l]"
  have live: "current_instance ?c = Some p" "procs ?c p = Some a" "a_lifetime a" "\<not> a_in_shutdown a" "tap_count ?c = 0"
    using assms by (simp_all add: console_live_def)
  obtain c where c: "queue p (a_self_ref a) ?m ?c = (Inr ok, c)" "current_instance c = current_instance ?c"
      "procs c = (procs ?c)(p \<mapsto> a\<lparr>a_tasks := a_tasks a @ [(a_self_ref a, ?m)]\<rparr>)" "tap_count c = 0"
    by (rule queue_to_live [OF live(2,4,5)])
  show thesis
  proof (rule that [of c])
    show "send_dispatch l s = (Inr ok, s\<lparr>dc_ctx := c\<rparr>)"
      using live c(1)
      by (simp add: send_dispatch_def bindS_def on_ctx_def api_self_def private_call_def actor_of_def make_handle_def
          lock_def handle_send_raw_def instance_send_raw_def)
    show "console_live p (with_tasks [dispatch_task a l] a) c"
      using live c by (simp add: console_live_def with_tasks_def dispatch_task_def)
  qed
qed

lemma send_lines_live:
  assumes "console_live p a (dc_ctx s)"
  shows "\<exists>c. send_lines buf s = (Inr (Inr (snd (split_lines buf))), s\<lparr>dc_ctx := c\<rparr>)
    \<and> console_live p (with_tasks (map (dispatch_task a) (fst (split_lines buf))) a) c"
  using assms
proof (induction buf arbitrary: s a rule: measure_induct_rule [of length])
  case (less buf)
  show ?case
  proof (cases "newline_in buf")
    case False
    then have "split_lines buf = ([], buf)" by (simp add: split_no_newline [symmetric])
    with less.prems False show ?thesis by (auto simp: send_lines.simps intro: exI [of _ "dc_ctx s"])
  next
    case True
    let ?a = "with_tasks [dispatch_task a (line_of buf)] a"
    obtain c where c: "send_dispatch (line_of buf) s = (Inr ok, s\<lparr>dc_ctx := c\<rparr>)" "console_live p ?a c"
      by (rule send_dispatch_live [OF less.prems])
    from less.IH [OF after_line_shorter [OF True], of ?a "s\<lparr>dc_ctx := c\<rparr>"] c(2)
    obtain d where d: "send_lines (after_line buf) (s\<lparr>dc_ctx := c\<rparr>)
        = (Inr (Inr (snd (split_lines (after_line buf)))), s\<lparr>dc_ctx := d\<rparr>)"
      "console_live p (with_tasks (map (dispatch_task a) (fst (split_lines (after_line buf)))) ?a) d"
      by (auto cong: map_cong)
    have "send_lines buf s = send_lines (after_line buf) (s\<lparr>dc_ctx := c\<rparr>)"
      using True c(1) by (subst send_lines.simps) (simp add: bindS_def ok_def)
    with d split_newline [OF True] show ?thesis by auto
  qed
qed

text \<open>Data arriving in chunks.\<close>

fun read_chunks :: "string list \<Rightarrow> (unit, unit) dbg_connection \<Rightarrow> (unit, unit) dbg_connection" where
  "read_chunks [] s = s"
| "read_chunks (d # ds) s = read_chunks ds (snd (read_complete d s))"

text \<open>
  C35. The console sees the lines the peer wrote, however the network cuts them: after any sequence of
  reads, the messages it has sent itself are the complete lines of all the bytes together, in
  order, and the bytes it keeps are what follows the last newline.
\<close>

theorem console_lines:
  assumes "console_live p a (dc_ctx s)" "\<not> newline_in (dc_prev_buf s)" "[] \<notin> set chunks"
  shows "let text = dc_prev_buf s @ concat chunks; s' = read_chunks chunks s in
    dc_prev_buf s' = snd (split_lines text)
    \<and> a_tasks (actor_of (dc_ctx s') p) = a_tasks a @ map (dispatch_task a) (fst (split_lines text))"
  using assms
proof (induction chunks arbitrary: s a)
  case Nil
  then show ?case by (simp add: split_no_newline console_live_def actor_of_def)
next
  case (Cons d ds)
  let ?b = "dc_prev_buf s @ d"
  obtain c where c: "send_lines ?b (s\<lparr>dc_prev_buf := d\<rparr>) = (Inr (Inr (snd (split_lines ?b))), s\<lparr>dc_prev_buf := d, dc_ctx := c\<rparr>)"
      "console_live p (with_tasks (map (dispatch_task a) (fst (split_lines ?b))) a) c"
    using send_lines_live [of p a "s\<lparr>dc_prev_buf := d\<rparr>" ?b] Cons.prems(1) by auto
  let ?s = "snd (read_complete d s)"
  have r: "dc_ctx ?s = c" "dc_prev_buf ?s = snd (split_lines ?b)"
    using c(1) Cons.prems(3) by (auto simp: read_complete_def bindS_def)
  have IH: "let text = dc_prev_buf ?s @ concat ds; s' = read_chunks ds ?s in
    dc_prev_buf s' = snd (split_lines text) \<and> a_tasks (actor_of (dc_ctx s') p) =
      a_tasks (with_tasks (map (dispatch_task a) (fst (split_lines ?b))) a) @
      map (dispatch_task (with_tasks (map (dispatch_task a) (fst (split_lines ?b))) a)) (fst (split_lines text))"
    by (rule Cons.IH) (use c(2) r Cons.prems(3) split_rest in auto)
  have s: "split_lines (?b @ concat ds) = (fst (split_lines ?b) @ fst (split_lines (dc_prev_buf ?s @ concat ds)),
      snd (split_lines (dc_prev_buf ?s @ concat ds)))"
    using split_append [of ?b "concat ds"] by (simp add: r Let_def del: append_assoc)
  show ?case using IH s by (simp add: Let_def cong: map_cong)
qed

definition demo_chunks :: "string list" where
  "demo_chunks = [''li'', ''st'' @ nl @ ''by'', ''e'' @ nl @ ''x'']"

theorem console_lines_witness:
  "dc_prev_buf (read_chunks demo_chunks demo_console) = ''x''"
proof -
  have l: "current_instance (dc_ctx demo_console) = Some 1" "tap_count (dc_ctx demo_console) = 0"
    "procs (dc_ctx demo_console) 1 \<noteq> None" "a_lifetime (actor_of (dc_ctx demo_console) 1)"
    "\<not> a_in_shutdown (actor_of (dc_ctx demo_console) 1)" "dc_prev_buf demo_console = []"
    by code_simp+
  then obtain a where "console_live 1 a (dc_ctx demo_console)" by (auto simp: console_live_def actor_of_def)
  from console_lines [OF this, of demo_chunks] l(6) show ?thesis
    by (simp add: newline_in_def demo_chunks_def nl_def Let_def)
qed

section \<open>Closing\<close>

text \<open>
  The counter of unwritten bytes: while the socket has acknowledged no more than was written, the
  counter is the difference, and the acknowledgement that completes the output after \<open>bye\<close> is the
  one that closes the socket.
\<close>

lemma close_after_flush:
  assumes "length (console_out s) = dc_unwritten s + acked" "unat n \<le> dc_unwritten s"
    "dbg_write_complete n s = (r, s')"
  shows "r = Inr ok \<and> length (console_out s') = dc_unwritten s' + (acked + unat n)
    \<and> started (io_log s') = started (io_log s) @
        (if dc_close_on_write_complete s \<and> acked + unat n = length (console_out s) then [D_close] else [])"
  using assms by (auto simp: dbg_write_complete_def bindS_def console_out_def split: if_splits)

lemma write_counts:
  assumes "length (console_out s) = dc_unwritten s + acked" "dbg_write t s = (r, s')"
  shows "length (console_out s') = dc_unwritten s' + acked"
  using assms by (auto simp: dbg_write_eq)

end
