(* ===== verification/Debug_Mode.thy ===== *)
theory Debug_Mode
  imports Debug_Props
begin

text \<open>
  The modes of the debug console, as \<^verbatim>\<open>src/include/thespian/debug.hpp\<close> documents them: a connection
  switches to JSON mode for good, in JSON mode everything it writes is a line with one JSON object,
  and the actors of the console itself cannot be tapped. What the operations of a connection keep is
  stated for an order on its states (\<open>console_order\<close>), which is interpreted twice.
\<close>

section \<open>Taps on the console\<close>

definition debug_taps :: "('t, 'u) sys \<Rightarrow> (string \<times> handle) set" where
  "debug_taps c = {p \<in> set (taps c). take 6 (fst p) = ''debug_''}"

lemma debug_taps_cong: "taps c' = taps c \<Longrightarrow> debug_taps c' = debug_taps c"
  by (simp add: debug_taps_def)

interpretation no_debug_taps: sys_order "\<lambda>c c'. debug_taps c' \<subseteq> debug_taps c"
proof (unfold_locales, goal_cases)
  case (7 s name)
  show ?case by (auto simp: debug_taps_def tap_subscribers_def Let_def)
qed (auto simp: debug_taps_def submit_msg_task_def upd_def instance_new_def Let_def)

lemma unregister_taps: "debug_taps (unregister_instance n c) = debug_taps c"
  by (rule debug_taps_cong) (simp add: unregister_instance_def)

lemma tap_remove_taps: "debug_taps (snd (tap_remove n h c)) \<subseteq> debug_taps c"
  by (auto simp: debug_taps_def tap_remove_def Let_def)

lemma tap_add_taps: "take 6 n \<noteq> ''debug_'' \<Longrightarrow> debug_taps (tap_add n h c) \<subseteq> debug_taps c"
  by (auto simp: debug_taps_def tap_add_def set_mmap_emplace)

section \<open>Orders on connections\<close>

locale console_order = state_order R
  for R :: "('t, 'u) dbg_connection \<Rightarrow> ('t, 'u) dbg_connection \<Rightarrow> bool" +
  assumes ctx: "debug_taps c \<subseteq> debug_taps (dc_ctx s) \<Longrightarrow> R s (s\<lparr>dc_ctx := c\<rparr>)"
    and calls: "R s (s\<lparr>dc_pending_calls := q\<rparr>)"
    and next_call: "R s (s\<lparr>dc_next_call := k\<rparr>)"
    and prev_buf: "R s (s\<lparr>dc_prev_buf := b\<rparr>)"
    and unwritten: "R s (s\<lparr>dc_unwritten := n\<rparr>)"
    and closing: "R s (s\<lparr>dc_close_on_write_complete := j\<rparr>)"
    and quiet_op: "op_text d = [] \<Longrightarrow> R s (snd (start_op d s))"
    and json_line: "to_json (cbor_map ps) = Inr t \<Longrightarrow> R s (snd (dbg_write_line t s))"
begin

lemma on_ctx_keeps [intro]:
  assumes "keeps (\<lambda>c c'. debug_taps c' \<subseteq> debug_taps c) f"
  shows "keeps R (on_ctx f)"
proof (rule keepsI)
  fix s :: "('t, 'u) dbg_connection"
  obtain r c where "f (dc_ctx s) = (r, c)" by fastforce
  with keepsD [OF assms this] show "R s (snd (on_ctx f s))" by (simp add: on_ctx_def ctx)
qed

lemma write_json_keeps [intro]: "keeps R (dbg_write_json (cbor_map ps))"
proof (rule keepsI)
  fix s :: "('t, 'u) dbg_connection"
  show "R s (snd (dbg_write_json (cbor_map ps) s))"
    by (cases "to_json (cbor_map ps)") (simp_all add: dbg_write_json_def bindS_def refl json_line)
qed

lemma reply_keeps [intro]: "keeps R (reply_ok i)" "keeps R (reply_error i w)"
  unfolding reply_ok_def reply_error_def by blast+

lemma lookup_keeps [intro]: "keeps R (lookup name)"
  by (rule keepsI) (simp add: lookup_def Let_def refl)

lemma tap_keeps [intro]: "keeps R (dbg_tap name)" "keeps R (dbg_untap name)"
proof (rule_tac [!] keepsI)
  fix s :: "('t, 'u) dbg_connection"
  show "R s (snd (dbg_tap name s))" by (simp add: dbg_tap_def refl ctx tap_add_taps)
  show "R s (snd (dbg_untap name s))"
    using tap_remove_taps [of name "dc_self s" "dc_ctx s"] by (cases "tap_remove name (dc_self s) (dc_ctx s)") (simp add: dbg_untap_def ctx)
qed

lemma take_call_keeps [intro]: "keeps R (take_call seq)"
  by (rule keepsI) (simp add: take_call_def refl calls split: option.split)

lemma start_keeps: "op_text d = [] \<Longrightarrow> keeps R (start_op d)"
  by (rule keepsI) (rule quiet_op)

lemma modify_keeps:
  "keeps R (modifyS (\<lambda>s. s\<lparr>dc_pending_calls := f s\<rparr>))" "keeps R (modifyS (\<lambda>s. s\<lparr>dc_prev_buf := b\<rparr>))"
  "keeps R (modifyS (\<lambda>s. s\<lparr>dc_unwritten := g s\<rparr>))" "keeps R (modifyS (\<lambda>s. s\<lparr>dc_close_on_write_complete := j\<rparr>))"
  by (simp_all add: keeps_def calls prev_buf unwritten closing)

lemma count_call_keeps: "keeps R (\<lambda>s. (Inr (dc_next_call s), s\<lparr>dc_next_call := dc_next_call s + 1\<rparr>))"
  by (rule keepsI) (simp add: next_call)

lemma json_list_keeps: "keeps R (json_list i)"
proof (rule keepsI)
  fix s :: "('t, 'u) dbg_connection"
  show "R s (snd (json_list i s))"
    unfolding json_list_def by (rule spec [OF write_json_keeps [unfolded keeps_def]])
qed

lemma json_send_keeps: "keeps R (json_send i f)"
  unfolding json_send_def
  by (intro keeps_bind keeps_case_sum keeps_lift on_ctx_keeps lookup_keeps reply_keeps no_debug_taps.handle_send_raw_keeps)

lemma json_tap_keeps: "keeps R (json_tap i f)" "keeps R (json_untap i f)"
  unfolding json_tap_def json_untap_def by (intro keeps_bind keeps_if keeps_lift tap_keeps reply_keeps)+

lemma call_start_keeps: "keeps R (\<lambda>s. on_ctx (call_proxy_start proxy (dc_self s) seq to msg timeout_ms) s)"
proof (rule keepsI)
  fix s :: "('t, 'u) dbg_connection"
  have "keeps R (on_ctx (call_proxy_start proxy (dc_self s) seq to msg timeout_ms))"
    unfolding call_proxy_start_def by (rule on_ctx_keeps) (rule no_debug_taps.api_spawn_link_keeps)
  then show "R s (snd (on_ctx (call_proxy_start proxy (dc_self s) seq to msg timeout_ms) s))" by (simp add: keeps_def)
qed

lemma json_call_keeps: "keeps R (json_call junk proxy i f)"
  unfolding json_call_def
  by (intro keeps_bind keeps_case_sum keeps_lift keeps_return call_start_keeps count_call_keeps modify_keeps
      lookup_keeps reply_keeps)

lemmas json_keeps = json_list_keeps json_send_keeps json_call_keeps json_tap_keeps

lemma json_op_keeps: "keeps R (json_op junk proxy i f op)"
  unfolding json_op_def Let_def
  by (intro keeps_bind keeps_if keeps_return json_keeps reply_keeps)

lemma or_reply_keeps: assumes "keeps R c" shows "keeps R (or_reply_error i c)"
proof -
  have "keeps R (case t of Std_exn what \<Rightarrow> bindS (reply_error i what) (\<lambda>_. returnS True) | Other_exn \<Rightarrow> throwS Other_exn)" for t
    by (cases t) (auto intro: keeps_bind)
  with assms show ?thesis unfolding or_reply_error_def by (intro keeps_catch)
qed

lemma dispatch_json_keeps: "keeps R (dispatch_json junk proxy line)"
proof (cases "json_fields line")
  case (Inl e)
  then show ?thesis by (cases e) (auto simp: dispatch_json_def intro: or_reply_keeps)
next
  case (Inr f)
  then show ?thesis by (auto simp: dispatch_json_def intro!: or_reply_keeps keeps_bind json_op_keeps)
qed

lemma send_dispatch_keeps: "keeps R (send_dispatch line)"
  unfolding send_dispatch_def
  by (intro keeps_bind on_ctx_keeps no_debug_taps.api_getters_keep no_debug_taps.handle_send_raw_keeps)

lemma send_lines_keeps: "keeps R (send_lines buf)"
proof (induction buf rule: send_lines.induct)
  case (1 buf)
  then show ?case
    by (subst send_lines.simps) (auto intro!: keeps_bind keeps_case_sum send_dispatch_keeps)
qed

lemma read_complete_keeps: "keeps R (read_complete data)"
proof (rule keepsI)
  fix s :: "('t, 'u) dbg_connection"
  let ?rest = "bindS (send_lines (dc_prev_buf s @ data)) (\<lambda>r. case r of
          Inl e \<Rightarrow> returnS (Inl e)
        | Inr rest \<Rightarrow> bindS (modifyS (\<lambda>s. s\<lparr>dc_prev_buf := rest\<rparr>)) (\<lambda>_.
            bindS (start_op D_read) (\<lambda>_. returnS ok)))"
  have "keeps R ?rest"
    by (intro keeps_bind keeps_case_sum keeps_return send_lines_keeps modify_keeps start_keeps) simp
  then have "R (s\<lparr>dc_prev_buf := data\<rparr>) (snd (?rest (s\<lparr>dc_prev_buf := data\<rparr>)))" unfolding keeps_def by blast
  then have "R s (snd (?rest (s\<lparr>dc_prev_buf := data\<rparr>)))" by (rule trans [OF prev_buf])
  moreover have "R s (snd (start_op D_close s))" by (rule quiet_op) simp
  ultimately show "R s (snd (read_complete data s))" by (simp add: read_complete_def bindS_def)
qed

lemma write_complete_keeps: "keeps R (dbg_write_complete written)"
proof -
  have "keeps R (\<lambda>s. bindS (if dc_close_on_write_complete s \<and> dc_unwritten s = 0 then start_op D_close else returnS ())
         (\<lambda>_. returnS ok) s)"
  proof (rule keepsI)
    fix s :: "('t, 'u) dbg_connection"
    have "keeps R (bindS (if dc_close_on_write_complete s \<and> dc_unwritten s = 0 then start_op D_close else returnS ())
         (\<lambda>_. returnS ok))" by (intro keeps_bind keeps_if keeps_return start_keeps) simp
    then show "R s (snd (bindS (if dc_close_on_write_complete s \<and> dc_unwritten s = 0 then start_op D_close else returnS ())
         (\<lambda>_. returnS ok) s))" by (simp add: keeps_def)
  qed
  then show ?thesis unfolding dbg_write_complete_def by (intro keeps_bind modify_keeps)
qed

lemma shutdown_keeps: "keeps R (dbg_shutdown reason msg)"
  unfolding dbg_shutdown_def by (intro keeps_bind keeps_return tap_keeps)

lemma call_keeps: "keeps R (call_reply seq name r)" "keeps R (call_failed seq err)"
  unfolding call_reply_def call_failed_def by (intro keeps_bind take_call_keeps write_json_keeps reply_keeps)+

lemmas console_keeps = keeps_bind keeps_if keeps_return keeps_lift modify_keeps read_complete_keeps write_complete_keeps
  shutdown_keeps call_keeps take_call_keeps reply_keeps

lemma on_match_keeps:
  "(\<And>xs. keeps R (f xs)) \<Longrightarrow> keeps R k \<Longrightarrow> keeps R (on_match m pats f k)"
  unfolding on_match_def by (intro keeps_bind keeps_lift) (auto split: option.split)

text \<open>A message to the connection, if the three operations that depend on the mode keep the order.\<close>

lemma receive_keeps:
  assumes "\<And>buf. keeps R (dispatch junk proxy buf)" "\<And>n d p r. keeps R (write_tap n d p r)"
    "keeps R (write_message from m)"
  shows "keeps R (dbg_receive junk proxy from m)"
  unfolding dbg_receive_def Let_def by (intro on_match_keeps console_keeps assms)

end

text \<open>In text mode a connection writes any text.\<close>

locale text_order = console_order R
  for R :: "('t, 'u) dbg_connection \<Rightarrow> ('t, 'u) dbg_connection \<Rightarrow> bool" +
  assumes any_text: "R s (snd (dbg_write t s))"
begin

lemma write_keeps: "keeps R (dbg_write t)"
  by (rule keepsI) (rule any_text)

lemma write_line_keeps: "keeps R (dbg_write_line t)"
  unfolding dbg_write_line_def by (intro keeps_bind write_keeps)

lemma write_names_keeps: "keeps R (write_names first ns)"
  by (induction ns arbitrary: first) (auto intro!: keeps_bind keeps_if write_keeps)

lemma list_names_keeps: "keeps R list_names"
proof (rule keepsI)
  fix s :: "('t, 'u) dbg_connection"
  have "keeps R (bindS (write_names True ns) (\<lambda>_. bindS (dbg_write nl) (\<lambda>_.
          on_ctx (forS es (\<lambda>n. modifyS (unregister_instance n))))))" for ns es
    by (intro keeps_bind write_keeps write_names_keeps on_ctx_keeps no_debug_taps.keeps_for no_debug_taps.keeps_modify)
      (simp add: unregister_taps)
  then show "R s (snd (list_names s))" by (simp add: list_names_def keeps_def Let_def)
qed

lemma send_text_keeps: "keeps R (send_text a rest)"
proof -
  have "keeps R (case t of
          Std_exn what \<Rightarrow> bindS (dbg_write ''error: '') (\<lambda>_. bindS (dbg_write what) (\<lambda>_. dbg_write nl))
        | Other_exn \<Rightarrow> throwS Other_exn)" for t
    by (cases t) (auto intro!: keeps_bind write_keeps)
  moreover have "keeps R (case push_json rest [] of (r, m) \<Rightarrow> bindS (liftS r) (\<lambda>_. returnS m))"
    by (cases "push_json rest []") (auto intro!: keeps_bind)
  ultimately show ?thesis
    unfolding send_text_def
    by (intro keeps_catch keeps_bind keeps_case_sum keeps_return keeps_lift on_ctx_keeps write_keeps
        no_debug_taps.handle_send_raw_keeps)
qed

lemma dispatch_text_keeps: "keeps R (dispatch_text buf)"
proof (rule keepsI)
  fix s :: "('t, 'u) dbg_connection"
  obtain w rest where w: "getword buf = (w, rest)" by fastforce
  have "keeps R (bindS list_names (\<lambda>_. returnS True))" "keeps R (bindS (dbg_write (''bye'' @ nl)) (\<lambda>_. returnS False))"
    "keeps R (bindS (if w = ''tap'' then dbg_tap rest
       else bindS (dbg_untap rest) (\<lambda>r. returnS (if r then [] else rest @ '' not tapped''))) (\<lambda>err.
       bindS (if err \<noteq> [] then dbg_write_line (''error: '' @ err) else returnS ()) (\<lambda>_. returnS True)))"
    "keeps R (bindS (dbg_write ''error: '') (\<lambda>_. bindS (dbg_write w) (\<lambda>_.
       bindS (dbg_write ('' not found'' @ nl)) (\<lambda>_. returnS True))))"
    by (intro keeps_bind keeps_if keeps_return tap_keeps list_names_keeps write_keeps write_line_keeps)+
  moreover have "keeps R (bindS (send_text a r) (\<lambda>_. returnS True))" for a r
    by (intro keeps_bind keeps_return send_text_keeps)
  ultimately show "R s (snd (dispatch_text buf s))" by (simp add: dispatch_text_def keeps_def w Let_def)
qed

end

section \<open>JSON mode\<close>

text \<open>Complete lines, each with the JSON text of a map.\<close>

definition json_lines :: "string \<Rightarrow> bool" where
  "json_lines t \<longleftrightarrow> (\<exists>js. t = concat (map (\<lambda>j. j @ nl) js) \<and> (\<forall>j \<in> set js. \<exists>ps. to_json (cbor_map ps) = Inr j))"

lemma json_lines_append: "json_lines t \<Longrightarrow> json_lines u \<Longrightarrow> json_lines (t @ u)"
  unfolding json_lines_def
proof (elim exE conjE)
  fix js ks
  assume "t = concat (map (\<lambda>j. j @ nl) js)" "u = concat (map (\<lambda>j. j @ nl) ks)"
    "\<forall>j \<in> set js. \<exists>ps. to_json (cbor_map ps) = Inr j" "\<forall>j \<in> set ks. \<exists>ps. to_json (cbor_map ps) = Inr j"
  then show "\<exists>ls. t @ u = concat (map (\<lambda>j. j @ nl) ls) \<and> (\<forall>j \<in> set ls. \<exists>ps. to_json (cbor_map ps) = Inr j)"
    by (intro exI [of _ "js @ ks"]) auto
qed

lemma json_lines_simps [simp]: "json_lines []" "to_json (cbor_map ps) = Inr j \<Longrightarrow> json_lines (j @ nl)"
  unfolding json_lines_def by (rule exI [of _ "[]"], simp) (rule exI [of _ "[j]"], auto)

text \<open>What every operation keeps, in any mode; and what it keeps in JSON mode.\<close>

definition calm :: "('t, 'u) dbg_connection \<Rightarrow> ('t, 'u) dbg_connection \<Rightarrow> bool" where
  "calm s s' \<longleftrightarrow> dc_json_mode s' = dc_json_mode s \<and> debug_taps (dc_ctx s') \<subseteq> debug_taps (dc_ctx s)"

definition json_only :: "('t, 'u) dbg_connection \<Rightarrow> ('t, 'u) dbg_connection \<Rightarrow> bool" where
  "json_only s s' \<longleftrightarrow> debug_taps (dc_ctx s') \<subseteq> debug_taps (dc_ctx s) \<and>
     (dc_json_mode s \<longrightarrow> dc_json_mode s' \<and> (\<exists>t. console_out s' = console_out s @ t \<and> json_lines t))"

lemma json_only_trans: "json_only s t \<Longrightarrow> json_only t u \<Longrightarrow> json_only s u"
  by (auto simp: json_only_def intro: json_lines_append)

lemma write_line_fields:
  "dc_json_mode (snd (dbg_write_line t s)) = dc_json_mode s" "dc_ctx (snd (dbg_write_line t s)) = dc_ctx s"
  "console_out (snd (dbg_write_line t s)) = console_out s @ t @ nl"
  by (simp_all add: dbg_write_line_def bindS_def dbg_write_eq console_out_def)

lemma console_out_more [simp]:
  "console_out (s\<lparr>dc_prev_buf := b\<rparr>) = console_out s" "console_out (s\<lparr>dc_close_on_write_complete := j\<rparr>) = console_out s"
  by (simp_all add: console_out_def)

lemma start_op_fields:
  fixes s :: "('t, 'u) dbg_connection"
  shows "dc_json_mode (snd (start_op d s)) = dc_json_mode s" "dc_ctx (snd (start_op d s)) = dc_ctx s"
  "console_out (snd (start_op d s)) = console_out s @ op_text d"
  by (simp_all add: console_out_def)

interpretation calm: text_order calm
  by unfold_locales (auto simp: calm_def write_line_fields start_op_fields dbg_write_eq)

interpretation json_only: console_order json_only
proof (unfold_locales, goal_cases)
  case (2 s t u)
  then show ?case by (rule json_only_trans)
qed (auto simp: json_only_def write_line_fields start_op_fields)

lemma calm_json_only: "calm s s' \<Longrightarrow> \<not> dc_json_mode s \<Longrightarrow> json_only s s'"
  by (simp add: calm_def json_only_def)

text \<open>An operation that does one thing in JSON mode and another in text mode.\<close>

lemma by_mode:
  assumes "keeps json_only f" "keeps calm g" "c s = (if dc_json_mode s then f s else g s)"
  shows "json_only s (snd (c s))"
  using assms(1,2) calm_json_only [of s] by (cases "dc_json_mode s") (simp_all add: assms(3) keeps_def)

lemma dispatch_json_only: "keeps json_only (dispatch junk proxy buf :: (bool, 't, 'u) dbg)"
proof (rule keepsI)
  fix s :: "('t, 'u) dbg_connection"
  let ?buf = "if buf \<noteq> [] \<and> last buf = CHR 0x0D then butlast buf else buf"
  let ?text = "dropWhile is_blank ?buf"
  let ?json = "bindS (modifyS (\<lambda>s. s\<lparr>dc_json_mode := True\<rparr>)) (\<lambda>_. dispatch_json junk proxy ?buf) :: (bool, 't, 'u) dbg"
  let ?bad = "bindS (if ?text \<noteq> [] then reply_error null_value ''expected a JSON object'' else returnS ()) (\<lambda>_. returnS True) :: (bool, 't, 'u) dbg"
  let ?t = "bindS (dispatch_text ?buf) (\<lambda>go. if \<not> go then returnS False
        else bindS (dbg_write (dc_prompt s)) (\<lambda>_. returnS True)) :: (bool, 't, 'u) dbg"
  have j: "keeps json_only ?json"
    by (intro json_only.keeps_bind json_only.dispatch_json_keeps json_only.keeps_modify) (simp add: json_only_def)
  have b: "keeps json_only ?bad"
    by (intro json_only.keeps_bind json_only.keeps_if json_only.reply_keeps json_only.keeps_return)
  have t: "keeps calm ?t"
    by (intro calm.keeps_bind calm.keeps_if calm.keeps_return calm.write_keeps calm.dispatch_text_keeps)
  show "json_only s (snd (dispatch junk proxy buf s))"
  proof (cases "?text \<noteq> [] \<and> hd ?text = CHR ''{''")
    case True
    then have "dispatch junk proxy buf s = ?json s" unfolding dispatch_def Let_def by (rule if_P)
    with j show ?thesis by (simp add: keeps_def)
  next
    case False
    then have "dispatch junk proxy buf s = (if dc_json_mode s then ?bad s else ?t s)"
      unfolding dispatch_def Let_def by (rule if_not_P)
    with b t show ?thesis by (rule by_mode)
  qed
qed

lemma write_tap_json_only: "keeps json_only (write_tap n d p r :: (unit, 't, 'u) dbg)"
proof (rule keepsI)
  fix s :: "('t, 'u) dbg_connection"
  let ?ps = "[P_str ''event'', P_str ''tap'', P_str ''actor'', P_str n, P_str ''dir'', P_str d]
          @ (if d = ''exit'' then [] else [P_str ''peer'', P_str p]) @ [P_str ''msg'', P_buf r]"
  let ?line = "\<lambda>j. if d = ''exit'' then ''tap '' @ n @ '' exit '' @ j
         else ''tap '' @ n @ '' '' @ d @ '' '' @ p @ '' '' @ j"
  have "keeps calm (bindS (liftS (to_json r)) (\<lambda>j. dbg_write_line (?line j)) :: (unit, 't, 'u) dbg)"
    by (intro calm.keeps_bind calm.keeps_lift calm.write_line_keeps)
  with json_only.write_json_keeps [of ?ps] show "json_only s (snd (write_tap n d p r s))"
    by (rule by_mode) (simp add: write_tap_def)
qed

lemma write_message_json_only: "keeps json_only (write_message from m :: (unit, 't, 'u) dbg)"
proof (rule keepsI)
  fix s :: "('t, 'u) dbg_connection"
  let ?n = "instance_name (dc_ctx s) from"
  let ?name = "if ?n = [] then ''expired'' else ?n"
  have "keeps calm (bindS (dbg_write ?name) (\<lambda>_. bindS (dbg_write '' '') (\<lambda>_.
           bindS (liftS (to_json m)) (\<lambda>j. bindS (dbg_write j) (\<lambda>_. dbg_write nl)))) :: (unit, 't, 'u) dbg)"
    by (intro calm.keeps_bind calm.keeps_lift calm.write_keeps)
  with json_only.write_json_keeps [of "[P_str ''event'', P_str ''message'', P_str ''from'', P_str ?name, P_str ''msg'', P_buf m]"]
  show "json_only s (snd (write_message from m s))"
    by (rule by_mode) (simp add: write_message_def Let_def)
qed

section \<open>Properties\<close>

text \<open>A connection on a list of messages, whatever it returns to each of them.\<close>

fun run_console ::
    "int \<Rightarrow> (u64 \<Rightarrow> int \<Rightarrow> handle \<Rightarrow> buffer \<Rightarrow> ('t, 'u) prog) \<Rightarrow> (handle \<times> buffer) list \<Rightarrow>
     ('t, 'u) dbg_connection \<Rightarrow> ('t, 'u) dbg_connection" where
  "run_console junk proxy [] s = s"
| "run_console junk proxy ((from, m) # ms) s = run_console junk proxy ms (snd (dbg_receive junk proxy from m s))"

lemma run_console_json_only: "json_only s (run_console junk proxy ms s)"
proof (induction ms arbitrary: s)
  case Nil
  show ?case using json_only.refl by simp
next
  case (Cons x ms)
  obtain "from" m where x: "x = (from, m)" by fastforce
  have "keeps json_only (dbg_receive junk proxy from m)"
    by (intro json_only.receive_keeps dispatch_json_only write_tap_json_only write_message_json_only)
  then have "json_only s (snd (dbg_receive junk proxy from m s))" by (simp add: keeps_def)
  from json_only_trans [OF this Cons.IH] show ?case by (simp add: x)
qed

text \<open>
  C15. JSON mode is for good: once a connection is in it, it stays there whatever messages it gets, and
  all it writes from then on is complete lines, each the JSON text of one map. In both modes no
  message makes a connection tap an actor whose name begins with \<open>debug_\<close>.
\<close>

theorem json_mode_for_good:
  "(dc_json_mode s \<longrightarrow> dc_json_mode (run_console junk proxy ms s)
      \<and> (\<exists>t. console_out (run_console junk proxy ms s) = console_out s @ t \<and> json_lines t))
    \<and> debug_taps (dc_ctx (run_console junk proxy ms s)) \<subseteq> debug_taps (dc_ctx s)"
  using run_console_json_only [of s junk proxy ms] by (simp add: json_only_def)

theorem json_mode_for_good_witness:
  "dc_json_mode (run_console 0 no_proxy [(null_handle, cbor_array [P_str ''dispatch'', P_str demo_line])]
     (demo_console\<lparr>dc_json_mode := True\<rparr>))"
  using json_mode_for_good [of "demo_console\<lparr>dc_json_mode := True\<rparr>" 0 no_proxy
      "[(null_handle, cbor_array [P_str ''dispatch'', P_str demo_line])]"] by simp

end
