(* ===== verification/Network.thy ===== *)
theory Network
  imports Endpoint_Props Socket
begin

text \<open>
  Two endpoints over a network: a connection writes the messages it is sent to its socket, the socket
  sends the bytes in pieces, the network delivers them in other pieces, and the connection at the
  other end cuts them into messages again.
\<close>

section \<open>What a connection writes\<close>

fun conn_writes :: "conn_op list \<Rightarrow> buffer list" where
  "conn_writes [] = []"
| "conn_writes (C_write m # ops) = m # conn_writes ops"
| "conn_writes (_ # ops) = conn_writes ops"

lemma conn_writes_append [simp]: "conn_writes (xs @ ys) = conn_writes xs @ conn_writes ys"
  by (induction xs rule: conn_writes.induct) simp_all

text \<open>A message that is not one of the connection's own socket and not an exit.\<close>

definition socket_patterns :: "string \<Rightarrow> pat list list" where
  "socket_patterns tag = map (\<lambda>ps. p_str ''socket'' # p_str tag # ps)
     [[p_str ''read_error'', x_int, x_str], [p_str ''read_complete'', x_str], [p_str ''write_error'', x_int, x_str],
      [p_str ''write_complete'', x_int], [p_str ''closed'']]"

definition plain_message :: "string \<Rightarrow> buffer \<Rightarrow> bool" where
  "plain_message tag m \<longleftrightarrow> list_all (\<lambda>ps. matches m ps = Inr None) (socket_patterns tag) \<and> is_exit_msg m = Inr False"

lemma connection_forwards:
  assumes "plain_message (cn_tag s) m"
  shows "\<exists>s'. connection_receive reply m s = (Inr ok, s') \<and> cn_tag s' = cn_tag s
    \<and> conn_writes (started (io_log s')) = conn_writes (started (io_log s)) @ [m]"
  using assms
  by (auto simp: plain_message_def socket_patterns_def connection_receive_def on_match_def bindS_def conn_write_def
      conn_trace_def)

definition forward :: "(buffer \<Rightarrow> exn + result) \<Rightarrow> buffer list \<Rightarrow> connection \<Rightarrow> connection" where
  "forward reply ms s = fold (\<lambda>m s. snd (connection_receive reply m s)) ms s"

lemma forward_writes:
  assumes "\<forall>m \<in> set ms. plain_message (cn_tag s) m"
  shows "conn_writes (started (io_log (forward reply ms s))) = conn_writes (started (io_log s)) @ ms"
  using assms
proof (induction ms arbitrary: s)
  case (Cons m ms)
  obtain s' where s': "connection_receive reply m s = (Inr ok, s')" "cn_tag s' = cn_tag s"
    "conn_writes (started (io_log s')) = conn_writes (started (io_log s)) @ [m]"
    using connection_forwards [of s m reply] Cons.prems by auto
  with Cons show ?case by (simp add: forward_def)
qed (simp add: forward_def)

section \<open>A prefix of encoded messages\<close>

lemma prefix_of_messages:
  assumes "\<forall>v \<in> set vs. wf_cval v" "sent @ rest = concat (map enc vs)"
  shows "\<exists>k p. k \<le> length vs \<and> sent = concat (map enc (take k vs)) @ p \<and> partial p
    \<and> (rest = [] \<longrightarrow> k = length vs \<and> p = [])"
  using assms
proof (induction vs arbitrary: sent)
  case Nil then show ?case by (simp add: partial_def)
next
  case (Cons v vs)
  show ?case
  proof (cases "length (enc v) \<le> length sent")
    case True
    define sent' where "sent' = drop (length (enc v)) sent"
    have t: "sent @ rest = enc v @ concat (map enc vs)" using Cons.prems(2) by simp
    then have "take (length (enc v)) sent = enc v" "sent' @ rest = concat (map enc vs)"
      using True by (auto simp: append_eq_append_conv_if sent'_def split: if_splits)
    then have s: "sent = enc v @ sent'" "sent' @ rest = concat (map enc vs)"
      unfolding sent'_def by (metis append_take_drop_id, simp)
    from Cons.IH [OF _ s(2)] Cons.prems(1) obtain k p where k: "k \<le> length vs" "sent' = concat (map enc (take k vs)) @ p"
      "partial p" "rest = [] \<longrightarrow> k = length vs \<and> p = []" by auto
    with s(1) show ?thesis by (intro exI [of _ "Suc k"] exI [of _ p]) simp
  next
    case False
    then obtain c where c: "enc v = sent @ c" "c \<noteq> []"
      using Cons.prems(2) by (auto simp: append_eq_append_conv2) (metis append_Nil2 order_refl)
    then have "partial sent" using Cons.prems(1) by (auto simp: partial_def)
    moreover have "rest \<noteq> []" using c Cons.prems(2) by auto
    ultimately show ?thesis by (intro exI [of _ 0] exI [of _ sent]) simp
  qed
qed

section \<open>End to end\<close>

text \<open>
  C6. Messages cross the network whole and in order. An actor sends messages to a connection that is not
  closed meanwhile, none of them an exit message or one of the connection's own socket; whatever
  pieces the executor writes and whatever pieces the network delivers, the owner of the connection
  at the other end has been sent a prefix of these messages, each complete; and once everything has
  been written and delivered, exactly these messages, with no byte left over. (An exit message is
  written too, but the connection then closes its socket with the first write that completes, and what
  is still queued is lost: see \<open>exit_message_not_flushed\<close>.)
\<close>

theorem messages_across_network:
  assumes "\<forall>v \<in> set vs. wf_cval v \<and> type_of v \<in> {Type_null, Type_array, Type_map} \<and> plain_message tag (enc v)"
    "a = forward reply (map enc vs) (connection_new traced tag)"
    "fold sock_event es (socket_create tag, [], []) = (so, sent, concat (conn_writes (started (io_log a))))"
    "[] \<notin> set chunks" "concat chunks = sent"
    "b = fold (\<lambda>d s. snd (conn_data (\<lambda>_. Inr ok) d s)) chunks (connection_new traced' tag')"
  shows "\<exists>k \<le> length vs. owner_msgs (io_log b) = map enc (take k vs)
    \<and> (\<not> so_write_pending so \<longrightarrow> owner_msgs (io_log b) = map enc vs \<and> cn_read_buf b = [])"
proof -
  have n: "cn_tag (connection_new traced tag) = tag" "conn_writes (started (io_log (connection_new traced tag))) = []"
    by (simp_all add: connection_new_def conn_read_def conn_trace_def bindS_def)
  have w: "conn_writes (started (io_log a)) = map enc vs"
    using forward_writes [of "map enc vs" "connection_new traced tag" reply] assms(1,2) n by auto
  have o: "sent @ so_write_buf so @ so_write_q so = concat (map enc vs)" "\<not> so_write_pending so \<longrightarrow> sent = concat (map enc vs)"
    using socket_in_order [OF assms(3)] w by (auto split: if_splits)
  define rest where "rest = so_write_buf so @ so_write_q so"
  have "sent @ rest = concat (map enc vs)" "\<forall>v \<in> set vs. wf_cval v" using o(1) assms(1) by (simp_all add: rest_def)
  from prefix_of_messages [OF this(2,1)] obtain k p where k: "k \<le> length vs" "sent = concat (map enc (take k vs)) @ p"
      "partial p" "rest = [] \<longrightarrow> k = length vs \<and> p = []" by blast
  have "\<forall>v \<in> set (take k vs). wf_cval v \<and> type_of v \<in> {Type_null, Type_array, Type_map}"
    using assms(1) by (auto dest: in_set_takeD)
  from connection_cuts [OF this k(3) assms(4) _ assms(6)] k(2) assms(5)
  have r: "owner_msgs (io_log b) = map enc (take k vs)" "cn_read_buf b = p" by simp_all
  moreover have "rest = []" if "\<not> so_write_pending so" using o that \<open>sent @ rest = _\<close> by simp
  ultimately show ?thesis using k(1,4) by (intro exI [of _ k]) auto
qed

theorem messages_across_network_witness:
  "owner_msgs (io_log (fold (\<lambda>d s. snd (conn_data (\<lambda>_. Inr ok) d s)) [[0x81], [0x01, 0x81], [0x02]]
     (connection_new False ''r''))) = [[0x81, 0x01], [0x81, 0x02]]"
proof -
  let ?vs = "[V_arr [V_uint 1], V_arr [V_uint 2]]"
  let ?a = "forward (\<lambda>_. Inr ok) (map enc ?vs) (connection_new False ''t'')"
  let ?es = "[Inl [0x81, 0x01], Inl [0x81, 0x02], Inr (1, [], ok), Inr (1, [], ok), Inr (2, [], ok)]"
  have v: "map enc ?vs = [[0x81, 0x01], [0x81, 0x02]]" "conn_writes (started (io_log ?a)) = [[0x81, 0x01], [0x81, 0x02]]"
    "plain_message ''t'' [0x81, 0x01]" "plain_message ''t'' [0x81, 0x02]"
    by code_simp+
  have f: "snd (fold sock_event ?es (socket_create ''t'', [], [])) = ([0x81, 0x01, 0x81, 0x02], [0x81, 0x01, 0x81, 0x02])"
    "\<not> so_write_pending (fst (fold sock_event ?es (socket_create ''t'', [], [])))" by code_simp+
  let ?so = "fst (fold sock_event ?es (socket_create ''t'', [], []))"
  have e: "fold sock_event ?es (socket_create ''t'', [], [])
      = (?so, [0x81, 0x01, 0x81, 0x02], concat (conn_writes (started (io_log ?a))))"
    unfolding v(2) using f(1) by (metis concat.simps append_Cons append_Nil append_Nil2 prod.collapse)
  have w: "\<forall>v \<in> set ?vs. wf_cval v \<and> type_of v \<in> {Type_null, Type_array, Type_map} \<and> plain_message ''t'' (enc v)"
    using v by (simp del: enc.simps)
  let ?b = "fold (\<lambda>d s. snd (conn_data (\<lambda>_. Inr ok) d s)) [[0x81], [0x01, 0x81], [0x02]] (connection_new False ''r'')"
  have "\<exists>k \<le> length ?vs. owner_msgs (io_log ?b) = map enc (take k ?vs)
    \<and> (\<not> so_write_pending ?so \<longrightarrow> owner_msgs (io_log ?b) = map enc ?vs \<and> cn_read_buf ?b = [])"
    by (rule messages_across_network [OF w refl e _ _ refl]) simp_all
  with f(2) show ?thesis unfolding v(1) by blast
qed

end
