(* ===== verification/Net.thy ===== *)
theory Net
  imports Io
begin

text \<open>
  Datagram sockets, file descriptor watchers, and the acceptors and connectors for TCP and Unix
  domain sockets (\<^verbatim>\<open>src/src/instance.cpp\<close>). Results of calls of the executor and of the operating
  system (error codes, ports, the state of a path) are arguments. Completion handlers run outside
  of every actor, so a call of the interface made by a handler itself is out of context.
\<close>

type_synonym in6_addr = buffer
type_synonym port_t = u16

section \<open>Datagrams\<close>

datatype udp_op =
  Udp_bind in6_addr port_t | Udp_receive | Udp_sendto string in6_addr port_t | Udp_close

record udp_impl = "udp_op obj" +
  ud_tag :: string
  ud_open :: bool
  ud_trace :: bool

definition udp_create :: "bool \<Rightarrow> string \<Rightarrow> udp_impl" where
  "udp_create traced tag = \<lparr>io_log = [], ud_tag = tag, ud_open = False, ud_trace = traced\<rparr>"

definition udp_do_receive :: "(unit, udp_impl) comp" where
  "udp_do_receive = start_op Udp_receive"

definition udp_open :: "in6_addr \<Rightarrow> port_t \<Rightarrow> error_code \<Rightarrow> port_t \<Rightarrow> (port_t, udp_impl) comp" where
  "udp_open ip port ec local s =
     bindS (io_trace (ud_trace s) [P_str ''udp'', P_str (ud_tag s), P_str ''open'', P_uint (ucast port)]) (\<lambda>_.
     bindS (start_op (Udp_bind ip port)) (\<lambda>_.
     bindS (if failed ec then
              owner_send ([P_str ''udp'', P_str (ud_tag s), P_str ''open_error''] @ ec_parms ec)
            else bindS (modifyS (\<lambda>s. s\<lparr>ud_open := True\<rparr>)) (\<lambda>_. udp_do_receive)) (\<lambda>_.
     returnS local))) s"

definition udp_received :: "error_code \<Rightarrow> string \<Rightarrow> in6_addr \<Rightarrow> port_t \<Rightarrow> (unit, udp_impl) comp" where
  "udp_received ec data ip port s =
     (let tag = [P_str ''udp'', P_str (ud_tag s)]; n = P_uint (of_nat (length data)) in
      if \<not> ud_open s then (Inr (), s)
      else if data = [] then (Inr (), s)
      else if failed ec then
        bindS (io_trace (ud_trace s) (tag @ [P_str ''receive_error'', n] @ ec_parms ec)) (\<lambda>_.
        owner_send (tag @ [P_str ''receive_error''] @ ec_parms ec)) s
      else
        bindS (io_trace (ud_trace s) (tag @ [P_str ''receive'', n, P_str data])) (\<lambda>_.
        bindS (owner_send (tag @ [P_str ''receive'', P_str data, P_str (string_of ip), P_uint (ucast port)]))
          (\<lambda>_. udp_do_receive)) s)"

text \<open>
  \<open>show_ip\<close> is the executor's \<open>to_string\<close>; \<open>r\<close> what sending gave: the number of bytes the system sent, or
  the text of the exception that asio throws when it fails.
\<close>

definition udp_sendto ::
    "(in6_addr \<Rightarrow> string) \<Rightarrow> string + nat \<Rightarrow> string \<Rightarrow> in6_addr \<Rightarrow> port_t \<Rightarrow> (nat, udp_impl) comp" where
  "udp_sendto show_ip r data ip port s =
     bindS (io_trace (ud_trace s) [P_str ''udp'', P_str (ud_tag s), P_str ''sendto'', P_str data,
       P_str (show_ip ip), P_uint (ucast port)]) (\<lambda>_.
     bindS (start_op (Udp_sendto data ip port)) (\<lambda>_.
       case r of Inl what \<Rightarrow> throwS (Std_exn what) | Inr n \<Rightarrow> returnS n)) s"

definition udp_close :: "(unit, udp_impl) comp" where
  "udp_close s =
     bindS (if ud_open s then bindS (start_op Udp_close) (\<lambda>_. modifyS (\<lambda>s. s\<lparr>ud_open := False\<rparr>))
            else returnS ())
       (\<lambda>_. owner_send [P_str ''udp'', P_str (ud_tag s), P_str ''closed'']) s"

section \<open>File descriptors\<close>

datatype fd_op = Fd_wait_write | Fd_wait_read | Fd_cancel

record file_descriptor_impl = "fd_op obj" +
  fd_tag :: string

definition file_descriptor_create :: "string \<Rightarrow> file_descriptor_impl" where
  "file_descriptor_create tag = \<lparr>io_log = [], fd_tag = tag\<rparr>"

definition fd_wait_write :: "bool \<Rightarrow> (unit, file_descriptor_impl) comp" where
  "fd_wait_write ctx = bindS (in_context ctx) (\<lambda>_. start_op Fd_wait_write)"

definition fd_wait_read :: "bool \<Rightarrow> (unit, file_descriptor_impl) comp" where
  "fd_wait_read ctx = bindS (in_context ctx) (\<lambda>_. start_op Fd_wait_read)"

definition fd_cancel :: "bool \<Rightarrow> (unit, file_descriptor_impl) comp" where
  "fd_cancel ctx = bindS (in_context ctx) (\<lambda>_. start_op Fd_cancel)"

definition fd_write_done :: "error_code \<Rightarrow> (unit, file_descriptor_impl) comp" where
  "fd_write_done ec s =
     (if failed ec then owner_send ([P_str ''fd'', P_str (fd_tag s), P_str ''write_error''] @ ec_parms ec) s
      else owner_send [P_str ''fd'', P_str (fd_tag s), P_str ''write_ready''] s)"

definition fd_read_done :: "error_code \<Rightarrow> (unit, file_descriptor_impl) comp" where
  "fd_read_done ec s =
     (if failed ec then owner_send ([P_str ''fd'', P_str (fd_tag s), P_str ''read_error''] @ ec_parms ec) s
      else owner_send [P_str ''fd'', P_str (fd_tag s), P_str ''read_ready''] s)"

section \<open>Acceptors\<close>

text \<open>
  The TCP and the Unix acceptor have the same accept loop; they differ in the address and in what
  closing and destroying them does, which are arguments. The owner can close an acceptor while it
  handles a message of it.
\<close>

datatype acc_op =
  Acc_bind_tcp in6_addr port_t | Acc_bind_unx string | Acc_listen | Acc_accept | Acc_close
| Unlink string | Chmod_owner string

record acceptor_impl = "acc_op obj" +
  ac_tag :: string
  ac_path :: string
  ac_open :: bool
  ac_alive :: bool

definition acceptor_create :: "string \<Rightarrow> acceptor_impl" where
  "acceptor_create tag = \<lparr>io_log = [], ac_tag = tag, ac_path = [], ac_open = False, ac_alive = True\<rparr>"

definition acceptor_send :: "parm list \<Rightarrow> (unit, acceptor_impl) comp" where
  "acceptor_send ps s = owner_send (P_str ''acceptor'' # P_str (ac_tag s) # ps) s"

definition start_accept :: "(unit, acceptor_impl) comp" where
  "start_accept = start_op Acc_accept"

text \<open>\<open>release_path\<close> of the Unix acceptor; the path of a TCP acceptor is always empty.\<close>

definition release_path :: "(unit, acceptor_impl) comp" where
  "release_path s =
     (if ac_path s = [] then (Inr (), s)
      else bindS (start_op (Unlink (ac_path s))) (\<lambda>_. modifyS (\<lambda>s. s\<lparr>ac_path := []\<rparr>)) s)"

definition tcp_acceptor_close :: "bool \<Rightarrow> (unit, acceptor_impl) comp" where
  "tcp_acceptor_close ctx =
     bindS (in_context ctx) (\<lambda>_. bindS (start_op Acc_close) (\<lambda>_.
     bindS (acceptor_send [P_str ''closed'']) (\<lambda>_. modifyS (\<lambda>s. s\<lparr>ac_open := False\<rparr>))))"

definition unx_acceptor_close :: "bool \<Rightarrow> (unit, acceptor_impl) comp" where
  "unx_acceptor_close ctx =
     bindS (in_context ctx) (\<lambda>_. bindS (start_op Acc_close) (\<lambda>_. bindS release_path (\<lambda>_.
     bindS (acceptor_send [P_str ''closed'']) (\<lambda>_. modifyS (\<lambda>s. s\<lparr>ac_open := False\<rparr>)))))"

definition unx_acceptor_destroy :: "(unit, acceptor_impl) comp" where
  "unx_acceptor_destroy =
     bindS (start_op Acc_close) (\<lambda>_. bindS release_path (\<lambda>_. modifyS (\<lambda>s. s\<lparr>ac_alive := False\<rparr>)))"

definition tcp_acceptor_destroy :: "(unit, acceptor_impl) comp" where
  "tcp_acceptor_destroy = modifyS (\<lambda>s. s\<lparr>ac_alive := False\<rparr>)"

definition tcp_listen ::
    "bool \<Rightarrow> in6_addr \<Rightarrow> port_t \<Rightarrow> error_code \<Rightarrow> error_code \<Rightarrow> port_t \<Rightarrow> (port_t, acceptor_impl) comp" where
  "tcp_listen ctx ip port bind_ec listen_ec local =
     bindS (in_context ctx) (\<lambda>_. bindS (start_op (Acc_bind_tcp ip port)) (\<lambda>_.
       if failed bind_ec then
         bindS (acceptor_send (P_str ''error'' # ec_parms bind_ec)) (\<lambda>_. returnS 0)
       else bindS (start_op Acc_listen) (\<lambda>_.
         if failed listen_ec then
           bindS (acceptor_send (P_str ''error'' # ec_parms listen_ec)) (\<lambda>_. returnS 0)
         else bindS start_accept (\<lambda>_. bindS (modifyS (\<lambda>s. s\<lparr>ac_open := True\<rparr>)) (\<lambda>_. returnS local)))))"

datatype unx_mode = Mode_file | Mode_abstract

definition unx_mode_path :: "unx_mode \<Rightarrow> string \<Rightarrow> string" where
  "unx_mode_path m path = (case m of Mode_file \<Rightarrow> path | Mode_abstract \<Rightarrow> CHR 0x00 # path)"

text \<open>What the file system says of a path: a socket file, and whether connecting to it is refused.\<close>

record path_state =
  ps_socket_file :: bool
  ps_refused :: bool

definition sun_path_size :: nat where
  "sun_path_size = 108"

definition is_stale_socket :: "path_state \<Rightarrow> string \<Rightarrow> bool" where
  "is_stale_socket ps path \<longleftrightarrow>
     \<not> (length path \<ge> sun_path_size \<or> \<not> ps_socket_file ps) \<and> ps_refused ps"

definition unx_listen ::
    "bool \<Rightarrow> path_state \<Rightarrow> string \<Rightarrow> unx_mode \<Rightarrow> error_code \<Rightarrow> error_code \<Rightarrow> (unit, acceptor_impl) comp" where
  "unx_listen ctx ps origpath m bind_ec listen_ec =
     (let path = unx_mode_path m origpath in
      bindS (in_context ctx) (\<lambda>_.
      bindS (if m = Mode_file \<and> is_stale_socket ps path then start_op (Unlink path) else returnS ()) (\<lambda>_.
      bindS (start_op (Acc_bind_unx path)) (\<lambda>_.
      if failed bind_ec then acceptor_send (P_str ''error'' # ec_parms bind_ec)
      else bindS (if m = Mode_file then
                    bindS (modifyS (\<lambda>s. s\<lparr>ac_path := path\<rparr>)) (\<lambda>_. start_op (Chmod_owner path))
                  else returnS ()) (\<lambda>_.
        bindS (start_op Acc_listen) (\<lambda>_.
        if failed listen_ec then acceptor_send (P_str ''error'' # ec_parms listen_ec)
        else bindS start_accept (\<lambda>_. modifyS (\<lambda>s. s\<lparr>ac_open := True\<rparr>))))))))"

definition acceptor_dispatch ::
    "(bool \<Rightarrow> (unit, acceptor_impl) comp) \<Rightarrow> (unit, acceptor_impl) comp \<Rightarrow> unit reaction \<Rightarrow> parm list \<Rightarrow>
     (result, acceptor_impl) comp" where
  "acceptor_dispatch close destroy r ps s =
     bindS (dispatch_sync (\<lambda>_. close True) r (P_str ''acceptor'' # P_str (ac_tag s) # ps)) (\<lambda>ret.
     bindS (if r_alive r then returnS () else destroy) (\<lambda>_. returnS ret)) s"

definition acceptor_accept ::
    "(bool \<Rightarrow> (unit, acceptor_impl) comp) \<Rightarrow> (unit, acceptor_impl) comp \<Rightarrow> int \<Rightarrow> error_code \<Rightarrow>
     unit reaction \<Rightarrow> (unit, acceptor_impl) comp" where
  "acceptor_accept close destroy fd ec r s =
     (if \<not> ac_open s then (Inr (), s)
      else if failed ec then
        bindS (acceptor_dispatch close destroy r (P_str ''error'' # ec_parms ec)) (\<lambda>_. returnS ()) s
      else bindS (acceptor_dispatch close destroy r [P_str ''accept'', P_int (word_of_int fd)]) (\<lambda>ret s.
        if \<not> ac_alive s then (Inr (), s)
        else case ret of Inl _ \<Rightarrow> close False s | Inr _ \<Rightarrow> start_accept s) s)"

abbreviation tcp_accept where
  "tcp_accept \<equiv> acceptor_accept tcp_acceptor_close tcp_acceptor_destroy"

abbreviation unx_accept where
  "unx_accept \<equiv> acceptor_accept unx_acceptor_close unx_acceptor_destroy"

section \<open>Connectors\<close>

datatype con_op =
  Con_bind in6_addr port_t | Con_connect_tcp in6_addr port_t | Con_connect_unx string | Con_release
| Con_close | Fd_close int

datatype con_cmd = Cmd_cancel | Cmd_connect_tcp in6_addr port_t | Cmd_connect_unx string unx_mode

record connector_impl = "con_op obj" +
  co_tag :: string
  co_open :: bool

definition connector_create :: "string \<Rightarrow> connector_impl" where
  "connector_create tag = \<lparr>io_log = [], co_tag = tag, co_open = False\<rparr>"

definition connector_send :: "parm list \<Rightarrow> (unit, connector_impl) comp" where
  "connector_send ps s = owner_send (P_str ''connector'' # P_str (co_tag s) # ps) s"

definition in6addr_any :: in6_addr where
  "in6addr_any = replicate 16 0"

definition tcp_connect ::
    "bool \<Rightarrow> in6_addr \<Rightarrow> port_t \<Rightarrow> in6_addr \<Rightarrow> port_t \<Rightarrow> error_code \<Rightarrow> (unit, connector_impl) comp" where
  "tcp_connect ctx ip port lip lport bind_ec =
     bindS (in_context ctx) (\<lambda>_. bindS (modifyS (\<lambda>s. s\<lparr>co_open := True\<rparr>)) (\<lambda>_.
     bindS (start_op (Con_bind lip lport)) (\<lambda>_.
       if failed bind_ec then connector_send (P_str ''error'' # ec_parms bind_ec)
       else start_op (Con_connect_tcp ip port))))"

definition unx_connect :: "bool \<Rightarrow> string \<Rightarrow> unx_mode \<Rightarrow> (unit, connector_impl) comp" where
  "unx_connect ctx origpath m =
     bindS (in_context ctx) (\<lambda>_. bindS (modifyS (\<lambda>s. s\<lparr>co_open := True\<rparr>)) (\<lambda>_.
       start_op (Con_connect_unx (unx_mode_path m origpath))))"

definition connector_cancel :: "bool \<Rightarrow> (unit, connector_impl) comp" where
  "connector_cancel ctx =
     bindS (in_context ctx) (\<lambda>_. bindS (start_op Con_close) (\<lambda>_.
     bindS (modifyS (\<lambda>s. s\<lparr>co_open := False\<rparr>)) (\<lambda>_. connector_send [P_str ''cancelled''])))"

text \<open>The calls an owner makes on its connector while it handles one of its messages.\<close>

fun connector_cmd :: "con_cmd \<Rightarrow> (unit, connector_impl) comp" where
  "connector_cmd Cmd_cancel = connector_cancel True"
| "connector_cmd (Cmd_connect_tcp ip port) = tcp_connect True ip port in6addr_any 0 ec_ok"
| "connector_cmd (Cmd_connect_unx p m) = unx_connect True p m"

definition connector_dispatch :: "con_cmd reaction \<Rightarrow> parm list \<Rightarrow> (result, connector_impl) comp" where
  "connector_dispatch r ps s =
     dispatch_sync connector_cmd r (P_str ''connector'' # P_str (co_tag s) # ps) s"

definition connect_done :: "int \<Rightarrow> error_code \<Rightarrow> con_cmd reaction \<Rightarrow> (unit, connector_impl) comp" where
  "connect_done fd ec r s =
     (if \<not> co_open s then (Inr (), s)
      else if failed ec then
        bindS (connector_dispatch r (P_str ''error'' # ec_parms ec)) (\<lambda>_. returnS ()) s
      else bindS (start_op Con_release) (\<lambda>_.
           bindS (connector_dispatch r [P_str ''connected'', P_int (word_of_int fd)]) (\<lambda>ret.
             case ret of Inl _ \<Rightarrow> bindS (connector_cancel False) (\<lambda>_. start_op (Fd_close fd))
             | Inr _ \<Rightarrow> returnS ())) s)"

section \<open>Properties\<close>

text \<open>
  An open datagram socket passes every datagram on with its data and its sender and goes on
  receiving; an error is passed on and ends receiving. An empty datagram, or an error without data,
  ends receiving without a word to the owner.
\<close>

theorem udp_received_outcome:
  assumes "ud_open s" "s' = snd (udp_received ec data ip port s)"
  shows "ud_open s' \<and>
    (if data = [] then s' = s
     else if failed ec then started (io_log s') = started (io_log s)
       \<and> owner_msgs (io_log s') = owner_msgs (io_log s)
           @ [cbor_array ([P_str ''udp'', P_str (ud_tag s), P_str ''receive_error''] @ ec_parms ec)]
     else started (io_log s') = started (io_log s) @ [Udp_receive]
       \<and> owner_msgs (io_log s') = owner_msgs (io_log s)
           @ [cbor_array [P_str ''udp'', P_str (ud_tag s), P_str ''receive'', P_str data,
                P_str (string_of ip), P_uint (ucast port)]])"
  using assms by (simp add: udp_received_def Let_def bindS_def udp_do_receive_def)

theorem udp_received_outcome_witness:
  "started (io_log (snd (udp_received ec_ok ''hi'' in6addr_any 7
     (snd (udp_open in6addr_any 0 ec_ok 5000 (udp_create True ''t'')))))) =
   [Udp_bind in6addr_any 0, Udp_receive, Udp_receive]"
proof -
  let ?s = "snd (udp_open in6addr_any 0 ec_ok 5000 (udp_create True ''t''))"
  have "ud_open ?s" "started (io_log ?s) = [Udp_bind in6addr_any 0, Udp_receive]"
    by (simp_all add: udp_open_def udp_create_def bindS_def failed_def ec_ok_def udp_do_receive_def)
  with udp_received_outcome [OF this(1) refl, of ec_ok "''hi''" in6addr_any 7] show ?thesis
    by (simp add: failed_def ec_ok_def)
qed

text \<open>The paths an acceptor removed, among the operations it started.\<close>

definition unlinked :: "acc_op io list \<Rightarrow> string list" where
  "unlinked es = concat (map (\<lambda>c. case c of Unlink p \<Rightarrow> [p] | _ \<Rightarrow> []) (started es))"

lemma unlinked_simps [simp]:
  "unlinked [] = []" "unlinked (xs @ ys) = unlinked xs @ unlinked ys"
  "unlinked (Start (Unlink p) # es) = p # unlinked es" "unlinked (Start Acc_close # es) = unlinked es"
  "unlinked (Start Acc_listen # es) = unlinked es" "unlinked (Start Acc_accept # es) = unlinked es"
  "unlinked (Start (Acc_bind_unx p) # es) = unlinked es" "unlinked (Start (Chmod_owner p) # es) = unlinked es"
  "unlinked (To_owner m # es) = unlinked es" "unlinked (Dispatched m # es) = unlinked es"
  by (simp_all add: unlinked_def)

lemma unx_listen_effect:
  assumes "s' = snd (unx_listen True ps p m bind_ec listen_ec s)"
  shows "unlinked (io_log s') = unlinked (io_log s) @ (if m = Mode_file \<and> is_stale_socket ps p then [p] else [])"
    "ac_path s' = (if m = Mode_file \<and> \<not> failed bind_ec then p else ac_path s)"
    "ac_open s' \<longleftrightarrow> ac_open s \<or> (\<not> failed bind_ec \<and> \<not> failed listen_ec)"
  using assms
  by (simp_all add: unx_listen_def Let_def bindS_def acceptor_send_def start_accept_def unx_mode_path_def
      split: unx_mode.splits)

text \<open>
  Listening on a Unix socket removes a file only when it is a socket file that nobody listens
  on, in file mode and with a path the system accepts; a path in use, and any other file, is left alone.
\<close>

theorem unx_listen_removes_only_stale:
  assumes "s' = snd (unx_listen True ps p m bind_ec listen_ec (acceptor_create tag))"
    "q \<in> set (unlinked (io_log s'))"
  shows "q = p \<and> m = Mode_file \<and> ps_socket_file ps \<and> ps_refused ps \<and> length p < sun_path_size"
  using assms(2) unx_listen_effect(1) [OF assms(1)]
  by (auto simp: acceptor_create_def is_stale_socket_def split: if_splits)

theorem unx_listen_removes_only_stale_witness:
  "\<exists>s'. s' = snd (unx_listen True \<lparr>ps_socket_file = True, ps_refused = True\<rparr> ''/s'' Mode_file ec_ok ec_ok
      (acceptor_create ''t'')) \<and> unlinked (io_log s') = [''/s''] \<and> length ''/s'' < sun_path_size"
proof -
  let ?ps = "\<lparr>ps_socket_file = True, ps_refused = True\<rparr>"
  let ?s = "snd (unx_listen True ?ps ''/s'' Mode_file ec_ok ec_ok (acceptor_create ''t''))"
  have u: "unlinked (io_log ?s) = [''/s'']"
    by (simp add: unx_listen_effect(1) [OF refl] acceptor_create_def is_stale_socket_def sun_path_size_def)
  from unx_listen_removes_only_stale [OF refl, of "''/s''" ?ps "''/s''" Mode_file ec_ok ec_ok "''t''"] u
  show ?thesis by simp
qed

text \<open>Closing, in any context the owner calls it from, and destroying an acceptor.\<close>

definition unx_ends :: "bool list \<Rightarrow> acceptor_impl \<Rightarrow> acceptor_impl" where
  "unx_ends ds s = fold (\<lambda>d s. snd (if d then unx_acceptor_destroy s else unx_acceptor_close True s)) ds s"

lemma unx_ends_unlinked:
  "unlinked (io_log (unx_ends ds s)) = unlinked (io_log s) @ (if ds \<noteq> [] \<and> ac_path s \<noteq> [] then [ac_path s] else [])"
proof (induction ds arbitrary: s)
  case (Cons d ds)
  let ?t = "snd (if d then unx_acceptor_destroy s else unx_acceptor_close True s)"
  have "ac_path ?t = []" "unlinked (io_log ?t) = unlinked (io_log s) @ (if ac_path s \<noteq> [] then [ac_path s] else [])"
    by (auto simp: unx_acceptor_destroy_def unx_acceptor_close_def release_path_def bindS_def acceptor_send_def)
  moreover have "unx_ends (d # ds) s = unx_ends ds ?t" by (simp add: unx_ends_def)
  ultimately show ?case using Cons [of ?t] by (cases ds) auto
qed (simp add: unx_ends_def)

text \<open>
  The socket file a Unix acceptor has bound is removed exactly once, when the acceptor is first
  closed or destroyed, however often it is closed; an acceptor that did not bind in file mode removes
  nothing.
\<close>

theorem unx_path_released_once:
  assumes "s' = snd (unx_listen True ps p m bind_ec listen_ec (acceptor_create tag))" "ds \<noteq> []" "p \<noteq> []"
  shows "unlinked (io_log (unx_ends ds s')) = unlinked (io_log s')
    @ (if m = Mode_file \<and> \<not> failed bind_ec then [p] else [])"
  using unx_ends_unlinked [of ds s'] unx_listen_effect(2) [OF assms(1)] assms(2,3)
  by (simp add: acceptor_create_def)

theorem unx_path_released_once_witness:
  "\<exists>s'. unlinked (io_log (unx_ends [False, True] s')) = unlinked (io_log s') @ [''/s'']"
  using unx_path_released_once [OF refl, of "[False, True]" "''/s''" "\<lparr>ps_socket_file = False, ps_refused = False\<rparr>"
      Mode_file ec_ok ec_ok "''t''"]
  by (auto simp: failed_def ec_ok_def)

text \<open>
  The accept loop goes on: each connection accepted by an open acceptor is announced to the
  owner once, with its descriptor, and the next accept is started, unless the owner destroyed the
  acceptor. A closed acceptor announces nothing.
\<close>

theorem accept_loop_continues:
  assumes "s' = snd (tcp_accept fd ec r s)" "r_calls r = []" "\<exists>u. r_result r = Inr u"
  shows "(if ac_open s then
      dispatched_msgs (io_log s') = dispatched_msgs (io_log s) @
        [cbor_array (P_str ''acceptor'' # P_str (ac_tag s) #
           (if failed ec then P_str ''error'' # ec_parms ec else [P_str ''accept'', P_int (word_of_int fd)]))]
      \<and> (r_alive r \<and> ac_alive s \<longrightarrow> started (io_log s') = started (io_log s) @ (if failed ec then [] else [Acc_accept]))
    else s' = s)"
  using assms
  by (auto simp: acceptor_accept_def acceptor_dispatch_def dispatch_sync_def bindS_def tcp_acceptor_destroy_def
      start_accept_def)

theorem accept_loop_continues_witness:
  "started (io_log (snd (tcp_accept 5 ec_ok quiet_reaction
     (snd (tcp_listen True in6addr_any 80 ec_ok ec_ok 80 (acceptor_create ''t''))))))
   = [Acc_bind_tcp in6addr_any 80, Acc_listen, Acc_accept, Acc_accept]"
proof -
  let ?s = "snd (tcp_listen True in6addr_any 80 ec_ok ec_ok 80 (acceptor_create ''t''))"
  have "ac_open ?s" "ac_alive ?s" "started (io_log ?s) = [Acc_bind_tcp in6addr_any 80, Acc_listen, Acc_accept]"
    by (simp_all add: tcp_listen_def bindS_def acceptor_create_def failed_def ec_ok_def start_accept_def)
  with accept_loop_continues [where fd = 5 and ec = ec_ok and r = quiet_reaction and s = ?s, OF refl] show ?thesis
    by (simp add: quiet_reaction_def ok_def failed_def ec_ok_def)
qed

text \<open>
  The branch for an owner that answers with an error calls \<open>close\<close>, which is out of context in a
  completion handler and throws.
\<close>

lemma accept_error_branch_throws:
  "ac_open s \<Longrightarrow> ac_alive s \<Longrightarrow>
     fst (tcp_accept fd ec_ok \<lparr>r_calls = [], r_alive = True, r_result = Inl e\<rparr> s)
       = Inl (Std_exn ''call out of context'')"
  by (simp add: acceptor_accept_def acceptor_dispatch_def dispatch_sync_def bindS_def failed_def ec_ok_def
      tcp_acceptor_close_def)

end
