(* ===== verification/File_Stream.thy ===== *)
theory File_Stream
  imports Io
begin

text \<open>
  File streams (\<open>file_stream_impl\<close> of \<^verbatim>\<open>src/src/instance.cpp\<close>), the form descriptors take in the Windows
  build: reads and writes on a handle, each answered by one message to the owner.
\<close>

datatype stream_op = Stream_read | Stream_write string | Stream_cancel

record file_stream_impl = "stream_op obj" +
  fs_tag :: string

definition file_stream_create :: "string \<Rightarrow> file_stream_impl" where
  "file_stream_create tag = \<lparr>io_log = [], fs_tag = tag\<rparr>"

definition stream_send :: "parm list \<Rightarrow> (unit, file_stream_impl) comp" where
  "stream_send ps s = owner_send (P_str ''stream'' # P_str (fs_tag s) # ps) s"

definition stream_start_read :: "bool \<Rightarrow> (unit, file_stream_impl) comp" where
  "stream_start_read ctx = bindS (in_context ctx) (\<lambda>_. start_op Stream_read)"

definition stream_read_done :: "error_code \<Rightarrow> string \<Rightarrow> (unit, file_stream_impl) comp" where
  "stream_read_done ec data =
     (if failed ec then stream_send (P_str ''read_error'' # ec_parms ec)
      else stream_send [P_str ''read_complete'', P_str data])"

definition stream_start_write :: "bool \<Rightarrow> string \<Rightarrow> (unit, file_stream_impl) comp" where
  "stream_start_write ctx data = bindS (in_context ctx) (\<lambda>_. start_op (Stream_write data))"

definition stream_write_done :: "error_code \<Rightarrow> u64 \<Rightarrow> (unit, file_stream_impl) comp" where
  "stream_write_done ec bytes_written =
     (if failed ec then stream_send (P_str ''write_error'' # ec_parms ec)
      else stream_send [P_str ''write_complete'', P_uint bytes_written])"

definition stream_cancel :: "bool \<Rightarrow> (unit, file_stream_impl) comp" where
  "stream_cancel ctx = bindS (in_context ctx) (\<lambda>_. start_op Stream_cancel)"

text \<open>Each completion sends its owner exactly one message.\<close>

lemma stream_done_one_message:
  "length (owner_msgs (io_log (snd (stream_read_done ec data s)))) = Suc (length (owner_msgs (io_log s)))"
  "length (owner_msgs (io_log (snd (stream_write_done ec n s)))) = Suc (length (owner_msgs (io_log s)))"
  by (simp_all add: stream_read_done_def stream_write_done_def stream_send_def)

end
