(* ===== verification/C_Api.thy ===== *)
theory C_Api
  imports Timers Socket Net File_Stream Actor
begin

text \<open>
  The C interface (\<^verbatim>\<open>src/src/c\<close>): functions with C types around the C++ interface. Exceptions do not
  cross the boundary of the functions on timers and sockets: they become a return value, and a text
  that \<open>thespian_get_last_error\<close> returns. Errors of actors become pointers to thread-local buffers.

  A call on a null handle fails an assertion or is undefined; the model has the calls on objects
  that exist. \<open>ctx\<close> says, as in the theories of the objects, whether the owner is running.
\<close>

section \<open>The state of a thread\<close>

text \<open>
  \<open>last_error\<close> is a plain pointer. It can point to a string literal, to the text of an exception,
  whose storage ends with the handler that caught it, or to the thread's own copy \<open>last_error_msg\<close>.
\<close>

datatype c_text = To_literal string | To_exception string | To_last_error_msg

record c_thread =
  last_error :: "c_text option"
  last_error_msg :: string
  message_buffer :: buffer
  exit_msg_buf :: buffer

definition c_thread_new :: c_thread where
  "c_thread_new = \<lparr>last_error = None, last_error_msg = [], message_buffer = [], exit_msg_buf = []\<rparr>"

definition thespian_set_last_error :: "c_text \<Rightarrow> c_thread \<Rightarrow> c_thread" where
  "thespian_set_last_error msg t = t\<lparr>last_error := Some msg\<rparr>"

definition thespian_get_last_error :: "c_thread \<Rightarrow> c_text option" where
  "thespian_get_last_error t = last_error t"

text \<open>What a caller reads through the pointer once the call has returned; \<open>None\<close> is undefined behaviour.\<close>

fun read_text :: "c_thread \<Rightarrow> c_text \<Rightarrow> string option" where
  "read_text t (To_literal w) = Some w"
| "read_text t (To_exception w) = None"
| "read_text t To_last_error_msg = Some (last_error_msg t)"

section \<open>Guarded calls\<close>

text \<open>
  \<open>try { f } catch (const std::exception &e) { ... } catch (...) { ... }\<close> as every function on an
  object has it: \<open>unknown\<close> is the text for the second handler, \<open>good\<close> and \<open>bad\<close> the return values.
\<close>

definition c_guard :: "string \<Rightarrow> ('a \<Rightarrow> 'r) \<Rightarrow> 'r \<Rightarrow> ('a, 's) comp \<Rightarrow> 's \<times> c_thread \<Rightarrow> 'r \<times> 's \<times> c_thread" where
  "c_guard unknown good bad f st = (case st of (s, t) \<Rightarrow> case f s of
     (Inr x, s) \<Rightarrow> (good x, s, t)
   | (Inl (Std_exn w), s) \<Rightarrow> (bad, s, thespian_set_last_error (To_exception w) t)
   | (Inl Other_exn, s) \<Rightarrow> (bad, s, thespian_set_last_error (To_literal unknown) t))"

text \<open>Status codes, functions without a result, and constructors, which return a null pointer on failure.\<close>

definition c_status :: "string \<Rightarrow> (unit, 's) comp \<Rightarrow> 's \<times> c_thread \<Rightarrow> int \<times> 's \<times> c_thread" where
  "c_status unknown f = c_guard unknown (\<lambda>_. 0) (- 1) f"

definition c_void :: "string \<Rightarrow> (unit, 's) comp \<Rightarrow> 's \<times> c_thread \<Rightarrow> 's \<times> c_thread" where
  "c_void unknown f st = snd (c_guard unknown (\<lambda>_. ()) () f st)"

definition c_create :: "string \<Rightarrow> bool \<Rightarrow> 'o \<Rightarrow> c_thread \<Rightarrow> 'o option \<times> c_thread" where
  "c_create unknown ctx obj t =
     (case c_guard unknown Some None (bindS (in_context ctx) (\<lambda>_. returnS obj)) ((), t) of (p, _, t) \<Rightarrow> (p, t))"

section \<open>Signals, timeouts, metronomes\<close>

text \<open>\<open>traced\<close>, \<open>lifelock\<close> and \<open>now\<close> are the inputs of the C++ constructors.\<close>

definition thespian_signal_create :: "bool \<Rightarrow> bool \<Rightarrow> bool \<Rightarrow> int \<Rightarrow> buffer \<Rightarrow> c_thread \<Rightarrow> signal_impl option \<times> c_thread" where
  "thespian_signal_create ctx traced lifelock signum m = c_create ''unknown thespian_signal_create error'' ctx (create_signal traced lifelock signum m)"

definition thespian_signal_cancel :: "signal_impl \<times> c_thread \<Rightarrow> int \<times> signal_impl \<times> c_thread" where
  "thespian_signal_cancel = c_status ''unknown thespian_signal_start error'' (signal_cancel)"

definition thespian_signal_destroy :: "signal_impl \<times> c_thread \<Rightarrow> signal_impl \<times> c_thread" where
  "thespian_signal_destroy = c_void ''unknown thespian_signal_destroy error'' (destroy_signal)"

definition thespian_timeout_create_ms :: "bool \<Rightarrow> bool \<Rightarrow> bool \<Rightarrow> int \<Rightarrow> u64 \<Rightarrow> buffer \<Rightarrow> c_thread \<Rightarrow> timeout_impl option \<times> c_thread" where
  "thespian_timeout_create_ms ctx traced lifelock now ms m = c_create ''unknown thespian_timeout_create_ms error'' ctx (create_timeout traced lifelock now (1000 * sint ms) m)"

definition thespian_timeout_create_us :: "bool \<Rightarrow> bool \<Rightarrow> bool \<Rightarrow> int \<Rightarrow> u64 \<Rightarrow> buffer \<Rightarrow> c_thread \<Rightarrow> timeout_impl option \<times> c_thread" where
  "thespian_timeout_create_us ctx traced lifelock now us m = c_create ''unknown thespian_timeout_create_us error'' ctx (create_timeout traced lifelock now (sint us) m)"

definition thespian_timeout_cancel :: "timeout_impl \<times> c_thread \<Rightarrow> int \<times> timeout_impl \<times> c_thread" where
  "thespian_timeout_cancel = c_status ''unknown thespian_timeout_start error'' (timeout_cancel)"

definition thespian_timeout_destroy :: "timeout_impl \<times> c_thread \<Rightarrow> timeout_impl \<times> c_thread" where
  "thespian_timeout_destroy = c_void ''unknown thespian_timeout_destroy error'' (destroy_timeout)"

definition thespian_metronome_create_ms :: "bool \<Rightarrow> bool \<Rightarrow> u64 \<Rightarrow> c_thread \<Rightarrow> metronome_state option \<times> c_thread" where
  "thespian_metronome_create_ms ctx traced ms = c_create ''unknown thespian_metronome_create_ms error'' ctx (create_metronome traced (1000 * sint ms))"

definition thespian_metronome_create_us :: "bool \<Rightarrow> bool \<Rightarrow> u64 \<Rightarrow> c_thread \<Rightarrow> metronome_state option \<times> c_thread" where
  "thespian_metronome_create_us ctx traced us = c_create ''unknown thespian_metronome_create_us error'' ctx (create_metronome traced (sint us))"

definition thespian_metronome_start :: "bool \<Rightarrow> int \<Rightarrow> metronome_state \<times> c_thread \<Rightarrow> int \<times> metronome_state \<times> c_thread" where
  "thespian_metronome_start alive now = c_status ''unknown thespian_metronome_start error'' (metronome_start alive now)"

definition thespian_metronome_stop :: "metronome_state \<times> c_thread \<Rightarrow> int \<times> metronome_state \<times> c_thread" where
  "thespian_metronome_stop = c_status ''unknown thespian_metronome_stop error'' (metronome_stop)"

definition thespian_metronome_destroy :: "metronome_state \<times> c_thread \<Rightarrow> metronome_state \<times> c_thread" where
  "thespian_metronome_destroy = c_void ''unknown thespian_metronome_destroy error'' (destroy_metronome)"

section \<open>Sockets, descriptors, file streams\<close>

definition thespian_socket_create :: "bool \<Rightarrow> string \<Rightarrow> c_thread \<Rightarrow> socket_impl option \<times> c_thread" where
  "thespian_socket_create ctx tag = c_create ''unknown thespian_socket_create error'' ctx (socket_create tag)"

definition thespian_socket_write :: "bool \<Rightarrow> buffer \<Rightarrow> socket_impl \<times> c_thread \<Rightarrow> int \<times> socket_impl \<times> c_thread" where
  "thespian_socket_write ctx data = c_status ''unknown thespian_socket_write error'' (socket_write ctx data)"

definition thespian_socket_write_binary :: "bool \<Rightarrow> buffer \<Rightarrow> socket_impl \<times> c_thread \<Rightarrow> int \<times> socket_impl \<times> c_thread" where
  "thespian_socket_write_binary ctx data = c_status ''unknown thespian_socket_write_binary error'' (socket_write ctx data)"

definition thespian_socket_read :: "bool \<Rightarrow> socket_impl \<times> c_thread \<Rightarrow> int \<times> socket_impl \<times> c_thread" where
  "thespian_socket_read ctx = c_status ''unknown thespian_socket_read error'' (socket_read ctx)"

definition thespian_socket_close :: "bool \<Rightarrow> socket_impl \<times> c_thread \<Rightarrow> int \<times> socket_impl \<times> c_thread" where
  "thespian_socket_close ctx = c_status ''unknown thespian_socket_close error'' (socket_close ctx)"

definition thespian_socket_destroy :: "socket_impl \<times> c_thread \<Rightarrow> socket_impl \<times> c_thread" where
  "thespian_socket_destroy = c_void ''unknown thespian_socket_destroy error'' (destroy_socket)"

definition thespian_file_descriptor_create :: "bool \<Rightarrow> string \<Rightarrow> c_thread \<Rightarrow> file_descriptor_impl option \<times> c_thread" where
  "thespian_file_descriptor_create ctx tag = c_create ''unknown thespian_file_descriptor_create error'' ctx (file_descriptor_create tag)"

definition thespian_file_descriptor_wait_write :: "bool \<Rightarrow> file_descriptor_impl \<times> c_thread \<Rightarrow> int \<times> file_descriptor_impl \<times> c_thread" where
  "thespian_file_descriptor_wait_write ctx = c_status ''unknown thespian_file_descriptor_wait_write error'' (fd_wait_write ctx)"

definition thespian_file_descriptor_wait_read :: "bool \<Rightarrow> file_descriptor_impl \<times> c_thread \<Rightarrow> int \<times> file_descriptor_impl \<times> c_thread" where
  "thespian_file_descriptor_wait_read ctx = c_status ''unknown thespian_file_descriptor_wait_read error'' (fd_wait_read ctx)"

text \<open>Here and below some texts name another function than the one that failed, as the code does.\<close>

definition thespian_file_descriptor_cancel :: "bool \<Rightarrow> file_descriptor_impl \<times> c_thread \<Rightarrow> int \<times> file_descriptor_impl \<times> c_thread" where
  "thespian_file_descriptor_cancel ctx = c_status ''unknown thespian_file_descriptor_wait_read error'' (fd_cancel ctx)"

definition thespian_file_descriptor_destroy :: "file_descriptor_impl \<times> c_thread \<Rightarrow> file_descriptor_impl \<times> c_thread" where
  "thespian_file_descriptor_destroy = c_void ''unknown thespian_file_descriptor_destroy error'' (returnS ())"

definition thespian_file_stream_create :: "bool \<Rightarrow> string \<Rightarrow> c_thread \<Rightarrow> file_stream_impl option \<times> c_thread" where
  "thespian_file_stream_create ctx tag = c_create ''unknown thespian_file_stream_create error'' ctx (file_stream_create tag)"

definition thespian_file_stream_start_read :: "bool \<Rightarrow> file_stream_impl \<times> c_thread \<Rightarrow> int \<times> file_stream_impl \<times> c_thread" where
  "thespian_file_stream_start_read ctx = c_status ''unknown thespian_file_stream_start_read error'' (stream_start_read ctx)"

definition thespian_file_stream_start_write :: "bool \<Rightarrow> string \<Rightarrow> file_stream_impl \<times> c_thread \<Rightarrow> int \<times> file_stream_impl \<times> c_thread" where
  "thespian_file_stream_start_write ctx data = c_status ''unknown thespian_file_stream_start_write error'' (stream_start_write ctx data)"

definition thespian_file_stream_cancel :: "bool \<Rightarrow> file_stream_impl \<times> c_thread \<Rightarrow> int \<times> file_stream_impl \<times> c_thread" where
  "thespian_file_stream_cancel ctx = c_status ''unknown thespian_file_stream_start_read error'' (stream_cancel ctx)"

definition thespian_file_stream_destroy :: "file_stream_impl \<times> c_thread \<Rightarrow> file_stream_impl \<times> c_thread" where
  "thespian_file_stream_destroy = c_void ''unknown thespian_file_stream_destroy error'' (returnS ())"

section \<open>Acceptors and connectors\<close>

definition thespian_tcp_acceptor_create :: "bool \<Rightarrow> string \<Rightarrow> c_thread \<Rightarrow> acceptor_impl option \<times> c_thread" where
  "thespian_tcp_acceptor_create ctx tag = c_create ''unknown thespian_tcp_acceptor_create error'' ctx (acceptor_create tag)"

text \<open>A port of 0 stands for failure; the error codes and the local port are the inputs of \<open>tcp_listen\<close>.\<close>

definition thespian_tcp_acceptor_listen ::
    "bool \<Rightarrow> in6_addr \<Rightarrow> port_t \<Rightarrow> error_code \<Rightarrow> error_code \<Rightarrow> port_t \<Rightarrow>
     acceptor_impl \<times> c_thread \<Rightarrow> port_t \<times> acceptor_impl \<times> c_thread" where
  "thespian_tcp_acceptor_listen ctx ip port bind_ec listen_ec local =
     c_guard ''unknown thespian_tcp_acceptor_listen error'' (\<lambda>p. p) 0
       (tcp_listen ctx ip port bind_ec listen_ec local)"

definition thespian_tcp_acceptor_close :: "bool \<Rightarrow> acceptor_impl \<times> c_thread \<Rightarrow> int \<times> acceptor_impl \<times> c_thread" where
  "thespian_tcp_acceptor_close ctx = c_status ''unknown thespian_tcp_acceptor_close error'' (tcp_acceptor_close ctx)"

definition thespian_tcp_acceptor_destroy :: "acceptor_impl \<times> c_thread \<Rightarrow> acceptor_impl \<times> c_thread" where
  "thespian_tcp_acceptor_destroy = c_void ''unknown thespian_tcp_acceptor_destroy error'' (tcp_acceptor_destroy)"

definition thespian_tcp_connector_create :: "bool \<Rightarrow> string \<Rightarrow> c_thread \<Rightarrow> connector_impl option \<times> c_thread" where
  "thespian_tcp_connector_create ctx tag = c_create ''unknown thespian_tcp_connector_create error'' ctx (connector_create tag)"

definition thespian_tcp_connector_connect :: "bool \<Rightarrow> in6_addr \<Rightarrow> port_t \<Rightarrow> error_code \<Rightarrow> connector_impl \<times> c_thread \<Rightarrow> int \<times> connector_impl \<times> c_thread" where
  "thespian_tcp_connector_connect ctx ip port bind_ec = c_status ''unknown thespian_tcp_connector_connect error'' (tcp_connect ctx ip port in6addr_any 0 bind_ec)"

definition thespian_tcp_connector_cancel :: "bool \<Rightarrow> connector_impl \<times> c_thread \<Rightarrow> int \<times> connector_impl \<times> c_thread" where
  "thespian_tcp_connector_cancel ctx = c_status ''unknown thespian_tcp_connector_cancel error'' (connector_cancel ctx)"

definition thespian_tcp_connector_destroy :: "connector_impl \<times> c_thread \<Rightarrow> connector_impl \<times> c_thread" where
  "thespian_tcp_connector_destroy = c_void ''unknown thespian_tcp_connector_destroy error'' (returnS ())"

text \<open>\<open>thespian_unx_mode\<close> is a C enumeration; every value but \<open>THESPIAN_UNX_MODE_ABSTRACT\<close> means a file.\<close>

definition c_unx_mode_abstract :: int where
  "c_unx_mode_abstract = 1"

definition to_cpp_mode :: "int \<Rightarrow> unx_mode" where
  "to_cpp_mode m = (if m = c_unx_mode_abstract then Mode_abstract else Mode_file)"

definition thespian_unx_acceptor_create :: "bool \<Rightarrow> string \<Rightarrow> c_thread \<Rightarrow> acceptor_impl option \<times> c_thread" where
  "thespian_unx_acceptor_create ctx tag = c_create ''unknown thespian_unx_acceptor_create error'' ctx (acceptor_create tag)"

definition thespian_unx_acceptor_listen :: "bool \<Rightarrow> path_state \<Rightarrow> string \<Rightarrow> int \<Rightarrow> error_code \<Rightarrow> error_code \<Rightarrow> acceptor_impl \<times> c_thread \<Rightarrow> int \<times> acceptor_impl \<times> c_thread" where
  "thespian_unx_acceptor_listen ctx ps path m bind_ec listen_ec = c_status ''unknown thespian_unx_acceptor_listen error'' (unx_listen ctx ps path (to_cpp_mode m) bind_ec listen_ec)"

definition thespian_unx_acceptor_close :: "bool \<Rightarrow> acceptor_impl \<times> c_thread \<Rightarrow> int \<times> acceptor_impl \<times> c_thread" where
  "thespian_unx_acceptor_close ctx = c_status ''unknown thespian_unx_acceptor_close error'' (unx_acceptor_close ctx)"

definition thespian_unx_acceptor_destroy :: "acceptor_impl \<times> c_thread \<Rightarrow> acceptor_impl \<times> c_thread" where
  "thespian_unx_acceptor_destroy = c_void ''unknown thespian_unx_acceptor_destroy error'' (unx_acceptor_destroy)"

definition thespian_unx_connector_create :: "bool \<Rightarrow> string \<Rightarrow> c_thread \<Rightarrow> connector_impl option \<times> c_thread" where
  "thespian_unx_connector_create ctx tag = c_create ''unknown thespian_unx_connector_create error'' ctx (connector_create tag)"

definition thespian_unx_connector_connect :: "bool \<Rightarrow> string \<Rightarrow> int \<Rightarrow> connector_impl \<times> c_thread \<Rightarrow> int \<times> connector_impl \<times> c_thread" where
  "thespian_unx_connector_connect ctx path m = c_status ''unknown thespian_unx_connector_connect error'' (unx_connect ctx path (to_cpp_mode m))"

definition thespian_unx_connector_cancel :: "bool \<Rightarrow> connector_impl \<times> c_thread \<Rightarrow> int \<times> connector_impl \<times> c_thread" where
  "thespian_unx_connector_cancel ctx = c_status ''unknown thespian_unx_connector_cancel error'' (connector_cancel ctx)"

definition thespian_unx_connector_destroy :: "connector_impl \<times> c_thread \<Rightarrow> connector_impl \<times> c_thread" where
  "thespian_unx_connector_destroy = c_void ''unknown thespian_unx_connector_destroy error'' (returnS ())"

section \<open>Results\<close>

text \<open>
  A \<open>thespian_result\<close> is null or a pointer to one of two thread-local structures, which in turn point
  to a thread-local buffer: the buffer of \<^verbatim>\<open>handle.cpp\<close>, or the one of \<^verbatim>\<open>instance.cpp\<close>.
\<close>

datatype thespian_result = Res_null | Res_error_buffer | Res_exit_error_buf

fun read_result :: "c_thread \<Rightarrow> thespian_result \<Rightarrow> buffer option" where
  "read_result t Res_null = None"
| "read_result t Res_error_buffer = Some (message_buffer t)"
| "read_result t Res_exit_error_buf = Some (exit_msg_buf t)"

definition to_thespian_result :: "result \<Rightarrow> c_thread \<Rightarrow> thespian_result \<times> c_thread" where
  "to_thespian_result r t = (case r of Inr _ \<Rightarrow> (Res_null, t)
     | Inl e \<Rightarrow> (Res_error_buffer, t\<lparr>message_buffer := e\<rparr>))"

definition to_exit_result :: "result \<Rightarrow> c_thread \<Rightarrow> thespian_result \<times> c_thread" where
  "to_exit_result r t = (case r of Inr _ \<Rightarrow> (Res_null, t)
     | Inl e \<Rightarrow> (Res_exit_error_buf, t\<lparr>exit_msg_buf := e\<rparr>))"

definition thespian_exit :: "string \<Rightarrow> c_thread \<Rightarrow> thespian_result \<times> c_thread" where
  "thespian_exit status = to_exit_result (exit_result status [])"

definition thespian_unexpected :: "buffer \<Rightarrow> c_thread \<Rightarrow> exn + (thespian_result \<times> c_thread)" where
  "thespian_unexpected m t = bindE (unexpected m) (\<lambda>r. Inr (to_exit_result r t))"

text \<open>
  What the wrappers of \<open>thespian_receive\<close>, \<open>thespian_spawn\<close>, \<open>thespian_spawn_link\<close> and
  \<open>thespian_context_spawn_link\<close> make of the pointer a C function has returned: the bytes are copied
  out of the buffer it points to, at that time.
\<close>

definition from_thespian_result :: "thespian_result \<Rightarrow> c_thread \<Rightarrow> result" where
  "from_thespian_result p t = (case read_result t p of None \<Rightarrow> ok | Some e \<Rightarrow> Inl e)"

section \<open>Handles\<close>

text \<open>
  A \<open>thespian_handle\<close> is a pointer to a handle, possibly null. Sending is not guarded: an exception
  leaves the C function.
\<close>

type_synonym thespian_handle = "handle option"

definition thespian_handle_clone :: "thespian_handle \<Rightarrow> thespian_handle" where
  "thespian_handle_clone h = (case h of None \<Rightarrow> None | Some h \<Rightarrow> Some h)"

definition c_result :: "(result, 's) comp \<Rightarrow> (thespian_result, 's \<times> c_thread) comp" where
  "c_result f st = (case st of (s, t) \<Rightarrow> case f s of
     (Inl e, s) \<Rightarrow> (Inl e, s, t)
   | (Inr r, s) \<Rightarrow> case to_thespian_result r t of (p, t) \<Rightarrow> (Inr p, s, t))"

definition thespian_handle_send_raw ::
    "handle \<Rightarrow> buffer \<Rightarrow> (thespian_result, ('t, 'u) sys \<times> c_thread) comp" where
  "thespian_handle_send_raw h m = c_result (handle_send_raw h m)"

definition thespian_handle_send_exit ::
    "handle \<Rightarrow> string \<Rightarrow> (thespian_result, ('t, 'u) sys \<times> c_thread) comp" where
  "thespian_handle_send_exit h err = c_result (handle_exit_to h err [])"

definition thespian_handle_is_expired :: "handle \<Rightarrow> ('t, 'u) sys \<Rightarrow> bool" where
  "thespian_handle_is_expired h s = expired s h"

definition thespian_handle_id :: "thespian_handle \<Rightarrow> nat" where
  "thespian_handle_id h = (case h of None \<Rightarrow> 0 | Some h \<Rightarrow> instance_id h)"

definition thespian_handle_from_id :: "nat \<Rightarrow> ('t, 'u) sys \<Rightarrow> thespian_handle" where
  "thespian_handle_from_id i s = (let h = instance_by_id s i in if expired s h then None else Some h)"

section \<open>Spawning\<close>

text \<open>
  The status and the handle written through the pointer argument. \<open>b\<close> is the wrapped behaviour. A
  null environment is an empty one, not the environment of the caller. Spawning from an actor copies
  the environment; \<open>thespian_context_spawn_link\<close> binds it to a reference and moves from it, so that
  the caller's object is left as the library leaves a moved-from one, \<open>moved\<close>.
\<close>

definition c_env :: "'t env_t option \<Rightarrow> 't env_t" where
  "c_env env = (case env of Some e \<Rightarrow> e | None \<Rightarrow> env_init)"

definition c_spawned :: "error + handle \<Rightarrow> int \<times> thespian_handle" where
  "c_spawned ret = (case ret of Inl _ \<Rightarrow> (- 1, None) | Inr h \<Rightarrow> (0, Some h))"

definition thespian_spawn ::
    "('t, 'u) prog \<Rightarrow> string \<Rightarrow> 't env_t option \<Rightarrow> (int \<times> thespian_handle, ('t, 'u) sys) comp" where
  "thespian_spawn b name env = bindS (api_spawn b name (Some (c_env env))) (\<lambda>ret. returnS (c_spawned ret))"

definition thespian_spawn_link ::
    "('t, 'u) prog \<Rightarrow> string \<Rightarrow> 't env_t option \<Rightarrow> (int \<times> thespian_handle, ('t, 'u) sys) comp" where
  "thespian_spawn_link b name env = bindS (api_spawn_link b name (Some (c_env env))) (\<lambda>ret. returnS (c_spawned ret))"

text \<open>The exit handler is wrapped too: a null one becomes a function that does nothing.\<close>

definition c_exit_handler :: "(string \<Rightarrow> ('t, 'u) prog) option \<Rightarrow> string \<Rightarrow> ('t, 'u) prog" where
  "c_exit_handler eh e = (case eh of Some f \<Rightarrow> f e | None \<Rightarrow> Ret ok)"

definition thespian_context_spawn_link ::
    "('t env_t \<Rightarrow> 't env_t) \<Rightarrow> ('t, 'u) prog \<Rightarrow> (string \<Rightarrow> ('t, 'u) prog) option \<Rightarrow> string \<Rightarrow> 't env_t option \<Rightarrow>
     ((int \<times> thespian_handle) \<times> 't env_t option, ('t, 'u) sys) comp" where
  "thespian_context_spawn_link moved b eh name env =
     bindS (context_spawn_link b (Some (c_exit_handler eh)) name (c_env env)) (\<lambda>ret.
       returnS (c_spawned ret, map_option moved env))"

section \<open>Environments\<close>

definition thespian_env_is :: "string \<Rightarrow> 'c env_t \<Rightarrow> bool \<times> 'c env_t" where
  "thespian_env_is key e = env_is key e"

definition thespian_env_set :: "string \<Rightarrow> bool \<Rightarrow> 'c env_t \<Rightarrow> 'c env_t" where
  "thespian_env_set key v e = (let e = snd (env_is key e) in e\<lparr>env_b := (env_b e)(key \<mapsto> v)\<rparr>)"

definition thespian_env_num :: "string \<Rightarrow> 'c env_t \<Rightarrow> u64 \<times> 'c env_t" where
  "thespian_env_num key e = env_num key e"

definition thespian_env_num_set :: "string \<Rightarrow> u64 \<Rightarrow> 'c env_t \<Rightarrow> 'c env_t" where
  "thespian_env_num_set key v e = (let e = snd (env_num key e) in e\<lparr>env_i := (env_i e)(key \<mapsto> v)\<rparr>)"

definition thespian_env_str :: "string \<Rightarrow> 'c env_t \<Rightarrow> string \<times> 'c env_t" where
  "thespian_env_str key e = env_str key e"

definition thespian_env_str_set :: "string \<Rightarrow> string \<Rightarrow> 'c env_t \<Rightarrow> 'c env_t" where
  "thespian_env_str_set key v e = (let e = snd (env_str key e) in e\<lparr>env_s := (env_s e)(key \<mapsto> v)\<rparr>)"

definition thespian_env_proc :: "string \<Rightarrow> 'c env_t \<Rightarrow> handle \<times> 'c env_t" where
  "thespian_env_proc key e = env_proc key e"

definition thespian_env_proc_set :: "string \<Rightarrow> handle \<Rightarrow> 'c env_t \<Rightarrow> 'c env_t" where
  "thespian_env_proc_set key v e = (let e = snd (env_proc key e) in e\<lparr>env_h := (env_h e)(key \<mapsto> v)\<rparr>)"

section \<open>Debugging\<close>

text \<open>\<open>set_error\<close> keeps a copy of the text, \<open>to_c_result\<close> prints the error of a failed start.\<close>

definition set_error :: "string \<Rightarrow> c_thread \<Rightarrow> c_thread" where
  "set_error msg t = thespian_set_last_error To_last_error_msg (t\<lparr>last_error_msg := msg\<rparr>)"

definition to_c_result :: "error + handle \<Rightarrow> c_thread \<Rightarrow> thrown + ((int \<times> thespian_handle) \<times> c_thread)" where
  "to_c_result ret t = (case ret of
     Inr h \<Rightarrow> Inr ((0, Some h), t)
   | Inl e \<Rightarrow> (case to_json e of Inl x \<Rightarrow> Inl (Std_exn (exn_what x)) | Inr j \<Rightarrow> Inr ((- 1, None), set_error j t)))"

text \<open>\<open>create\<close> is \<open>debug::tcp::create\<close> or \<open>debug::unx::create\<close>, \<open>unknown\<close> the text of the last handler.\<close>

definition c_debug_create ::
    "string \<Rightarrow> (error + handle, ('t, 'u) sys) comp \<Rightarrow> ('t, 'u) sys \<times> c_thread \<Rightarrow>
     (int \<times> thespian_handle) \<times> ('t, 'u) sys \<times> c_thread" where
  "c_debug_create unknown create st = (case st of (s, t) \<Rightarrow> case create s of (r, s) \<Rightarrow>
     case (case r of Inl e \<Rightarrow> Inl e | Inr ret \<Rightarrow> to_c_result ret t) of
       Inr (res, t) \<Rightarrow> (res, s, t)
     | Inl (Std_exn w) \<Rightarrow> ((- 1, None), s, set_error w t)
     | Inl Other_exn \<Rightarrow> ((- 1, None), s, set_error unknown t))"

definition thespian_debug_tcp_create ::
    "(error + handle, ('t, 'u) sys) comp \<Rightarrow> ('t, 'u) sys \<times> c_thread \<Rightarrow> (int \<times> thespian_handle) \<times> ('t, 'u) sys \<times> c_thread" where
  "thespian_debug_tcp_create = c_debug_create ''unknown thespian_debug_tcp_create error''"

definition thespian_debug_unx_create ::
    "(error + handle, ('t, 'u) sys) comp \<Rightarrow> ('t, 'u) sys \<times> c_thread \<Rightarrow> (int \<times> thespian_handle) \<times> ('t, 'u) sys \<times> c_thread" where
  "thespian_debug_unx_create = c_debug_create ''unknown thespian_debug_unx_create error''"

section \<open>Properties\<close>

text \<open>
  Errors survive the C boundary when they are used at once, and only then: the result a C caller
  gets from sending, handed back from its receiver, is the result the library returned; but a second
  failing call overwrites the first one's bytes, since both pointers are the same.
\<close>

theorem c_result_roundtrip:
  assumes "to_thespian_result r t = (p, t')" "to_thespian_result (Inl e) t' = (q, t'')"
  shows "from_thespian_result p t' = r \<and> from_thespian_result q t'' = Inl e
    \<and> (p \<noteq> Res_null \<longrightarrow> p = q \<and> from_thespian_result p t'' = Inl e)"
  using assms by (auto simp: to_thespian_result_def from_thespian_result_def ok_def split: sum.splits)

theorem c_result_roundtrip_witness:
  "from_thespian_result Res_error_buffer (c_thread_new\<lparr>message_buffer := [1]\<rparr>) = Inl [1]
   \<and> from_thespian_result Res_error_buffer (c_thread_new\<lparr>message_buffer := [2]\<rparr>) = Inl [2]"
proof -
  have "to_thespian_result (Inl [1]) c_thread_new = (Res_error_buffer, c_thread_new\<lparr>message_buffer := [1]\<rparr>)"
    "to_thespian_result (Inl [2]) (c_thread_new\<lparr>message_buffer := [1]\<rparr>)
       = (Res_error_buffer, c_thread_new\<lparr>message_buffer := [2]\<rparr>)"
    by (simp_all add: to_thespian_result_def)
  from c_result_roundtrip [OF this] show ?thesis by simp
qed

text \<open>
  A guarded call returns -1 exactly when the C++ call throws; the state of the object is the one the
  C++ call left; and the last error is set exactly then. For a C++ exception with a text the pointer
  that is set is not valid any more when the caller can use it.
\<close>

lemma c_status_outcome:
  assumes "c_status unknown f (s, t) = (rc, s', t')"
  shows "s' = snd (f s) \<and> (case fst (f s) of
      Inr _ \<Rightarrow> rc = 0 \<and> t' = t
    | Inl e \<Rightarrow> rc = - 1 \<and> (\<exists>p. thespian_get_last_error t' = Some p
        \<and> read_text t' p = (if e = Other_exn then Some unknown else None)))"
  using assms
  by (auto simp: c_status_def c_guard_def thespian_set_last_error_def thespian_get_last_error_def
      split: prod.splits sum.splits thrown.splits)

text \<open>
  Every call of the C interface on a socket outside its actor fails, changes nothing, and leaves the
  thread with a dangling error text.
\<close>

lemma socket_out_of_context:
  assumes "f \<in> {thespian_socket_write False data, thespian_socket_read False, thespian_socket_close False}"
  shows "\<exists>t'. f (s, t) = (- 1, s, t') \<and> thespian_get_last_error t' = Some (To_exception ''call out of context'')
    \<and> read_text t' (To_exception ''call out of context'') = None"
  using assms
  by (auto simp: thespian_socket_write_def thespian_socket_read_def thespian_socket_close_def c_status_def c_guard_def
      socket_write_def socket_read_def socket_close_def bindS_def thespian_set_last_error_def thespian_get_last_error_def)

text \<open>What is set in an environment is read back, and other keys are not touched.\<close>

lemma env_get_set:
  "thespian_env_is k (thespian_env_set k v e) = (v, thespian_env_set k v e)"
  "thespian_env_num k (thespian_env_num_set k n e) = (n, thespian_env_num_set k n e)"
  "thespian_env_str k (thespian_env_str_set k w e) = (w, thespian_env_str_set k w e)"
  "thespian_env_proc k (thespian_env_proc_set k h e) = (h, thespian_env_proc_set k h e)"
  by (simp_all add: thespian_env_is_def thespian_env_set_def env_is_def thespian_env_num_def thespian_env_num_set_def
      env_num_def thespian_env_str_def thespian_env_str_set_def env_str_def thespian_env_proc_def
      thespian_env_proc_set_def env_proc_def ref_at_def Let_def split: option.splits)

text \<open>A handle found by its id has that id.\<close>

lemma handle_id_roundtrip:
  assumes "thespian_handle_from_id i s = h" "h \<noteq> None" "\<And>p. instances s i = Some p \<Longrightarrow> p = i"
  shows "thespian_handle_id h = i"
  using assms
  by (auto simp: thespian_handle_from_id_def thespian_handle_id_def instance_by_id_def make_handle_def expired_def
      lock_def instance_id_def Let_def split: if_splits option.splits)

end
