(* ===== verification/Executor.thy ===== *)
theory Executor
  imports Net "HOL-Library.Multiset"
begin

text \<open>
  The executor (\<^verbatim>\<open>src/src/executor_asio.cpp\<close>), the layer over the asio library: it counts the pending
  operations and posts, and it drops a completion when the object that started the operation is
  gone (\<open>token_\<close>, a weak pointer the handler holds). The library is an input: which operation
  completes when, and with what result. Strands run what is posted to them in order, one at a
  time; that is what asio documents.
\<close>

section \<open>Operations and their completion\<close>

text \<open>What the library is asked to do, with the arguments it is given.\<close>

datatype op_kind =
  K_signal | K_timer | K_udp_receive | K_connect_tcp in6_addr port_t | K_connect_unx string
| K_write "byte list" | K_read | K_accept | K_wait_read | K_wait_write
| K_stream_read | K_stream_write "byte list"

text \<open>What asio reports: the error code, a byte count, a descriptor, a signal, the sender's address.\<close>

record completion =
  c_ec :: error_code
  c_count :: nat
  c_fd :: int
  c_signum :: int
  c_ip :: in6_addr
  c_port :: port_t

text \<open>A call of a handler \<open>'h\<close>, with the arguments its type has.\<close>

datatype 'h invocation =
  Inv_signal 'h error_code int | Inv_ec 'h error_code | Inv_count 'h error_code nat
| Inv_accept 'h int error_code

text \<open>
  The context: the two counters, the outstanding operations (kind, object, handler), the objects
  that exist (whose \<open>token_\<close> a completion can still lock) and the next object to be made, the
  \<open>in_progress\<close> flags, the posted tasks per strand and the endpoint of the last datagram per object.
  The last three fields are histories: the calls made, the tasks posted and the tasks run.
\<close>

record 'h xctx =
  x_pending :: nat
  x_posts :: nat
  x_ops :: "(op_kind \<times> nat \<times> 'h) list"
  x_alive :: "nat list"
  x_next :: nat
  x_waiting :: "(nat \<times> nat) list"
  x_tasks :: "nat \<Rightarrow> 'h list"
  x_remote :: "nat \<Rightarrow> (in6_addr \<times> port_t) option"
  x_called :: "(nat \<times> 'h invocation) list"
  x_posted :: "(nat \<times> 'h) list"
  x_ran :: "(nat \<times> 'h) list"

definition xctx_new :: "'h xctx" where
  "xctx_new = \<lparr>x_pending = 0, x_posts = 0, x_ops = [], x_alive = [], x_next = 0, x_waiting = [],
     x_tasks = \<lambda>_. [], x_remote = \<lambda>_. None, x_called = [], x_posted = [], x_ran = []\<rparr>"

text \<open>The constructors and destructors of the wrappers: a token is made, and expires.\<close>

definition object_create :: "'h xctx \<Rightarrow> 'h xctx \<times> nat" where
  "object_create c = (c\<lparr>x_alive := x_next c # x_alive c, x_next := x_next c + 1\<rparr>, x_next c)"

definition object_destroy :: "nat \<Rightarrow> 'h xctx \<Rightarrow> 'h xctx" where
  "object_destroy o' c = c\<lparr>x_alive := removeAll o' (x_alive c)\<rparr>"

text \<open>The first half of every asynchronous operation: count it and hand the closure to asio.\<close>

definition async_start :: "op_kind \<Rightarrow> nat \<Rightarrow> 'h \<Rightarrow> 'h xctx \<Rightarrow> 'h xctx" where
  "async_start k o' h c = c\<lparr>x_pending := x_pending c + 1, x_ops := x_ops c @ [(k, o', h)]\<rparr>"

definition signal_on_fired :: "nat \<Rightarrow> 'h \<Rightarrow> 'h xctx \<Rightarrow> 'h xctx" where
  "signal_on_fired o' h = async_start K_signal o' h"

definition timer_on_expired :: "nat \<Rightarrow> 'h \<Rightarrow> 'h xctx \<Rightarrow> 'h xctx" where
  "timer_on_expired o' h = async_start K_timer o' h"

definition udp_socket_receive :: "nat \<Rightarrow> 'h \<Rightarrow> 'h xctx \<Rightarrow> 'h xctx" where
  "udp_socket_receive o' h = async_start K_udp_receive o' h"

definition tcp_socket_connect :: "nat \<Rightarrow> in6_addr \<Rightarrow> port_t \<Rightarrow> 'h \<Rightarrow> 'h xctx \<Rightarrow> 'h xctx" where
  "tcp_socket_connect o' ip port h = async_start (K_connect_tcp ip port) o' h"

definition tcp_socket_write :: "nat \<Rightarrow> byte list \<Rightarrow> 'h \<Rightarrow> 'h xctx \<Rightarrow> 'h xctx" where
  "tcp_socket_write o' data h = async_start (K_write data) o' h"

definition tcp_socket_read :: "nat \<Rightarrow> 'h \<Rightarrow> 'h xctx \<Rightarrow> 'h xctx" where
  "tcp_socket_read o' h = async_start K_read o' h"

definition tcp_acceptor_accept :: "nat \<Rightarrow> 'h \<Rightarrow> 'h xctx \<Rightarrow> 'h xctx" where
  "tcp_acceptor_accept o' h = async_start K_accept o' h"

definition unx_socket_connect :: "nat \<Rightarrow> string \<Rightarrow> 'h \<Rightarrow> 'h xctx \<Rightarrow> 'h xctx" where
  "unx_socket_connect o' path h = async_start (K_connect_unx path) o' h"

definition unx_socket_write :: "nat \<Rightarrow> byte list \<Rightarrow> 'h \<Rightarrow> 'h xctx \<Rightarrow> 'h xctx" where
  "unx_socket_write o' data h = async_start (K_write data) o' h"

definition unx_socket_read :: "nat \<Rightarrow> 'h \<Rightarrow> 'h xctx \<Rightarrow> 'h xctx" where
  "unx_socket_read o' h = async_start K_read o' h"

definition unx_acceptor_accept :: "nat \<Rightarrow> 'h \<Rightarrow> 'h xctx \<Rightarrow> 'h xctx" where
  "unx_acceptor_accept o' h = async_start K_accept o' h"

text \<open>
  A watcher, and the file stream of the Windows build, has at most one operation of each direction
  in progress; a second request is dropped. \<open>flag_of\<close> is the flag an operation sets:
  \<open>read_in_progress_\<close> (0) or \<open>write_in_progress_\<close> (1).
\<close>

fun flag_of :: "op_kind \<Rightarrow> nat option" where
  "flag_of K_wait_read = Some 0"
| "flag_of K_wait_write = Some 1"
| "flag_of K_stream_read = Some 0"
| "flag_of (K_stream_write _) = Some 1"
| "flag_of _ = None"

definition watcher_wait :: "op_kind \<Rightarrow> nat \<Rightarrow> 'h \<Rightarrow> 'h xctx \<Rightarrow> 'h xctx" where
  "watcher_wait k o' h c =
     (case flag_of k of
        None \<Rightarrow> async_start k o' h c
      | Some d \<Rightarrow> if (d, o') \<in> set (x_waiting c) then c
          else async_start k o' h (c\<lparr>x_waiting := (d, o') # x_waiting c\<rparr>))"

definition watcher_wait_read :: "nat \<Rightarrow> 'h \<Rightarrow> 'h xctx \<Rightarrow> 'h xctx" where
  "watcher_wait_read o' h = watcher_wait K_wait_read o' h"

definition watcher_wait_write :: "nat \<Rightarrow> 'h \<Rightarrow> 'h xctx \<Rightarrow> 'h xctx" where
  "watcher_wait_write o' h = watcher_wait K_wait_write o' h"

definition file_stream_start_read :: "nat \<Rightarrow> 'h \<Rightarrow> 'h xctx \<Rightarrow> 'h xctx" where
  "file_stream_start_read o' h = watcher_wait K_stream_read o' h"

definition file_stream_start_write :: "nat \<Rightarrow> byte list \<Rightarrow> 'h \<Rightarrow> 'h xctx \<Rightarrow> 'h xctx" where
  "file_stream_start_write o' data h = watcher_wait (K_stream_write data) o' h"

text \<open>
  The second half, the closure asio calls. It uncounts the operation and, if the token can still be
  locked, clears the flag or stores the sender and calls the handler. \<open>aborted\<close> is
  \<open>is_aborted_accept\<close>, false everywhere but on one system: the accept is started again with the
  same handler.
\<close>

fun invoke_as :: "op_kind \<Rightarrow> 'h \<Rightarrow> completion \<Rightarrow> 'h invocation" where
  "invoke_as K_signal h r = Inv_signal h (c_ec r) (c_signum r)"
| "invoke_as K_accept h r = Inv_accept h (if failed (c_ec r) then 0 else c_fd r) (c_ec r)"
| "invoke_as K_udp_receive h r = Inv_count h (c_ec r) (c_count r)"
| "invoke_as (K_write _) h r = Inv_count h (c_ec r) (c_count r)"
| "invoke_as K_read h r = Inv_count h (c_ec r) (c_count r)"
| "invoke_as K_stream_read h r = Inv_count h (c_ec r) (c_count r)"
| "invoke_as (K_stream_write _) h r = Inv_count h (c_ec r) (c_count r)"
| "invoke_as _ h r = Inv_ec h (c_ec r)"

definition call_handler :: "op_kind \<Rightarrow> nat \<Rightarrow> 'h \<Rightarrow> completion \<Rightarrow> 'h xctx \<Rightarrow> 'h xctx" where
  "call_handler k o' h r c =
     (let c = (if k = K_udp_receive then c\<lparr>x_remote := (x_remote c)(o' \<mapsto> (c_ip r, c_port r))\<rparr> else c);
          c = (case flag_of k of None \<Rightarrow> c
               | Some d \<Rightarrow> c\<lparr>x_waiting := removeAll (d, o') (x_waiting c)\<rparr>)
      in c\<lparr>x_called := x_called c @ [(o', invoke_as k h r)]\<rparr>)"

definition async_complete :: "(error_code \<Rightarrow> bool) \<Rightarrow> nat \<Rightarrow> completion \<Rightarrow> 'h xctx \<Rightarrow> 'h xctx" where
  "async_complete aborted i r c =
     (if i \<ge> length (x_ops c) then c
      else case x_ops c ! i of (k, o', h) \<Rightarrow>
        let c = c\<lparr>x_ops := take i (x_ops c) @ drop (i + 1) (x_ops c), x_pending := x_pending c - 1\<rparr> in
        if o' \<notin> set (x_alive c) then c
        else if k = K_accept \<and> aborted (c_ec r) then async_start k o' h c
        else call_handler k o' h r c)"

definition is_aborted_accept :: "bool \<Rightarrow> error_code \<Rightarrow> error_code \<Rightarrow> bool" where
  "is_aborted_accept apple invalid_argument ec = (apple \<and> ec = invalid_argument)"

section \<open>Strands\<close>

definition strand_post :: "nat \<Rightarrow> 'h \<Rightarrow> 'h xctx \<Rightarrow> 'h xctx" where
  "strand_post st f c = c\<lparr>x_posts := x_posts c + 1, x_tasks := (x_tasks c)(st := x_tasks c st @ [f]),
     x_posted := x_posted c @ [(st, f)]\<rparr>"

definition strand_run :: "nat \<Rightarrow> 'h xctx \<Rightarrow> 'h xctx" where
  "strand_run st c = (case x_tasks c st of [] \<Rightarrow> c
     | f # fs \<Rightarrow> c\<lparr>x_tasks := (x_tasks c)(st := fs), x_posts := x_posts c - 1, x_ran := x_ran c @ [(st, f)]\<rparr>)"

definition pending_tasks :: "'h xctx \<Rightarrow> nat" where
  "pending_tasks c = x_pending c"

definition pending_posts :: "'h xctx \<Rightarrow> nat" where
  "pending_posts c = x_posts c"

section \<open>Threads\<close>

text \<open>\<open>threads\<close>: the number of processors within the limits of the environment.\<close>

definition threads :: "int \<Rightarrow> int \<Rightarrow> int \<Rightarrow> int" where
  "threads nproc max_thread min_thread = max (min nproc max_thread) min_thread"

definition spawn_threads :: "int \<Rightarrow> int" where
  "spawn_threads thread_count = max (thread_count - 1) 0"

text \<open>The stack size of a worker thread, rounded up to a multiple of the page size, in \<open>size_t\<close>.\<close>

definition worker_stack_size :: "64 word \<Rightarrow> 64 word \<Rightarrow> 64 word \<Rightarrow> 64 word" where
  "worker_stack_size stack_size stack_min page =
     (let size = max stack_size stack_min in (size + page - 1) div page * page)"

section \<open>Reachable contexts\<close>

text \<open>
  What a program does with a context: it makes and destroys objects, starts operations on objects
  that exist, posts to strands, and asio completes an outstanding operation or runs a posted task.
\<close>

inductive xstep :: "'h xctx \<Rightarrow> 'h xctx \<Rightarrow> bool" where
  create: "xstep c (fst (object_create c))"
| destroy: "xstep c (object_destroy o' c)"
| start: "o' \<in> set (x_alive c) \<Longrightarrow> xstep c (watcher_wait k o' h c)"
| complete: "i < length (x_ops c) \<Longrightarrow> xstep c (async_complete aborted i r c)"
| post: "xstep c (strand_post st h c)"
| run: "xstep c (strand_run st c)"

inductive xreachable :: "'h xctx \<Rightarrow> bool" where
  new: "xreachable xctx_new"
| step: "xreachable c \<Longrightarrow> xstep c c' \<Longrightarrow> xreachable c'"

text \<open>The tasks a strand was given, and those it has run.\<close>

definition on_strand :: "nat \<Rightarrow> (nat \<times> 'h) list \<Rightarrow> 'h list" where
  "on_strand st = map snd \<circ> filter (\<lambda>p. fst p = st)"

text \<open>The operations of an object in one direction, and the calls made for it.\<close>

definition in_progress :: "nat \<Rightarrow> nat \<Rightarrow> 'h xctx \<Rightarrow> (op_kind \<times> nat \<times> 'h) list" where
  "in_progress d o' c = filter (\<lambda>(k, p, h). flag_of k = Some d \<and> p = o') (x_ops c)"

definition calls_of :: "nat \<Rightarrow> 'h xctx \<Rightarrow> 'h invocation list" where
  "calls_of o' c = map snd (filter (\<lambda>p. fst p = o') (x_called c))"

text \<open>The invariant, in three parts: the counter, the strands and the flags.\<close>

definition counted :: "'h xctx \<Rightarrow> bool" where
  "counted c \<longleftrightarrow> x_pending c = length (x_ops c)"

definition strands_ok :: "'h xctx \<Rightarrow> bool" where
  "strands_ok c \<longleftrightarrow> length (x_posted c) = x_posts c + length (x_ran c)
     \<and> (\<forall>st. on_strand st (x_posted c) = on_strand st (x_ran c) @ x_tasks c st)"

definition flags_ok :: "'h xctx \<Rightarrow> bool" where
  "flags_ok c \<longleftrightarrow>
     (\<forall>d o'. length (in_progress d o' c) \<le> (if (d, o') \<in> set (x_waiting c) then 1 else 0))"

definition xinv :: "'h xctx \<Rightarrow> bool" where
  "xinv c \<longleftrightarrow> counted c \<and> strands_ok c \<and> flags_ok c \<and> (\<forall>o' \<in> set (x_alive c). o' < x_next c)"

section \<open>Lemmas\<close>

named_theorems xdefs \<open>the operations of the executor\<close>

lemmas [xdefs] = object_create_def object_destroy_def async_start_def watcher_wait_def call_handler_def
  async_complete_def strand_post_def

lemma on_strand_simps [simp]:
  "on_strand st [] = []" "on_strand st (xs @ ys) = on_strand st xs @ on_strand st ys"
  "on_strand st ((t, f) # xs) = (if t = st then f # on_strand st xs else on_strand st xs)"
  by (auto simp: on_strand_def)

lemma length_remove_index: "i < length xs \<Longrightarrow> length (take i xs @ drop (i + 1) xs) = length xs - 1"
  by simp

lemma filter_remove_index:
  assumes "i < length xs"
  shows "length (filter P (take i xs @ drop (i + 1) xs)) + (if P (xs ! i) then 1 else 0) = length (filter P xs)"
proof -
  have "filter P xs = filter P (take i xs) @ filter P (xs ! i # drop (i + 1) xs)"
    using id_take_nth_drop [OF assms] by (metis Suc_eq_plus1 filter_append)
  then show ?thesis by simp
qed

lemma xinv_counted: assumes "xstep c c'" "counted c" shows "counted c'"
  using assms
  by (cases rule: xstep.cases)
    (auto simp: counted_def xdefs strand_run_def Let_def split: prod.splits option.splits list.splits if_splits)

lemma count_on_strand: "count (mset (map fst xs)) st = length (on_strand st xs)"
  by (induction xs) (auto simp: on_strand_def)

text \<open>A strand with a task still to run has been given more than has run: the counter is not zero.\<close>

lemma posts_pos:
  assumes "strands_ok c" "x_tasks c st \<noteq> []"
  shows "x_posts c \<ge> 1"
proof -
  have each: "\<And>t. on_strand t (x_posted c) = on_strand t (x_ran c) @ x_tasks c t"
    using assms(1) by (simp add: strands_ok_def)
  have "mset (map fst (x_ran c)) \<subset># mset (map fst (x_posted c))"
  proof (rule subset_mset.le_neq_trans)
    show "mset (map fst (x_ran c)) \<subseteq># mset (map fst (x_posted c))"
      by (rule mset_subset_eqI) (simp add: count_on_strand each del: mset_map)
    have "count (mset (map fst (x_ran c))) st < count (mset (map fst (x_posted c))) st"
      using assms(2) by (simp add: count_on_strand each del: mset_map)
    then show "mset (map fst (x_ran c)) \<noteq> mset (map fst (x_posted c))" by fastforce
  qed
  from mset_subset_size [OF this] have "length (x_ran c) < length (x_posted c)" by simp
  with assms(1) show ?thesis by (simp add: strands_ok_def)
qed

lemma xinv_strands: assumes "xstep c c'" "strands_ok c" shows "strands_ok c'"
  using assms
proof (cases rule: xstep.cases)
  case (run st)
  show ?thesis
  proof (cases "x_tasks c st")
    case Nil with run assms(2) show ?thesis by (simp add: strand_run_def)
  next
    case (Cons f fs)
    have "on_strand st (x_posted c) = on_strand st (x_ran c) @ f # fs" using assms(2) Cons by (simp add: strands_ok_def)
    moreover have "x_posts c \<ge> 1" using posts_pos [OF assms(2), of st] Cons by simp
    ultimately show ?thesis using assms(2) run Cons by (auto simp: strands_ok_def strand_run_def)
  qed
qed (auto simp: strands_ok_def xdefs Let_def split: prod.splits option.splits if_splits)

lemma in_progress_start:
  "in_progress d p (async_start k o' h c) = in_progress d p c @ (if flag_of k = Some d \<and> o' = p then [(k, o', h)] else [])"
  by (auto simp: in_progress_def async_start_def)

lemma in_progress_waiting [simp]: "in_progress d p (c\<lparr>x_waiting := w\<rparr>) = in_progress d p c"
  by (simp add: in_progress_def)

lemma in_progress_call [simp]: "in_progress d p (call_handler k o' h r c) = in_progress d p c"
  by (simp add: in_progress_def call_handler_def Let_def split: option.split)

lemma x_waiting_simps [simp]:
  "x_waiting (async_start k o' h c) = x_waiting c"
  "set (x_waiting (call_handler k o' h r c)) = set (x_waiting c) - {(d, p). flag_of k = Some d \<and> p = o'}"
  by (auto simp: async_start_def call_handler_def Let_def split: option.splits)

lemma flags_okD: "flags_ok c \<Longrightarrow> length (in_progress d p c) \<le> (if (d, p) \<in> set (x_waiting c) then 1 else 0)"
  by (simp add: flags_ok_def)

lemma flags_start: assumes "flags_ok c" shows "flags_ok (watcher_wait k o' h c)"
proof -
  have "length (in_progress d p (watcher_wait k o' h c))
    \<le> (if (d, p) \<in> set (x_waiting (watcher_wait k o' h c)) then 1 else 0)" for d p
    using flags_okD [OF assms, of d p]
    by (cases "flag_of k") (auto simp: watcher_wait_def in_progress_start split: if_splits)
  then show ?thesis by (simp add: flags_ok_def)
qed

lemma in_progress_complete:
  assumes "i < length (x_ops c)" "x_ops c ! i = (k, o', h)"
  shows "length (filter (\<lambda>(k, p, h). flag_of k = Some d \<and> p = q) (take i (x_ops c) @ drop (i + 1) (x_ops c)))
       + (if flag_of k = Some d \<and> o' = q then 1 else 0) = length (in_progress d q c)"
  using filter_remove_index [OF assms(1), of "\<lambda>(k, p, h). flag_of k = Some d \<and> p = q"] assms(2)
  by (simp add: in_progress_def)

lemma flags_complete:
  assumes ok: "flags_ok c" and i: "i < length (x_ops c)"
  shows "flags_ok (async_complete aborted i r c)"
proof -
  obtain k o' h where op: "x_ops c ! i = (k, o', h)" by (cases "x_ops c ! i") auto
  let ?c = "c\<lparr>x_ops := take i (x_ops c) @ drop (i + 1) (x_ops c), x_pending := x_pending c - 1\<rparr>"
  have left: "length (in_progress d q ?c) + (if flag_of k = Some d \<and> o' = q then 1 else 0)
    = length (in_progress d q c)" for d q
    using in_progress_complete [OF i op, of d q] by (simp add: in_progress_def)
  have le: "length (in_progress d q c) \<le> (if (d, q) \<in> set (x_waiting c) then 1 else 0)" for d q
    using ok by (simp add: flags_ok_def)
  have 1: "flags_ok ?c"
    unfolding flags_ok_def
  proof (intro allI)
    fix d q show "length (in_progress d q ?c) \<le> (if (d, q) \<in> set (x_waiting ?c) then 1 else 0)"
      using left [of d q] le [of d q] by simp
  qed
  have 2: "flags_ok (async_start k o' h ?c)" if "k = K_accept"
    using flags_start [OF 1, of k o' h] that by (simp add: watcher_wait_def)
  have 3: "flags_ok (call_handler k o' h r ?c)"
  proof -
    have "length (in_progress d q (call_handler k o' h r ?c))
      \<le> (if (d, q) \<in> set (x_waiting (call_handler k o' h r ?c)) then 1 else 0)" for d q
      using left [of d q] le [of d q]
      by (cases "flag_of k = Some d \<and> o' = q") (auto simp del: length_0_conv simp: length_0_conv [symmetric] split: if_splits)
    then show ?thesis by (simp add: flags_ok_def)
  qed
  show ?thesis using i op 1 2 3 by (simp add: async_complete_def Let_def)
qed

lemma xinv_flags: assumes "xstep c c'" "flags_ok c" shows "flags_ok c'"
  using assms
proof (cases rule: xstep.cases)
  case start then show ?thesis using flags_start [OF assms(2)] by simp
next
  case complete then show ?thesis using flags_complete [OF assms(2)] by simp
next
  case (run st) then show ?thesis using assms(2)
    by (cases "x_tasks c st") (simp_all add: flags_ok_def in_progress_def strand_run_def)
qed (simp_all add: flags_ok_def in_progress_def object_create_def object_destroy_def strand_post_def)

lemma xstep_alive: "xstep c c' \<Longrightarrow> \<forall>o' \<in> set (x_alive c). o' < x_next c \<Longrightarrow> \<forall>o' \<in> set (x_alive c'). o' < x_next c'"
  by (cases rule: xstep.cases)
    (auto simp: xdefs strand_run_def Let_def less_Suc_eq split: prod.splits option.splits list.splits if_splits)

lemma xreachable_inv: "xreachable c \<Longrightarrow> xinv c"
proof (induction rule: xreachable.induct)
  case new show ?case
    by (simp add: xinv_def counted_def strands_ok_def flags_ok_def in_progress_def xctx_new_def)
next
  case (step c c') then show ?case
    using xinv_counted xinv_strands xinv_flags xstep_alive unfolding xinv_def by blast
qed

text \<open>An object that is gone stays gone, and no step calls a handler of it.\<close>

lemma xstep_dead:
  assumes "xstep c c'" "o' \<notin> set (x_alive c)" "o' < x_next c"
  shows "o' \<notin> set (x_alive c') \<and> o' < x_next c' \<and> calls_of o' c' = calls_of o' c"
  using assms
  by (cases rule: xstep.cases)
    (auto simp: calls_of_def xdefs strand_run_def Let_def split: prod.splits option.splits list.splits if_splits)

lemma xsteps_dead:
  assumes "xstep\<^sup>*\<^sup>* c c'" "o' \<notin> set (x_alive c)" "o' < x_next c"
  shows "o' \<notin> set (x_alive c') \<and> o' < x_next c' \<and> calls_of o' c' = calls_of o' c"
  using assms(1)
proof (induction rule: rtranclp_induct)
  case base with assms(2,3) show ?case by simp
next
  case (step c1 c2) with xstep_dead [OF step.hyps(2), of o'] show ?case by simp
qed

section \<open>Properties\<close>

text \<open>
  C16. In every context a program can reach, \<open>pending_tasks\<close> is the number of operations handed to
  asio that have not completed and \<open>pending_posts\<close> the number of posted tasks that have not run; a
  watcher never has two waits of the same direction in progress; and every strand runs its tasks in
  the order they were posted.
\<close>

theorem executor_invariant:
  assumes "xreachable c"
  shows "pending_tasks c = length (x_ops c)
    \<and> pending_posts c = length (x_posted c) - length (x_ran c)
    \<and> length (in_progress d o' c) \<le> 1
    \<and> on_strand st (x_posted c) = on_strand st (x_ran c) @ x_tasks c st"
proof -
  have inv: "counted c" "strands_ok c" "flags_ok c" using xreachable_inv [OF assms] by (simp_all add: xinv_def)
  from inv(1) have "pending_tasks c = length (x_ops c)" by (simp add: counted_def pending_tasks_def)
  moreover have "length (in_progress d o' c) \<le> 1"
    using flags_okD [OF inv(3), of d o'] by (auto split: if_splits)
  ultimately show ?thesis using inv(2) by (simp add: strands_ok_def pending_posts_def)
qed

text \<open>A context with a watcher that waits twice for the same direction and a strand with two tasks, one run.\<close>

definition xdemo :: "nat xctx" where
  "xdemo = strand_run 0 (strand_post 0 6 (strand_post 0 5
     (watcher_wait_read 0 2 (watcher_wait_read 0 1 (fst (object_create xctx_new))))))"

lemma xdemo_reachable: "xreachable xdemo"
  unfolding xdemo_def watcher_wait_read_def
  by (intro xreachable.step [OF _ xstep.run] xreachable.step [OF _ xstep.post] xreachable.step [OF _ xstep.start]
      xreachable.step [OF _ xstep.create] xreachable.new)
    (simp_all add: object_create_def watcher_wait_def async_start_def xctx_new_def)

theorem executor_invariant_witness:
  "pending_tasks xdemo = 1 \<and> pending_posts xdemo = 1 \<and> length (in_progress 0 0 xdemo) \<le> 1
   \<and> x_tasks xdemo 0 = [6] \<and> on_strand 0 (x_ran xdemo) = [5]"
proof -
  have v: "length (x_ops xdemo) = 1" "length (x_posted xdemo) = 2" "length (x_ran xdemo) = 1"
    "on_strand 0 (x_ran xdemo) = [5]" "on_strand 0 (x_posted xdemo) = [5, 6]"
    by (simp_all add: xdemo_def strand_run_def strand_post_def watcher_wait_read_def watcher_wait_def async_start_def
        object_create_def xctx_new_def)
  show ?thesis using executor_invariant [OF xdemo_reachable, of 0 0 0] v by simp
qed

text \<open>
  C17. Once an object is destroyed, none of its handlers is called any more, whatever operations of it
  complete later and whatever else the program does; the operations still leave the count.
\<close>

theorem no_call_after_destroy:
  assumes "xreachable c" "o' \<in> set (x_alive c)" "xstep\<^sup>*\<^sup>* (object_destroy o' c) c'"
  shows "calls_of o' c' = calls_of o' c \<and> pending_tasks c' = length (x_ops c')"
proof -
  have "o' < x_next c" using xreachable_inv [OF assms(1)] assms(2) by (simp add: xinv_def)
  then have "calls_of o' c' = calls_of o' (object_destroy o' c)"
    using xsteps_dead [OF assms(3), of o'] by (simp add: object_destroy_def)
  moreover have "xreachable c'"
    using assms(3)
    by (induction rule: rtranclp_induct) (auto intro: xreachable.intros xstep.destroy assms(1))
  then have "pending_tasks c' = length (x_ops c')"
    using xreachable_inv [of c'] by (simp add: xinv_def counted_def pending_tasks_def)
  ultimately show ?thesis by (simp add: calls_of_def object_destroy_def)
qed

definition xdone :: completion where
  "xdone = \<lparr>c_ec = ec_ok, c_count = 0, c_fd = 0, c_signum = 0, c_ip = [], c_port = 0\<rparr>"

theorem no_call_after_destroy_witness:
  "calls_of 0 (async_complete (\<lambda>_. False) 0 xdone (object_destroy 0 xdemo)) = []
   \<and> pending_tasks (async_complete (\<lambda>_. False) 0 xdone (object_destroy 0 xdemo)) = 0"
proof -
  let ?d = "object_destroy 0 xdemo"
  have v: "x_alive xdemo = [0]" "x_ops xdemo = [(K_wait_read, 0, 1)]" "x_called xdemo = []"
    by (simp_all add: xdemo_def strand_run_def strand_post_def watcher_wait_read_def watcher_wait_def async_start_def
        object_create_def xctx_new_def)
  have "xstep\<^sup>*\<^sup>* ?d (async_complete (\<lambda>_. False) 0 xdone ?d)"
    by (intro r_into_rtranclp xstep.complete) (simp add: object_destroy_def v)
  from no_call_after_destroy [OF xdemo_reachable _ this] v show ?thesis
    by (simp add: calls_of_def async_complete_def object_destroy_def Let_def)
qed

text \<open>Rounding up to a multiple, on the naturals.\<close>

lemma round_up_nat:
  assumes "0 < (p :: nat)"
  shows "n \<le> (n + p - 1) div p * p" "(n + p - 1) div p * p < n + p"
proof -
  have m: "(n + p - 1) div p * p + (n + p - 1) mod p = n + p - 1" by simp
  have "(n + p - 1) mod p < p" using assms by simp
  with m assms show "n \<le> (n + p - 1) div p * p" by linarith
  from m assms show "(n + p - 1) div p * p < n + p" by linarith
qed

text \<open>The word computation is the one on the naturals when the sum fits.\<close>

lemma round_up_word:
  assumes "(page :: 64 word) \<noteq> 0" "unat n + unat page \<le> 2 ^ 64"
  shows "unat ((n + page - 1) div page * page) = (unat n + unat page - 1) div unat page * unat page"
proof -
  have pos: "0 < unat page" using assms(1) by (simp add: unat_gt_0)
  have "unat (n + (page - 1)) = unat n + unat (page - 1)"
    using assms(2) pos by (subst unat_add_lem [THEN iffD1]) (auto simp: unat_minus_one [OF assms(1)])
  then have s: "unat (n + page - 1) = unat n + unat page - 1"
    using pos by (simp add: unat_minus_one [OF assms(1)] add_diff_eq)
  have "(unat n + unat page - 1) div unat page * unat page < 2 ^ 64"
    using assms(2) pos by (meson div_times_less_eq_dividend le_less_trans less_le_trans diff_less zero_less_one add_pos_nonneg order_less_le_trans le_add2)
  then show ?thesis
    using s by (simp add: unat_div_distrib unat_word_ariths)
qed

text \<open>
  The stack size given to the worker threads is a multiple of the page size, at least the size
  asked for and the system's minimum, and less than one page more, when the rounding does not wrap.
\<close>

theorem worker_stack_size_bounds:
  assumes "page \<noteq> 0" "unat (max stack_size stack_min) + unat page \<le> 2 ^ 64"
  shows "unat page dvd unat (worker_stack_size stack_size stack_min page)
    \<and> max stack_size stack_min \<le> worker_stack_size stack_size stack_min page
    \<and> unat (worker_stack_size stack_size stack_min page) < unat (max stack_size stack_min) + unat page"
proof -
  have r: "unat (worker_stack_size stack_size stack_min page)
    = (unat (max stack_size stack_min) + unat page - 1) div unat page * unat page"
    using round_up_word [OF assms] by (simp add: worker_stack_size_def)
  have pos: "0 < unat page" using assms(1) by (simp add: unat_gt_0)
  show ?thesis unfolding word_le_nat_alt r using round_up_nat [OF pos] by simp
qed

theorem worker_stack_size_bounds_witness:
  "worker_stack_size 8388609 16384 4096 \<ge> 8388609 \<and> unat (worker_stack_size 8388609 16384 4096) < 8392705
   \<and> 4096 dvd unat (worker_stack_size 8388609 16384 4096)"
  using worker_stack_size_bounds [of 4096 8388609 16384] by (simp add: max_def)

end
