(* ===== verification/Executor_Objects.thy ===== *)
theory Executor_Objects
  imports Executor
begin

text \<open>
  The objects of \<^verbatim>\<open>src/src/executor_asio.cpp\<close> and the descriptors they hold: sockets, acceptors and
  watchers are made, bound, closed, give up their descriptor and are destroyed. \<open>Executor\<close> has their
  asynchronous operations. What the asio library documents is assumed of it: a socket that is made
  with a protocol opens a descriptor, closing an object that is not open does nothing, releasing one
  is an error, and the destructor closes a descriptor that is still held.

  Also here are the contexts and the threads that run them, and timers and signal sets.
\<close>

section \<open>Descriptors and objects\<close>

text \<open>
  Descriptors are numbered in the order they come into being; the system reuses numbers, the model does
  not, so that a number means one descriptor. \<open>n_user\<close> are the open descriptors that belong to the
  program itself, \<open>n_closed\<close> is the history of the closed ones.
\<close>

datatype nkind = N_udp_socket | N_tcp_socket | N_tcp_acceptor | N_unx_socket | N_unx_acceptor | N_watcher

record nobj =
  n_kind :: nkind
  n_fd :: "nat option"
  n_local :: "in6_addr \<times> port_t"

record net =
  n_objs :: "nat \<Rightarrow> nobj option"
  n_next :: nat
  n_open :: "nat list"
  n_user :: "nat list"
  n_closed :: "nat list"
  n_next_fd :: nat

definition net_new :: net where
  "net_new = \<lparr>n_objs = \<lambda>_. None, n_next = 0, n_open = [], n_user = [], n_closed = [], n_next_fd = 0\<rparr>"

definition no_endpoint :: "in6_addr \<times> port_t" where
  "no_endpoint = (replicate 16 0, 0)"

text \<open>The system opens and closes; \<open>err\<close> is the text of the exception when opening fails.\<close>

definition sys_open :: "string option \<Rightarrow> (nat, net) comp" where
  "sys_open err n = (case err of
     Some w \<Rightarrow> (Inl (Std_exn w), n)
   | None \<Rightarrow> (Inr (n_next_fd n), n\<lparr>n_open := n_next_fd n # n_open n, n_next_fd := n_next_fd n + 1\<rparr>))"

definition sys_close :: "nat \<Rightarrow> (unit, net) comp" where
  "sys_close fd n = (Inr (), n\<lparr>n_open := removeAll fd (n_open n), n_closed := n_closed n @ [fd]\<rparr>)"

definition new_object :: "nkind \<Rightarrow> nat option \<Rightarrow> (nat, net) comp" where
  "new_object k fd n =
     (Inr (n_next n), n\<lparr>n_objs := (n_objs n)(n_next n \<mapsto> \<lparr>n_kind = k, n_fd = fd, n_local = no_endpoint\<rparr>),
        n_next := n_next n + 1\<rparr>)"

definition set_fd :: "nat \<Rightarrow> nat option \<Rightarrow> (unit, net) comp" where
  "set_fd i fd n = (Inr (), n\<lparr>n_objs := (n_objs n)(i := map_option (\<lambda>x. x\<lparr>n_fd := fd\<rparr>) (n_objs n i))\<rparr>)"

definition fd_of :: "nat \<Rightarrow> net \<Rightarrow> nat option" where
  "fd_of i n = (case n_objs n i of Some x \<Rightarrow> n_fd x | None \<Rightarrow> None)"

section \<open>Making objects\<close>

text \<open>Opened with a protocol.\<close>

definition open_object :: "nkind \<Rightarrow> string option \<Rightarrow> (nat, net) comp" where
  "open_object k err = bindS (sys_open err) (\<lambda>fd. new_object k (Some fd))"

definition udp_socket_new :: "string option \<Rightarrow> (nat, net) comp" where
  "udp_socket_new = open_object N_udp_socket"

definition tcp_socket_new :: "string option \<Rightarrow> (nat, net) comp" where
  "tcp_socket_new = open_object N_tcp_socket"

definition tcp_acceptor_new :: "string option \<Rightarrow> (nat, net) comp" where
  "tcp_acceptor_new = open_object N_tcp_acceptor"

definition unx_acceptor_new :: "string option \<Rightarrow> (nat, net) comp" where
  "unx_acceptor_new = open_object N_unx_acceptor"

text \<open>Without a descriptor; \<open>async_connect\<close> opens one.\<close>

definition unx_socket_new :: "(nat, net) comp" where
  "unx_socket_new = new_object N_unx_socket None"

text \<open>Around a descriptor of the program, which passes to the object; a watcher only borrows it.\<close>

definition take_user_fd :: "nat \<Rightarrow> (unit, net) comp" where
  "take_user_fd fd n = (Inr (), n\<lparr>n_user := removeAll fd (n_user n)\<rparr>)"

definition tcp_socket_adopt :: "nat \<Rightarrow> (nat, net) comp" where
  "tcp_socket_adopt fd = bindS (take_user_fd fd) (\<lambda>_. new_object N_tcp_socket (Some fd))"

definition unx_socket_adopt :: "nat \<Rightarrow> (nat, net) comp" where
  "unx_socket_adopt fd = bindS (take_user_fd fd) (\<lambda>_. new_object N_unx_socket (Some fd))"

definition watcher_new :: "nat \<Rightarrow> (nat, net) comp" where
  "watcher_new fd = new_object N_watcher (Some fd)"

section \<open>Operations\<close>

text \<open>
  Addresses: an \<open>in6_addr\<close> and an \<open>address_v6\<close> are both 16 bytes; the conversions copy them.
\<close>

definition to_address :: "in6_addr \<Rightarrow> byte list" where
  "to_address ip = take 16 ip"

definition to_in6_addr :: "byte list \<Rightarrow> in6_addr" where
  "to_in6_addr bytes = take 16 bytes"

definition to_endpoint :: "in6_addr \<Rightarrow> port_t \<Rightarrow> byte list \<times> port_t" where
  "to_endpoint ip port = (to_address ip, port)"

text \<open>
  Binding and listening: the calls of the library in order, and the error code that is returned. A TCP
  acceptor first allows the address to be reused (except on Windows) and returns the error of that, if
  there is one. The error codes are those the system gives for each call.
\<close>

datatype asio_call = A_reuse_address | A_bind "byte list \<times> port_t" | A_bind_path string | A_listen

definition socket_bind :: "in6_addr \<Rightarrow> port_t \<Rightarrow> error_code \<Rightarrow> asio_call list \<times> error_code" where
  "socket_bind ip port bind_ec = ([A_bind (to_endpoint ip port)], bind_ec)"

definition tcp_acceptor_bind ::
    "bool \<Rightarrow> in6_addr \<Rightarrow> port_t \<Rightarrow> error_code \<Rightarrow> error_code \<Rightarrow> asio_call list \<times> error_code" where
  "tcp_acceptor_bind windows ip port option_ec bind_ec =
     (if windows then ([A_bind (to_endpoint ip port)], bind_ec)
      else if failed option_ec then ([A_reuse_address], option_ec)
      else ([A_reuse_address, A_bind (to_endpoint ip port)], bind_ec))"

definition unx_acceptor_bind :: "string \<Rightarrow> error_code \<Rightarrow> asio_call list \<times> error_code" where
  "unx_acceptor_bind path bind_ec = ([A_bind_path path], bind_ec)"

definition asio_acceptor_listen :: "error_code \<Rightarrow> asio_call list \<times> error_code" where
  "asio_acceptor_listen listen_ec = ([A_listen], listen_ec)"

definition unx_socket_open :: "nat \<Rightarrow> bool \<Rightarrow> (unit, net) comp" where
  "unx_socket_open i opens n =
     (if fd_of i n = None \<and> opens then bindS (sys_open None) (\<lambda>fd. set_fd i (Some fd)) n else (Inr (), n))"

definition object_close :: "nat \<Rightarrow> (unit, net) comp" where
  "object_close i n = (case fd_of i n of
     None \<Rightarrow> (Inr (), n)
   | Some fd \<Rightarrow> bindS (sys_close fd) (\<lambda>_. set_fd i None) n)"

text \<open>On Windows a TCP socket is shut down for sending first; an error of that is ignored.\<close>

definition tcp_socket_close :: "nat \<Rightarrow> (unit, net) comp" where
  "tcp_socket_close = object_close"

definition asio_tcp_acceptor_close :: "nat \<Rightarrow> (unit, net) comp" where
  "asio_tcp_acceptor_close = object_close"

definition unx_socket_close :: "nat \<Rightarrow> (unit, net) comp" where
  "unx_socket_close = object_close"

definition asio_unx_acceptor_close :: "nat \<Rightarrow> (unit, net) comp" where
  "asio_unx_acceptor_close = object_close"

text \<open>\<open>udp::socket::close()\<close> has an empty body; the function of its implementation is never called.\<close>

definition udp_socket_close :: "nat \<Rightarrow> (unit, net) comp" where
  "udp_socket_close i = returnS ()"

definition socket_release :: "nat \<Rightarrow> (nat, net) comp" where
  "socket_release i n = (case fd_of i n of
     None \<Rightarrow> (Inl (Std_exn ''release: Bad file descriptor''), n)
   | Some fd \<Rightarrow> bindS (set_fd i None) (\<lambda>_ n. (Inr fd, n\<lparr>n_user := fd # n_user n\<rparr>)) n)"

definition tcp_socket_release :: "nat \<Rightarrow> (nat, net) comp" where
  "tcp_socket_release = socket_release"

definition unx_socket_release :: "nat \<Rightarrow> (nat, net) comp" where
  "unx_socket_release = socket_release"

text \<open>\<open>socket::close(int fd)\<close>: the program closes a descriptor of its own.\<close>

definition close_fd :: "nat \<Rightarrow> (unit, net) comp" where
  "close_fd fd = bindS (take_user_fd fd) (\<lambda>_. sys_close fd)"

text \<open>
  The completion of an accept: the system has put a new descriptor into the acceptor's own socket, which
  releases it to the handler; after an error the handler gets 0, that is no descriptor.
\<close>

definition accept_release :: "error_code \<Rightarrow> (nat option, net) comp" where
  "accept_release ec n =
     (if failed ec then (Inr None, n)
      else bindS (sys_open None) (\<lambda>fd n. (Inr (Some fd), n\<lparr>n_user := fd # n_user n\<rparr>)) n)"

text \<open>The destructors: a watcher releases its descriptor, the others close it.\<close>

definition remove_object :: "nat \<Rightarrow> (unit, net) comp" where
  "remove_object i n = (Inr (), n\<lparr>n_objs := (n_objs n)(i := None)\<rparr>)"

definition watcher_destroy :: "nat \<Rightarrow> (unit, net) comp" where
  "watcher_destroy i = bindS (set_fd i None) (\<lambda>_. remove_object i)"

definition net_destroy :: "nat \<Rightarrow> (unit, net) comp" where
  "net_destroy i n = (case n_objs n i of
     None \<Rightarrow> (Inr (), n)
   | Some x \<Rightarrow> if n_kind x = N_watcher then watcher_destroy i n
       else bindS (object_close i) (\<lambda>_. remove_object i) n)"

text \<open>A local endpoint is read from the system, kept in the object and returned.\<close>

definition local_endpoint :: "nat \<Rightarrow> byte list \<times> port_t \<Rightarrow> (in6_addr \<times> port_t, net) comp" where
  "local_endpoint i ep n =
     (let l = (to_in6_addr (fst ep), snd ep) in
      (Inr l, n\<lparr>n_objs := (n_objs n)(i := map_option (\<lambda>x. x\<lparr>n_local := l\<rparr>) (n_objs n i))\<rparr>))"

section \<open>Contexts, threads\<close>

text \<open>
  Making a context ignores \<open>SIGPIPE\<close>, so that writing to a closed connection is an error and not a signal;
  \<open>None\<close> is \<open>abort()\<close>. \<open>sigpipe_ok\<close> says whether the system allows it.
\<close>

record xcontext =
  xc_threads :: int
  xc_sigpipe_ignored :: bool

definition context_create_threads :: "bool \<Rightarrow> bool \<Rightarrow> int \<Rightarrow> xcontext option" where
  "context_create_threads windows sigpipe_ok thread_count =
     (if \<not> windows \<and> \<not> sigpipe_ok then None
      else Some \<lparr>xc_threads = thread_count, xc_sigpipe_ignored = (\<not> windows)\<rparr>)"

definition context_create_default :: "bool \<Rightarrow> bool \<Rightarrow> int \<Rightarrow> int \<Rightarrow> int \<Rightarrow> xcontext option" where
  "context_create_default windows sigpipe_ok nproc max_thread min_thread =
     context_create_threads windows sigpipe_ok (threads nproc max_thread min_thread)"

text \<open>
  \<open>context::run\<close>: the threads it starts, each of which runs the context, itself, and then waits for them.
  \<open>created k\<close> says whether thread \<open>k\<close> can be created; if not, \<open>abort()\<close>.
\<close>

datatype thread_act = Thread_create nat | Thread_run | Thread_join nat

fun create_workers :: "(nat \<Rightarrow> bool) \<Rightarrow> nat \<Rightarrow> nat \<Rightarrow> thread_act list option" where
  "create_workers created i 0 = Some []"
| "create_workers created i (Suc k) =
     (if created i then map_option ((#) (Thread_create i)) (create_workers created (i + 1) k) else None)"

definition context_run :: "(nat \<Rightarrow> bool) \<Rightarrow> xcontext \<Rightarrow> thread_act list option" where
  "context_run created c =
     (let n = nat (spawn_threads (xc_threads c)) in
      map_option (\<lambda>acts. acts @ [Thread_run] @ map Thread_join [0..<n]) (create_workers created 0 n))"

section \<open>Timers and signal sets\<close>

text \<open>
  A timer has an expiry and waits that have not ended; setting the expiry, and cancelling, ends them with
  the error \<open>operation_aborted\<close> (\<open>xt_aborted\<close>). Times are microseconds. A signal set has its signals.
\<close>

record 'h xtimer =
  xt_expiry :: int
  xt_waits :: "'h list"
  xt_aborted :: "'h list"

definition asio_timer_cancel :: "'h xtimer \<Rightarrow> 'h xtimer" where
  "asio_timer_cancel t = t\<lparr>xt_waits := [], xt_aborted := xt_aborted t @ xt_waits t\<rparr>"

definition timer_expires_at :: "int \<Rightarrow> 'h xtimer \<Rightarrow> 'h xtimer" where
  "timer_expires_at at t = (asio_timer_cancel t)\<lparr>xt_expiry := at\<rparr>"

definition timer_expires_after :: "int \<Rightarrow> int \<Rightarrow> 'h xtimer \<Rightarrow> 'h xtimer" where
  "timer_expires_after now us t = timer_expires_at (now + us) t"

record 'h xsignals =
  xg_signals :: "int list"
  xg_waits :: "'h list"
  xg_aborted :: "'h list"

definition signal_fires_on :: "int \<Rightarrow> 'h xsignals \<Rightarrow> 'h xsignals" where
  "signal_fires_on signum g = g\<lparr>xg_signals := (if signum \<in> set (xg_signals g) then xg_signals g else signum # xg_signals g)\<rparr>"

definition asio_signal_cancel :: "'h xsignals \<Rightarrow> 'h xsignals" where
  "asio_signal_cancel g = g\<lparr>xg_waits := [], xg_aborted := xg_aborted g @ xg_waits g\<rparr>"

section \<open>Reachable states\<close>

text \<open>
  What a program may do: everything, as long as it adopts, watches and closes only descriptors that are
  its own, and does not give the calls for a watcher to a socket.
\<close>

definition owner_kind :: "nat \<Rightarrow> net \<Rightarrow> bool" where
  "owner_kind i n \<longleftrightarrow> (\<exists>x. n_objs n i = Some x \<and> n_kind x \<noteq> N_watcher)"

inductive nstep :: "net \<Rightarrow> net \<Rightarrow> bool" where
  new_open: "k \<noteq> N_watcher \<Longrightarrow> nstep n (snd (open_object k err n))"
| new_unx: "nstep n (snd (unx_socket_new n))"
| adopt_tcp: "fd \<in> set (n_user n) \<Longrightarrow> nstep n (snd (tcp_socket_adopt fd n))"
| adopt_unx: "fd \<in> set (n_user n) \<Longrightarrow> nstep n (snd (unx_socket_adopt fd n))"
| watch: "fd \<in> set (n_user n) \<Longrightarrow> nstep n (snd (watcher_new fd n))"
| connect_unx: "owner_kind i n \<Longrightarrow> nstep n (snd (unx_socket_open i opens n))"
| close: "owner_kind i n \<Longrightarrow> nstep n (snd (object_close i n))"
| release: "owner_kind i n \<Longrightarrow> nstep n (snd (socket_release i n))"
| close_own: "fd \<in> set (n_user n) \<Longrightarrow> nstep n (snd (close_fd fd n))"
| accept: "nstep n (snd (accept_release ec n))"
| destroy: "nstep n (snd (net_destroy i n))"
| local: "nstep n (snd (local_endpoint i ep n))"

inductive nreachable :: "net \<Rightarrow> bool" where
  new: "nreachable net_new"
| step: "nreachable n \<Longrightarrow> nstep n n' \<Longrightarrow> nreachable n'"

text \<open>\<open>owns i fd n\<close>: the object \<open>i\<close> will close the descriptor \<open>fd\<close>.\<close>

definition owns :: "nat \<Rightarrow> nat \<Rightarrow> net \<Rightarrow> bool" where
  "owns i fd n \<longleftrightarrow> (\<exists>x. n_objs n i = Some x \<and> n_kind x \<noteq> N_watcher \<and> n_fd x = Some fd)"

definition net_inv :: "net \<Rightarrow> bool" where
  "net_inv n \<longleftrightarrow>
     (\<forall>fd. fd \<in> set (n_open n) \<longleftrightarrow> fd \<in> set (n_user n) \<or> (\<exists>i. owns i fd n))
   \<and> (\<forall>i j fd. owns i fd n \<longrightarrow> fd \<notin> set (n_user n) \<and> (owns j fd n \<longrightarrow> i = j))
   \<and> distinct (n_closed n) \<and> set (n_closed n) \<inter> set (n_open n) = {}
   \<and> (\<forall>fd \<in> set (n_open n) \<union> set (n_closed n). fd < n_next_fd n)
   \<and> (\<forall>i \<ge> n_next n. n_objs n i = None)"

section \<open>Ownership\<close>

lemma net_inv_new: "net_inv net_new"
  by (simp add: net_inv_def net_new_def owns_def)

lemma user_open: "net_inv n \<Longrightarrow> fd \<in> set (n_user n) \<Longrightarrow> fd \<in> set (n_open n)"
  by (simp add: net_inv_def)

lemma next_fd_fresh:
  assumes "net_inv n"
  shows "n_next_fd n \<notin> set (n_open n)" "n_next_fd n \<notin> set (n_user n)" "n_next_fd n \<notin> set (n_closed n)"
    "\<not> owns i (n_next_fd n) n"
  using assms unfolding net_inv_def by blast+

text \<open>The four movements of a descriptor: from the system to the program, to an object, back, and closed.\<close>

definition fd_arrives :: "net \<Rightarrow> net" where
  "fd_arrives n = n\<lparr>n_open := n_next_fd n # n_open n, n_next_fd := n_next_fd n + 1, n_user := n_next_fd n # n_user n\<rparr>"

lemma inv_arrives: assumes "net_inv n" shows "net_inv (fd_arrives n)"
proof -
  have "owns i fd (fd_arrives n) = owns i fd n" for i fd by (simp add: owns_def fd_arrives_def)
  then show ?thesis using assms next_fd_fresh [OF assms]
    by (auto simp: net_inv_def fd_arrives_def less_Suc_eq)
qed

lemma owns_new_object:
  assumes "net_inv n"
  shows "owns i fd (snd (new_object k f n)) \<longleftrightarrow> owns i fd n \<or> (i = n_next n \<and> k \<noteq> N_watcher \<and> f = Some fd)"
  using assms by (auto simp: owns_def new_object_def net_inv_def)

lemma inv_adopt:
  assumes "net_inv n" "fd \<in> set (n_user n)" "k \<noteq> N_watcher"
  shows "net_inv (snd (new_object k (Some fd) (n\<lparr>n_user := removeAll fd (n_user n)\<rparr>)))"
proof -
  let ?m = "n\<lparr>n_user := removeAll fd (n_user n)\<rparr>"
  have o: "owns i d (snd (new_object k (Some fd) ?m)) \<longleftrightarrow> owns i d n \<or> (i = n_next n \<and> d = fd)" for i d
    using assms(1,3) by (auto simp: owns_def new_object_def net_inv_def)
  have n: "\<not> owns i fd n" for i using assms(1,2) by (auto simp: net_inv_def)
  show ?thesis using assms(1,2) n unfolding net_inv_def o by (auto simp: new_object_def)
qed

lemma inv_new_object:
  assumes "net_inv n" "k = N_watcher \<or> f = None"
  shows "net_inv (snd (new_object k f n))"
proof -
  have "owns i d (snd (new_object k f n)) \<longleftrightarrow> owns i d n" for i d
    using owns_new_object [OF assms(1)] assms(2) by auto
  then show ?thesis using assms(1) unfolding net_inv_def by (simp add: new_object_def)
qed

lemma owns_set_fd:
  "owns i fd (snd (set_fd j f n)) \<longleftrightarrow> (if i = j then owner_kind j n \<and> f = Some fd else owns i fd n)"
  by (auto simp: owns_def set_fd_def owner_kind_def)

text \<open>An owner gives its descriptor to the program.\<close>

definition give_up :: "nat \<Rightarrow> nat \<Rightarrow> net \<Rightarrow> net" where
  "give_up i fd n = (snd (set_fd i None n))\<lparr>n_user := fd # n_user n\<rparr>"

lemma inv_give_up: assumes "net_inv n" "owns i fd n" shows "net_inv (give_up i fd n)"
proof -
  have o: "owns j d (give_up i fd n) \<longleftrightarrow> owns j d n \<and> j \<noteq> i" for j d
    using owns_set_fd [of j d i None n] by (auto simp: give_up_def owns_def)
  have f: "owns i d n \<longleftrightarrow> d = fd" for d using assms(2) by (auto simp: owns_def)
  have "fd \<notin> set (n_user n)" "\<And>j. owns j fd n \<Longrightarrow> j = i" using assms unfolding net_inv_def by blast+
  then show ?thesis using assms(1) f unfolding net_inv_def o by (auto simp: give_up_def set_fd_def)
qed

lemma inv_close_fd: assumes "net_inv n" "fd \<in> set (n_user n)" shows "net_inv (snd (close_fd fd n))"
proof -
  have o: "owns i d (snd (close_fd fd n)) \<longleftrightarrow> owns i d n" for i d
    by (simp add: owns_def close_fd_def take_user_fd_def sys_close_def bindS_def)
  show ?thesis using assms unfolding net_inv_def o by (auto simp: close_fd_def take_user_fd_def sys_close_def bindS_def)
qed

lemma fd_of_owner: "owner_kind i n \<Longrightarrow> fd_of i n = Some fd \<Longrightarrow> owns i fd n"
  by (auto simp: owner_kind_def fd_of_def owns_def)

lemma open_object_eq:
  assumes "net_inv n"
  shows "snd (open_object k err n) = (case err of Some _ \<Rightarrow> n
    | None \<Rightarrow> snd (new_object k (Some (n_next_fd n)) ((fd_arrives n)\<lparr>n_user := removeAll (n_next_fd n) (n_user (fd_arrives n))\<rparr>)))"
  using next_fd_fresh(2) [OF assms]
  by (simp add: open_object_def sys_open_def bindS_def fd_arrives_def new_object_def split: option.split)

lemma object_close_eq:
  assumes "net_inv n" "owner_kind i n"
  shows "snd (object_close i n) = (case fd_of i n of None \<Rightarrow> n | Some fd \<Rightarrow> snd (close_fd fd (give_up i fd n)))"
proof (cases "fd_of i n")
  case (Some fd)
  have "fd \<notin> set (n_user n)" using assms(1) fd_of_owner [OF assms(2) Some] unfolding net_inv_def by blast
  with Some show ?thesis
    by (simp add: object_close_def close_fd_def take_user_fd_def sys_close_def bindS_def give_up_def set_fd_def)
qed (simp add: object_close_def)

lemma inv_object_close: assumes "net_inv n" "owner_kind i n" shows "net_inv (snd (object_close i n))"
  using object_close_eq [OF assms] inv_close_fd [OF inv_give_up [OF assms(1) fd_of_owner [OF assms(2)]]] assms(1)
  by (auto simp: give_up_def split: option.split)

lemma unx_open_eq:
  assumes "net_inv n" "owner_kind i n" "fd_of i n = None" "opens"
  shows "snd (unx_socket_open i opens n) = snd (set_fd i (Some (n_next_fd n)) ((fd_arrives n)\<lparr>n_user := n_user n\<rparr>))"
  using assms by (simp add: unx_socket_open_def sys_open_def bindS_def set_fd_def fd_arrives_def)

lemma inv_unx_open: assumes "net_inv n" "owner_kind i n" shows "net_inv (snd (unx_socket_open i opens n))"
proof (cases "fd_of i n = None \<and> opens")
  case True
  let ?m = "(fd_arrives n)\<lparr>n_user := n_user n\<rparr>"
  have k: "owner_kind i ?m" using assms(2) by (simp add: owner_kind_def fd_arrives_def)
  have n: "\<not> owns i d n" for d using True by (auto simp: owns_def fd_of_def)
  have "owns j d ?m = owns j d n" for j d by (simp add: owns_def fd_arrives_def)
  then have o: "owns j d (snd (set_fd i (Some (n_next_fd n)) ?m)) \<longleftrightarrow> owns j d n \<or> (j = i \<and> d = n_next_fd n)" for j d
    using owns_set_fd [of j d i "Some (n_next_fd n)" ?m] k n by auto
  have "net_inv (snd (set_fd i (Some (n_next_fd n)) ?m))"
    using assms(1) next_fd_fresh [OF assms(1)] unfolding net_inv_def o
    by (auto simp: set_fd_def fd_arrives_def less_Suc_eq)
  with unx_open_eq [OF assms] True show ?thesis by simp
qed (use assms(1) in \<open>auto simp: unx_socket_open_def\<close>)

text \<open>An object that owns nothing can be removed; the fields of an object other than these do not matter.\<close>

lemma inv_same_owns:
  assumes "net_inv n" "\<And>i fd. owns i fd m \<longleftrightarrow> owns i fd n" "n_open m = n_open n" "n_user m = n_user n" "n_closed m = n_closed n"
    "n_next_fd m = n_next_fd n" "n_next m = n_next n" "\<And>i. n_objs n i = None \<Longrightarrow> n_objs m i = None"
  shows "net_inv m"
  using assms unfolding net_inv_def by simp

lemma inv_destroy: assumes "net_inv n" shows "net_inv (snd (net_destroy i n))"
proof (cases "n_objs n i")
  case (Some x)
  show ?thesis
  proof (cases "n_kind x = N_watcher")
    case True
    with Some show ?thesis
      by (intro inv_same_owns [OF assms])
        (auto simp: net_destroy_def watcher_destroy_def remove_object_def set_fd_def bindS_def owns_def)
  next
    case False
    then have k: "owner_kind i n" using Some by (simp add: owner_kind_def)
    let ?c = "snd (object_close i n)"
    have c: "net_inv ?c" by (rule inv_object_close [OF assms k])
    have "fst (object_close i n) = Inr ()"
      by (simp add: object_close_def sys_close_def set_fd_def bindS_def split: option.split)
    then have d: "snd (net_destroy i n) = snd (remove_object i ?c)"
      using Some False by (cases "object_close i n") (simp add: net_destroy_def bindS_def)
    have "\<not> owns i fd ?c" for fd
      using Some False by (auto simp: object_close_def owns_def fd_of_def sys_close_def set_fd_def bindS_def split: option.splits)
    then show ?thesis unfolding d
      by (intro inv_same_owns [OF c]) (auto simp: remove_object_def owns_def)
  qed
qed (simp add: net_destroy_def assms)

lemma net_inv_step: assumes "nstep n n'" "net_inv n" shows "net_inv n'"
  using assms(1)
proof (cases rule: nstep.cases)
  case (new_open k err)
  show ?thesis
  proof (cases err)
    case None
    have "net_inv (snd (open_object k err n))"
      unfolding open_object_eq [OF assms(2)] None option.case
      by (rule inv_adopt [OF inv_arrives [OF assms(2)] _ new_open(2)]) (simp add: fd_arrives_def)
    with new_open show ?thesis by simp
  qed (use new_open assms(2) open_object_eq [OF assms(2)] in simp)
next
  case (adopt_tcp fd) then show ?thesis using inv_adopt [OF assms(2), of fd N_tcp_socket]
    by (simp add: tcp_socket_adopt_def take_user_fd_def bindS_def)
next
  case (adopt_unx fd) then show ?thesis using inv_adopt [OF assms(2), of fd N_unx_socket]
    by (simp add: unx_socket_adopt_def take_user_fd_def bindS_def)
next
  case (release i)
  show ?thesis
  proof (cases "fd_of i n")
    case (Some fd)
    then show ?thesis using release inv_give_up [OF assms(2) fd_of_owner]
      by (simp add: socket_release_def bindS_def give_up_def set_fd_def)
  qed (use release assms(2) in \<open>simp add: socket_release_def\<close>)
next
  case (accept ec) then show ?thesis using assms(2) inv_arrives [OF assms(2)]
    by (simp add: accept_release_def sys_open_def bindS_def fd_arrives_def)
next
  case (local i ep) then show ?thesis
    by (simp, intro inv_same_owns [OF assms(2)]) (auto simp: local_endpoint_def Let_def owns_def)
qed (use assms(2) inv_new_object inv_unx_open inv_object_close inv_close_fd inv_destroy in
    \<open>simp_all add: unx_socket_new_def watcher_new_def\<close>)

lemma nreachable_inv: "nreachable n \<Longrightarrow> net_inv n"
  by (induction rule: nreachable.induct) (auto intro: net_inv_new net_inv_step)

section \<open>Properties\<close>

text \<open>
  C19. Descriptors are neither leaked nor closed twice. Whatever objects a program makes, closes, empties and
  destroys, and in whatever order, every descriptor is closed at most once and never used by an object
  afterwards; an open descriptor belongs to the program or to exactly one object; and when all objects are
  gone, the open descriptors are those the program has been given and has not closed.
\<close>

theorem descriptors_closed_once:
  assumes "nreachable n"
  shows "distinct (n_closed n) \<and> set (n_closed n) \<inter> set (n_open n) = {}
    \<and> (fd \<in> set (n_open n) \<longleftrightarrow> fd \<in> set (n_user n) \<or> (\<exists>i. owns i fd n))
    \<and> (owns i fd n \<longrightarrow> fd \<notin> set (n_user n) \<and> (owns j fd n \<longrightarrow> i = j))
    \<and> ((\<forall>i. n_objs n i = None) \<longrightarrow> set (n_open n) = set (n_user n))"
proof -
  have inv: "net_inv n" using nreachable_inv [OF assms] .
  moreover have "set (n_open n) = set (n_user n)" if "\<forall>i. n_objs n i = None"
    using inv that by (auto simp: net_inv_def owns_def)
  ultimately show ?thesis unfolding net_inv_def by blast
qed

text \<open>An acceptor accepts two connections; a socket takes the first, is closed and destroyed, as is the acceptor.\<close>

definition ndemo :: net where
  "ndemo = snd (net_destroy 0 (snd (net_destroy 1 (snd (object_close 1 (snd (tcp_socket_adopt 1
     (snd (accept_release ec_ok (snd (accept_release ec_ok (snd (open_object N_tcp_acceptor None net_new)))))))))))))"

lemma ndemo_reachable: "nreachable ndemo"
  unfolding ndemo_def
  by (intro nreachable.step [OF _ nstep.destroy] nreachable.step [OF _ nstep.close] nreachable.step [OF _ nstep.adopt_tcp]
      nreachable.step [OF _ nstep.accept] nreachable.step [OF _ nstep.new_open] nreachable.new)
    (simp_all add: owner_kind_def tcp_socket_adopt_def take_user_fd_def new_object_def accept_release_def sys_open_def
      open_object_def bindS_def net_new_def failed_def ec_ok_def)

theorem descriptors_closed_once_witness:
  "n_closed ndemo = [1, 0] \<and> set (n_open ndemo) = set (n_user ndemo) \<and> n_user ndemo = [2]"
proof -
  have v: "n_closed ndemo = [1, 0]" "n_user ndemo = [2]" "\<forall>i. n_objs ndemo i = None"
    by (simp_all add: ndemo_def net_destroy_def object_close_def fd_of_def sys_close_def set_fd_def remove_object_def
      tcp_socket_adopt_def take_user_fd_def new_object_def accept_release_def sys_open_def
      open_object_def bindS_def net_new_def failed_def ec_ok_def)
  then show ?thesis using descriptors_closed_once [OF ndemo_reachable] by blast
qed

text \<open>Closing a datagram socket does not close its descriptor; destroying it does.\<close>

lemma udp_close_keeps_open:
  assumes "n_objs n i = Some x" "n_kind x = N_udp_socket" "n_fd x = Some fd"
  shows "snd (udp_socket_close i n) = n" "fd \<in> set (n_closed (snd (net_destroy i n)))"
  using assms
  by (simp_all add: udp_socket_close_def net_destroy_def object_close_def fd_of_def sys_close_def set_fd_def
      remove_object_def bindS_def)

text \<open>
  A context is run by as many threads as it was made with, at least one: those it starts and the one
  that calls \<open>run\<close>; each that is started is waited for.
\<close>

lemma create_workers_all:
  "(\<forall>j \<in> {i..<i + k}. created j) \<Longrightarrow> create_workers created i k = Some (map Thread_create [i..<i + k])"
proof (induction k arbitrary: i)
  case (Suc k)
  have "[i..<i + Suc k] = i # [i + 1..<(i + 1) + k]" by (simp add: upt_conv_Cons)
  with Suc show ?case by simp
qed simp

lemma context_run_threads:
  assumes "\<forall>j. created j"
  shows "\<exists>acts. context_run created c = Some acts
    \<and> length (filter (\<lambda>a. a = Thread_run \<or> (\<exists>j. a = Thread_create j)) acts) = nat (max (xc_threads c) 1)
    \<and> (\<forall>j. Thread_create j \<in> set acts \<longleftrightarrow> Thread_join j \<in> set acts)"
proof -
  let ?n = "nat (spawn_threads (xc_threads c))"
  have "context_run created c = Some (map Thread_create [0..<?n] @ Thread_run # map Thread_join [0..<?n])"
    using create_workers_all [of 0 ?n created] assms by (simp add: context_run_def Let_def)
  moreover have "filter (\<lambda>a. a = Thread_run \<or> (\<exists>j. a = Thread_create j)) (map Thread_create xs) = map Thread_create xs"
    "filter (\<lambda>a. a = Thread_run \<or> (\<exists>j. a = Thread_create j)) (map Thread_join xs) = []" for xs
    by (simp_all add: filter_empty_conv)
  moreover have "Suc ?n = nat (max (xc_threads c) 1)" unfolding spawn_threads_def by linarith
  ultimately show ?thesis by auto
qed

text \<open>An address survives the conversions.\<close>

lemma address_roundtrip: "length ip = 16 \<Longrightarrow> to_in6_addr (to_address ip) = ip"
  by (simp add: to_in6_addr_def to_address_def)

end
