(* ===== verification/C_Actor.thy ===== *)
theory C_Actor
  imports C_Api Executor_Objects
begin

text \<open>
  The part of the C interface that an actor calls about itself, contexts, environments and traces
  (\<^verbatim>\<open>instance.cpp\<close>, \<^verbatim>\<open>context.cpp\<close>, \<^verbatim>\<open>env.cpp\<close> and \<^verbatim>\<open>trace.cpp\<close> in \<^verbatim>\<open>src/src/c\<close>). Unlike those on timers and
  sockets these functions have no guard: an exception of the C++ function leaves the C function.
\<close>

section \<open>Receiving\<close>

text \<open>
  \<open>thespian_receive\<close> wraps the C function \<open>r\<close>, its state \<open>st\<close> and the destructor of the state in an object that the
  copies of the receiver share. \<open>r\<close> runs as a program that ends with a pointer; the wrapper turns the pointer
  into a result by copying the bytes out of the buffer of the thread, here \<open>err\<close>.
\<close>

record ('s, 't, 'u) receiver_wrapper =
  rw_r :: "'s \<Rightarrow> handle \<Rightarrow> buffer \<Rightarrow> (buffer option \<Rightarrow> ('t, 'u) prog) \<Rightarrow> ('t, 'u) prog"
  rw_s :: 's

definition wrapped_result :: "buffer option \<Rightarrow> result" where
  "wrapped_result ret = (case ret of Some err \<Rightarrow> Inl err | None \<Rightarrow> ok)"

definition call_wrapper :: "('s, 't, 'u) receiver_wrapper \<Rightarrow> handle \<Rightarrow> buffer \<Rightarrow> ('t, 'u) prog" where
  "call_wrapper w from m = rw_r w (rw_s w) from m (\<lambda>ret. Ret (wrapped_result ret))"

definition thespian_receive ::
    "('s \<Rightarrow> handle \<Rightarrow> buffer \<Rightarrow> (buffer option \<Rightarrow> ('t, 'u) prog) \<Rightarrow> ('t, 'u) prog) \<Rightarrow> 's \<Rightarrow> (unit, ('t, 'u) sys) comp" where
  "thespian_receive r s = api_receive (Some (call_wrapper \<lparr>rw_r = r, rw_s = s\<rparr>))"

text \<open>
  The shared object: copies of the receiver are counted, and the destructor given by the caller runs when
  the last one goes.
\<close>

record shared_wrapper =
  sw_refs :: nat
  sw_dtor_calls :: nat

definition wrapper_make :: shared_wrapper where
  "wrapper_make = \<lparr>sw_refs = 1, sw_dtor_calls = 0\<rparr>"

definition wrapper_copy :: "shared_wrapper \<Rightarrow> shared_wrapper" where
  "wrapper_copy w = (if sw_refs w = 0 then w else w\<lparr>sw_refs := sw_refs w + 1\<rparr>)"

definition wrapper_drop :: "shared_wrapper \<Rightarrow> shared_wrapper" where
  "wrapper_drop w = (if sw_refs w = 0 then w
     else w\<lparr>sw_refs := sw_refs w - 1, sw_dtor_calls := sw_dtor_calls w + (if sw_refs w = 1 then 1 else 0)\<rparr>)"

section \<open>The actor itself\<close>

definition thespian_get_trap :: "(bool, ('t, 'u) sys) comp" where
  "thespian_get_trap = api_trap"

definition thespian_set_trap :: "bool \<Rightarrow> (bool, ('t, 'u) sys) comp" where
  "thespian_set_trap on = api_set_trap on"

definition thespian_get_observe_links :: "(bool, ('t, 'u) sys) comp" where
  "thespian_get_observe_links = api_observe_links"

definition thespian_set_observe_links :: "bool \<Rightarrow> (bool, ('t, 'u) sys) comp" where
  "thespian_set_observe_links on = api_set_observe_links on"

definition thespian_link :: "handle \<Rightarrow> (unit, ('t, 'u) sys) comp" where
  "thespian_link h = api_link h"

text \<open>The pointer that is returned is to the actor's own handle, which the caller must not destroy.\<close>

definition thespian_self :: "(thespian_handle, ('t, 'u) sys) comp" where
  "thespian_self = bindS api_self_ref (\<lambda>h. returnS (Some h))"

section \<open>Contexts\<close>

text \<open>The context and the executor's context; making one ends the program when \<open>SIGPIPE\<close> cannot be ignored.\<close>

definition thespian_context_create ::
    "bool \<Rightarrow> bool \<Rightarrow> int \<Rightarrow> int \<Rightarrow> int \<Rightarrow> 'u \<Rightarrow> (xcontext \<times> ('t, 'u) sys) option" where
  "thespian_context_create windows sigpipe_ok nproc max_thread min_thread u =
     map_option (\<lambda>x. (x, context_create u)) (context_create_default windows sigpipe_ok nproc max_thread min_thread)"

definition thespian_context_create_with_threads ::
    "bool \<Rightarrow> bool \<Rightarrow> int \<Rightarrow> 'u \<Rightarrow> (xcontext \<times> ('t, 'u) sys) option" where
  "thespian_context_create_with_threads windows sigpipe_ok thread_count u =
     map_option (\<lambda>x. (x, context_create u)) (context_create_threads windows sigpipe_ok thread_count)"

definition thespian_context_run :: "(nat \<Rightarrow> bool) \<Rightarrow> xcontext \<Rightarrow> thread_act list option" where
  "thespian_context_run created x = context_run created x"

definition thespian_context_on_last_exit :: "bool \<Rightarrow> ('t, 'u) sys \<Rightarrow> ('t, 'u) sys" where
  "thespian_context_on_last_exit h = on_last_exit h"

section \<open>Environments and traces\<close>

text \<open>A channel is any \<open>int\<close> here, cast to the enumeration: its bits are used as they are.\<close>

definition thespian_env_enable_all_channels :: "'c env_t \<Rightarrow> 'c env_t" where
  "thespian_env_enable_all_channels e = enable_all_channels e"

definition thespian_env_disable_all_channels :: "'c env_t \<Rightarrow> 'c env_t" where
  "thespian_env_disable_all_channels e = disable_all_channels e"

definition thespian_env_enable :: "channel_set \<Rightarrow> 'c env_t \<Rightarrow> 'c env_t" where
  "thespian_env_enable c e = e\<lparr>trace_channels := trace_channels e OR c\<rparr>"

definition thespian_env_disable :: "channel_set \<Rightarrow> 'c env_t \<Rightarrow> 'c env_t" where
  "thespian_env_disable c e = e\<lparr>trace_channels := trace_channels e XOR c\<rparr>"

definition thespian_env_enabled :: "channel_set \<Rightarrow> 'c env_t \<Rightarrow> bool" where
  "thespian_env_enabled c e \<longleftrightarrow> trace_channels e AND c \<noteq> 0"

text \<open>\<open>wrap\<close> makes the function object around the pointer \<open>h\<close>.\<close>

definition thespian_env_on_trace :: "('f \<Rightarrow> 'c) \<Rightarrow> 'f \<Rightarrow> 'c env_t \<Rightarrow> 'c env_t" where
  "thespian_env_on_trace wrap h e = snd (on_trace (Some (wrap h)) e)"

text \<open>The handler that is called and the bytes it gets, when there is a handler.\<close>

definition thespian_env_trace :: "buffer \<Rightarrow> 'c env_t \<Rightarrow> ('c \<times> buffer) option" where
  "thespian_env_trace m e = map_option (\<lambda>h. (h, m)) (trace_handler e)"

definition thespian_env_clone :: "'c env_t \<Rightarrow> 'c env_t" where
  "thespian_env_clone e = e"

definition thespian_env_get :: "('t env_t, ('t, 'u) sys) comp" where
  "thespian_env_get = api_env (\<lambda>e. e)"

definition thespian_env_new :: "'c env_t" where
  "thespian_env_new = env_init"

definition thespian_on_trace :: "('f \<Rightarrow> 't) \<Rightarrow> 'f \<Rightarrow> (unit, ('t, 'u) sys) comp" where
  "thespian_on_trace wrap h = bindS (api_env (\<lambda>e. snd (on_trace (Some (wrap h)) e))) (\<lambda>_. returnS ())"

text \<open>The handlers that write to a file: \<open>mk\<close> makes the one for a file of this name (\<open>Trace\<close> has the files).\<close>

definition thespian_trace_to_json_file :: "(string \<Rightarrow> 't) \<Rightarrow> string \<Rightarrow> (unit, ('t, 'u) sys) comp" where
  "thespian_trace_to_json_file mk file_name = thespian_on_trace mk file_name"

definition thespian_trace_to_cbor_file :: "(string \<Rightarrow> 't) \<Rightarrow> string \<Rightarrow> (unit, ('t, 'u) sys) comp" where
  "thespian_trace_to_cbor_file mk file_name = thespian_on_trace mk file_name"

definition thespian_trace_to_mermaid_file :: "(string \<Rightarrow> 't) \<Rightarrow> string \<Rightarrow> (unit, ('t, 'u) sys) comp" where
  "thespian_trace_to_mermaid_file mk file_name = thespian_on_trace mk file_name"

section \<open>What holds\<close>

text \<open>Outside an actor these functions let an exception of C++ escape into their C caller, and change nothing.\<close>

lemma unguarded_out_of_context:
  assumes "current_instance s = None"
  shows "thespian_get_trap s = (Inl (Std_exn context_error), s)"
    "thespian_set_trap b s = (Inl (Std_exn context_error), s)"
    "thespian_get_observe_links s = (Inl (Std_exn context_error), s)"
    "thespian_set_observe_links b s = (Inl (Std_exn context_error), s)"
    "thespian_link h s = (Inl (Std_exn context_error), s)" "thespian_self s = (Inl (Std_exn context_error), s)"
    "thespian_env_get s = (Inl (Std_exn context_error), s)" "thespian_receive r st s = (Inl (Std_exn context_error), s)"
    "thespian_on_trace w f s = (Inl (Std_exn context_error), s)"
  using assms
  by (simp_all add: thespian_get_trap_def thespian_set_trap_def thespian_get_observe_links_def
      thespian_set_observe_links_def thespian_link_def thespian_self_def thespian_env_get_def thespian_receive_def
      thespian_on_trace_def api_trap_def api_set_trap_def api_observe_links_def api_set_observe_links_def api_link_def
      api_self_ref_def api_env_def api_receive_def private_call_def bindS_def)

text \<open>Setting returns the previous value, and reading gives what was set.\<close>

lemma trap_get_set:
  assumes "current_instance s = Some p" "procs s p = Some a"
  shows "\<exists>s'. thespian_set_trap b s = (Inr (a_trap_exit a), s') \<and> thespian_get_trap s' = (Inr b, s')"
    "\<exists>s'. thespian_set_observe_links b s = (Inr (a_observe_links a), s') \<and> thespian_get_observe_links s' = (Inr b, s')"
  using assms
  by (simp_all add: thespian_get_trap_def thespian_set_trap_def thespian_get_observe_links_def
      thespian_set_observe_links_def api_trap_def api_set_trap_def api_observe_links_def api_set_observe_links_def
      private_call_def bindS_def actor_of_def upd_def)

text \<open>On the channels of the enumeration the C functions are those of the environment.\<close>

lemma env_channels:
  "thespian_env_enable (channel_bits c) e = enable c e" "thespian_env_disable (channel_bits c) e = disable c e"
  "thespian_env_enabled (channel_bits c) e = enabled c e"
  by (simp_all add: thespian_env_enable_def enable_def thespian_env_disable_def disable_def thespian_env_enabled_def
      enabled_def)

text \<open>
  Whatever copies of a receiver are made and dropped, the destructor of its state runs when no copy is left,
  once, and not before.
\<close>

lemma receiver_dtor_once:
  assumes "w = fold (\<lambda>c w. if c then wrapper_copy w else wrapper_drop w) cs wrapper_make"
  shows "sw_dtor_calls w = (if sw_refs w = 0 then 1 else 0)"
proof -
  have "sw_dtor_calls w = (if sw_refs w = 0 then 1 else 0)"
    if "sw_dtor_calls v = (if sw_refs v = 0 then 1 else 0)"
      "w = fold (\<lambda>c w. if c then wrapper_copy w else wrapper_drop w) cs v" for v
    using that by (induction cs arbitrary: v) (auto simp: wrapper_copy_def wrapper_drop_def)
  then show ?thesis using assms by (simp add: wrapper_make_def)
qed

end
