(* ===== verification/Unx_Files.thy ===== *)
theory Unx_Files
  imports Net
begin

text \<open>
  Unix acceptors on a file system: the functions of \<^verbatim>\<open>instance.cpp\<close> around the file of a Unix socket
  (\<open>is_socket_file\<close>, \<open>connect_refused\<close>, \<open>remove_file\<close>, \<open>restrict_to_owner\<close>) and any number of acceptors, of one or several
  processes, that listen on paths of the same file system. \<open>Net\<close> has the acceptor with the answers of the
  system as inputs; here the answers come from the state, the operations it starts change the state, and
  a step is one system call of one acceptor.
\<close>

section \<open>The file system\<close>

text \<open>
  A path has no file, some other file, or the file of the socket bound by an acceptor. A connection to a
  socket file is accepted when its acceptor listens and refused otherwise; the file outlives the socket.
\<close>

datatype fnode = F_other | F_sock nat

text \<open>What an acceptor does next, while it is in \<open>listen\<close>, \<open>close\<close> or the destructor.\<close>

datatype ucall = L_stat string | L_connect string | L_remove string | L_bind string | L_chmod string
  | L_listen string | C_release | D_release

record unix =
  u_fs :: "string \<Rightarrow> fnode option"
  u_private :: "string \<Rightarrow> bool"
  u_listening :: "nat \<Rightarrow> bool"
  u_acc :: "nat \<Rightarrow> acceptor_impl option"
  u_call :: "nat \<Rightarrow> ucall option"

definition unix_new :: unix where
  "unix_new = \<lparr>u_fs = \<lambda>_. None, u_private = \<lambda>_. False, u_listening = \<lambda>_. False, u_acc = \<lambda>_. None,
     u_call = \<lambda>_. None\<rparr>"

text \<open>The errors of \<open>connect\<close> and \<open>bind\<close> that matter: \<open>ENOENT\<close>, \<open>ECONNREFUSED\<close>, \<open>EADDRINUSE\<close>.\<close>

definition sys_connect :: "unix \<Rightarrow> string \<Rightarrow> error_code" where
  "sys_connect u path = (case u_fs u path of
     None \<Rightarrow> \<lparr>ec_value = 2, ec_message = ''No such file or directory''\<rparr>
   | Some F_other \<Rightarrow> \<lparr>ec_value = 111, ec_message = ''Connection refused''\<rparr>
   | Some (F_sock i) \<Rightarrow> if u_listening u i then ec_ok else \<lparr>ec_value = 111, ec_message = ''Connection refused''\<rparr>)"

definition sys_bind :: "unix \<Rightarrow> string \<Rightarrow> error_code" where
  "sys_bind u path = (case u_fs u path of
     None \<Rightarrow> ec_ok | Some _ \<Rightarrow> \<lparr>ec_value = 98, ec_message = ''Address already in use''\<rparr>)"

section \<open>The functions of the acceptor\<close>

definition is_socket_file :: "unix \<Rightarrow> string \<Rightarrow> bool" where
  "is_socket_file u path = (case u_fs u path of Some (F_sock _) \<Rightarrow> True | _ \<Rightarrow> False)"

text \<open>\<open>sock_ok\<close>: a socket for the attempt could be made.\<close>

definition connect_refused :: "unix \<Rightarrow> bool \<Rightarrow> string \<Rightarrow> bool" where
  "connect_refused u sock_ok path =
     (if \<not> sock_ok then False
      else failed (sys_connect u path) \<and> ec_value (sys_connect u path) = 111)"

definition remove_file :: "string \<Rightarrow> unix \<Rightarrow> unix" where
  "remove_file path u = u\<lparr>u_fs := (u_fs u)(path := None)\<rparr>"

definition restrict_to_owner :: "string \<Rightarrow> unix \<Rightarrow> unix" where
  "restrict_to_owner path u = u\<lparr>u_private := (u_private u)(path := True)\<rparr>"

definition path_state_of :: "unix \<Rightarrow> bool \<Rightarrow> string \<Rightarrow> path_state" where
  "path_state_of u sock_ok path = \<lparr>ps_socket_file = is_socket_file u path, ps_refused = connect_refused u sock_ok path\<rparr>"

text \<open>What an operation that acceptor \<open>i\<close> starts does to the state; \<open>lec\<close> is the outcome of \<open>listen\<close>.\<close>

fun sys_op :: "nat \<Rightarrow> error_code \<Rightarrow> acc_op \<Rightarrow> unix \<Rightarrow> unix" where
  "sys_op i lec (Unlink p) u = remove_file p u"
| "sys_op i lec (Acc_bind_unx p) u =
     (if failed (sys_bind u p) then u
      else u\<lparr>u_fs := (u_fs u)(p \<mapsto> F_sock i), u_private := (u_private u)(p := False)\<rparr>)"
| "sys_op i lec (Chmod_owner p) u = restrict_to_owner p u"
| "sys_op i lec Acc_listen u = (if failed lec then u else u\<lparr>u_listening := (u_listening u)(i := True)\<rparr>)"
| "sys_op i lec Acc_close u = u\<lparr>u_listening := (u_listening u)(i := False)\<rparr>"
| "sys_op i lec _ u = u"

definition new_ops :: "acceptor_impl \<Rightarrow> acceptor_impl \<Rightarrow> acc_op list" where
  "new_ops a a' = drop (length (started (io_log a))) (started (io_log a'))"

definition acc_step :: "nat \<Rightarrow> error_code \<Rightarrow> acceptor_impl \<Rightarrow> acceptor_impl \<Rightarrow> unix \<Rightarrow> unix" where
  "acc_step i lec a a' u = (fold (sys_op i lec) (new_ops a a') u)\<lparr>u_acc := (u_acc u)(i \<mapsto> a')\<rparr>"

text \<open>
  The calls of one acceptor that nobody interrupts: \<open>listen\<close> in file mode, where binding is tried after a
  stale file was removed, and the destructor.
\<close>

definition listen_file :: "nat \<Rightarrow> bool \<Rightarrow> error_code \<Rightarrow> string \<Rightarrow> acceptor_impl \<Rightarrow> unix \<Rightarrow> unix" where
  "listen_file i sock_ok lec p a u =
     (let ps = path_state_of u sock_ok p;
          bec = sys_bind (if is_stale_socket ps p then remove_file p u else u) p
      in acc_step i lec a (snd (unx_listen True ps p Mode_file bec lec a)) u)"

definition destroy_file :: "nat \<Rightarrow> acceptor_impl \<Rightarrow> unix \<Rightarrow> unix" where
  "destroy_file i a u =
     (let u' = acc_step i ec_ok a (snd (unx_acceptor_destroy a)) u in u'\<lparr>u_acc := (u_acc u')(i := None)\<rparr>)"

section \<open>Steps\<close>

text \<open>
  Acceptors are made, listen, are closed and destroyed, one system call at a time and each call with
  success or failure; a process may end at any point without cleaning up, which leaves the file; and
  other files appear. An acceptor is in one call at a time.
\<close>

definition put :: "nat \<Rightarrow> (unit, acceptor_impl) comp \<Rightarrow> ucall option \<Rightarrow> unix \<Rightarrow> unix" where
  "put i f c u = u\<lparr>u_acc := (u_acc u)(i := map_option (\<lambda>a. snd (f a)) (u_acc u i)), u_call := (u_call u)(i := c)\<rparr>"

abbreviation goes :: "nat \<Rightarrow> ucall option \<Rightarrow> unix \<Rightarrow> unix" where
  "goes i c u \<equiv> u\<lparr>u_call := (u_call u)(i := c)\<rparr>"

inductive ustep :: "unix \<Rightarrow> unix \<Rightarrow> bool" where
  create: "u_acc u i = None \<Longrightarrow> ustep u (u\<lparr>u_acc := (u_acc u)(i \<mapsto> acceptor_create tag), u_call := (u_call u)(i := None)\<rparr>)"
| listen: "u_acc u i \<noteq> None \<Longrightarrow> u_call u i = None \<Longrightarrow> p \<noteq> [] \<Longrightarrow> ustep u (goes i (Some (L_stat p)) u)"
| stat: "u_call u i = Some (L_stat p) \<Longrightarrow>
    ustep u (goes i (Some (if length p \<ge> sun_path_size \<or> \<not> is_socket_file u p then L_bind p else L_connect p)) u)"
| connect: "u_call u i = Some (L_connect p) \<Longrightarrow>
    ustep u (goes i (Some (if connect_refused u sock_ok p then L_remove p else L_bind p)) u)"
| remove: "u_call u i = Some (L_remove p) \<Longrightarrow>
    ustep u (put i (start_op (Unlink p)) (Some (L_bind p)) (remove_file p u))"
| bind_fails: "u_call u i = Some (L_bind p) \<Longrightarrow> failed bec \<Longrightarrow>
    ustep u (put i (bindS (start_op (Acc_bind_unx p)) (\<lambda>_. acceptor_send (P_str ''error'' # ec_parms bec))) None u)"
| bind: "u_call u i = Some (L_bind p) \<Longrightarrow> \<not> failed (sys_bind u p) \<Longrightarrow>
    ustep u (put i (bindS (start_op (Acc_bind_unx p)) (\<lambda>_. modifyS (\<lambda>a. a\<lparr>ac_path := p\<rparr>))) (Some (L_chmod p))
      (u\<lparr>u_fs := (u_fs u)(p \<mapsto> F_sock i), u_private := (u_private u)(p := False)\<rparr>))"
| chmod: "u_call u i = Some (L_chmod p) \<Longrightarrow>
    ustep u (put i (start_op (Chmod_owner p)) (Some (L_listen p)) (restrict_to_owner p u))"
| listen_fails: "u_call u i = Some (L_listen p) \<Longrightarrow> failed lec \<Longrightarrow>
    ustep u (put i (bindS (start_op Acc_listen) (\<lambda>_. acceptor_send (P_str ''error'' # ec_parms lec))) None u)"
| listens: "u_call u i = Some (L_listen p) \<Longrightarrow>
    ustep u (put i (bindS (start_op Acc_listen) (\<lambda>_. bindS start_accept (\<lambda>_. modifyS (\<lambda>a. a\<lparr>ac_open := True\<rparr>)))) None
      (u\<lparr>u_listening := (u_listening u)(i := True)\<rparr>))"
| close: "u_acc u i \<noteq> None \<Longrightarrow> u_call u i = None \<Longrightarrow> c \<in> {C_release, D_release} \<Longrightarrow>
    ustep u (put i (start_op Acc_close) (Some c) (u\<lparr>u_listening := (u_listening u)(i := False)\<rparr>))"
| closed: "u_call u i = Some C_release \<Longrightarrow> u_acc u i = Some a \<Longrightarrow>
    ustep u (put i (bindS release_path (\<lambda>_. bindS (acceptor_send [P_str ''closed'']) (\<lambda>_. modifyS (\<lambda>a. a\<lparr>ac_open := False\<rparr>)))) None
      (if ac_path a = [] then u else remove_file (ac_path a) u))"
| destroyed: "u_call u i = Some D_release \<Longrightarrow> u_acc u i = Some a \<Longrightarrow>
    ustep u ((if ac_path a = [] then u else remove_file (ac_path a) u)\<lparr>u_acc := (u_acc u)(i := None), u_call := (u_call u)(i := None)\<rparr>)"
| crash: "ustep u (u\<lparr>u_acc := (u_acc u)(i := None), u_call := (u_call u)(i := None), u_listening := (u_listening u)(i := False)\<rparr>)"
| other_file: "u_fs u p = None \<Longrightarrow> ustep u (u\<lparr>u_fs := (u_fs u)(p \<mapsto> F_other)\<rparr>)"

text \<open>
  Who may still remove the file at a path: an acceptor that has bound the path and not released it, and
  one that has found the file to be stale and not removed it yet.
\<close>

definition may_remove :: "unix \<Rightarrow> nat \<Rightarrow> string \<Rightarrow> bool" where
  "may_remove u j p \<longleftrightarrow> (\<exists>a. u_acc u j = Some a \<and> ac_path a = p) \<or> u_call u j = Some (L_remove p)"

text \<open>Acceptor \<open>i\<close> listens on its own file at the path, for its owner only, and nobody else may remove it.\<close>

definition guarded :: "unix \<Rightarrow> nat \<Rightarrow> string \<Rightarrow> bool" where
  "guarded u i p \<longleftrightarrow> u_fs u p = Some (F_sock i) \<and> u_private u p \<and> u_listening u i
     \<and> (\<forall>j. j \<noteq> i \<longrightarrow> \<not> may_remove u j p)"

text \<open>The file at the path is not a socket, and nobody may remove it or is about to test it.\<close>

definition untouched :: "unix \<Rightarrow> string \<Rightarrow> bool" where
  "untouched u p \<longleftrightarrow> u_fs u p = Some F_other \<and> (\<forall>j. \<not> may_remove u j p \<and> u_call u j \<noteq> Some (L_connect p))"

section \<open>Lemmas\<close>

lemma listen_ops:
  assumes "a' = snd (unx_listen True ps p Mode_file bec lec a)"
  shows "new_ops a a' = (if is_stale_socket ps p then [Unlink p] else []) @ [Acc_bind_unx p]
      @ (if failed bec then [] else [Chmod_owner p, Acc_listen] @ (if failed lec then [] else [Acc_accept]))"
    "ac_path a' = (if failed bec then ac_path a else p)" "ac_open a' \<longleftrightarrow> ac_open a \<or> \<not> failed bec \<and> \<not> failed lec"
  using assms
  by (auto simp: new_ops_def unx_listen_def Let_def bindS_def acceptor_send_def start_accept_def unx_mode_path_def)

lemma destroy_ops:
  "new_ops a (snd (unx_acceptor_destroy a)) = Acc_close # (if ac_path a = [] then [] else [Unlink (ac_path a)])"
  by (auto simp: new_ops_def unx_acceptor_destroy_def release_path_def bindS_def)

lemma ec_facts [simp]:
  "\<not> failed ec_ok" "failed (sys_bind u p) \<longleftrightarrow> u_fs u p \<noteq> None" "failed \<lparr>ec_value = 111, ec_message = m\<rparr>"
  by (auto simp: failed_def ec_ok_def sys_bind_def split: option.splits)

text \<open>A file that is taken for stale is a socket file, of an acceptor that does not listen.\<close>

lemma stale_not_listening:
  assumes "is_stale_socket (path_state_of u sock_ok p) p"
  shows "\<exists>i. u_fs u p = Some (F_sock i) \<and> \<not> u_listening u i"
  using assms
  by (auto simp: is_stale_socket_def path_state_of_def is_socket_file_def connect_refused_def sys_connect_def failed_def
      ec_ok_def split: option.splits fnode.splits if_splits)

text \<open>The whole effect of listening: nothing, when the path is in use; otherwise the file is the acceptor's.\<close>

definition path_free :: "unix \<Rightarrow> bool \<Rightarrow> string \<Rightarrow> bool" where
  "path_free u sock_ok p \<longleftrightarrow> u_fs u p = None \<or> is_stale_socket (path_state_of u sock_ok p) p"

lemma path_free_not_listening: "path_free u sock_ok p \<Longrightarrow> u_fs u p = Some (F_sock i) \<Longrightarrow> \<not> u_listening u i"
  using stale_not_listening [of u sock_ok p] by (auto simp: path_free_def)

lemma listen_file_eq:
  assumes "\<not> failed lec"
  shows "\<exists>a'. listen_file i sock_ok lec p a u =
      (if path_free u sock_ok p
       then u\<lparr>u_fs := (u_fs u)(p \<mapsto> F_sock i), u_private := (u_private u)(p := True),
              u_listening := (u_listening u)(i := True), u_acc := (u_acc u)(i \<mapsto> a')\<rparr>
       else u\<lparr>u_acc := (u_acc u)(i \<mapsto> a')\<rparr>)
    \<and> ac_path a' = (if path_free u sock_ok p then p else ac_path a)
    \<and> (ac_open a' \<longleftrightarrow> ac_open a \<or> path_free u sock_ok p)"
proof -
  let ?ps = "path_state_of u sock_ok p"
  let ?bec = "sys_bind (if is_stale_socket ?ps p then remove_file p u else u) p"
  let ?a = "snd (unx_listen True ?ps p Mode_file ?bec lec a)"
  have b: "failed ?bec \<longleftrightarrow> \<not> path_free u sock_ok p"
    by (auto simp: path_free_def remove_file_def)
  note l = listen_ops [where a = a and ps = ?ps and p = p and bec = ?bec and lec = lec, OF refl]
  show ?thesis
  proof (cases "path_free u sock_ok p")
    case True
    with b l assms show ?thesis
      by (intro exI [of _ ?a]) (auto simp: listen_file_def Let_def acc_step_def path_free_def remove_file_def restrict_to_owner_def)
  next
    case False
    then have "\<not> is_stale_socket ?ps p" "u_fs u p \<noteq> None" by (auto simp: path_free_def)
    with False b l assms show ?thesis
      by (intro exI [of _ ?a]) (auto simp: listen_file_def Let_def acc_step_def)
  qed
qed

text \<open>An acceptor that nobody interrupts makes the calls of \<open>listen\<close> one after the other.\<close>

definition at_bind :: "nat \<Rightarrow> bool \<Rightarrow> string \<Rightarrow> unix \<Rightarrow> unix" where
  "at_bind i sock_ok p u = (if is_stale_socket (path_state_of u sock_ok p) p
     then put i (start_op (Unlink p)) (Some (L_bind p)) (remove_file p u) else goes i (Some (L_bind p)) u)"

lemma reach_bind:
  assumes "u_acc u i \<noteq> None" "u_call u i = None" "p \<noteq> []"
  shows "ustep\<^sup>*\<^sup>* u (at_bind i sock_ok p u)"
proof -
  let ?u1 = "goes i (Some (L_stat p)) u" and ?u2 = "goes i (Some (L_connect p)) u"
    and ?u3 = "goes i (Some (L_remove p)) u" and ?b = "goes i (Some (L_bind p)) u"
  let ?early = "length p \<ge> sun_path_size \<or> \<not> is_socket_file u p"
  have 1: "ustep u ?u1" by (rule ustep.listen [OF assms])
  have "sys_connect (goes i c u) = sys_connect u" for c
    by (auto simp: sys_connect_def fun_eq_iff split: option.splits fnode.splits)
  then have s: "is_socket_file (goes i c u) = is_socket_file u" "connect_refused (goes i c u) = connect_refused u" for c
    by (simp_all add: is_socket_file_def connect_refused_def fun_eq_iff)
  have 2: "ustep ?u1 (if ?early then ?b else ?u2)"
    using ustep.stat [of ?u1 i p] by (cases ?early) (simp_all add: s)
  have 3: "ustep ?u2 (if connect_refused u sock_ok p then ?u3 else ?b)"
    using ustep.connect [of ?u2 i p sock_ok] by (cases "connect_refused u sock_ok p") (simp_all add: s)
  have 4: "ustep ?u3 (put i (start_op (Unlink p)) (Some (L_bind p)) (remove_file p u))"
    using ustep.remove [of ?u3 i p] by (simp add: put_def remove_file_def)
  have e: "is_stale_socket (path_state_of u sock_ok p) p \<longleftrightarrow> \<not> ?early \<and> connect_refused u sock_ok p"
    by (auto simp: is_stale_socket_def path_state_of_def)
  show ?thesis
  proof (cases ?early)
    case True
    with 1 2 e show ?thesis by (auto simp: at_bind_def intro: rtranclp_trans)
  next
    case False
    with 1 2 have u2: "ustep\<^sup>*\<^sup>* u ?u2" by (simp add: converse_rtranclp_into_rtranclp)
    show ?thesis
    proof (cases "connect_refused u sock_ok p")
      case True
      with 3 have "ustep ?u2 ?u3" by simp
      with u2 4 have "ustep\<^sup>*\<^sup>* u (put i (start_op (Unlink p)) (Some (L_bind p)) (remove_file p u))"
        by (meson rtranclp.rtrancl_into_rtrancl)
      with False True e show ?thesis by (simp add: at_bind_def)
    next
      case False
      with 3 have "ustep ?u2 ?b" by simp
      with u2 False e show ?thesis by (simp add: at_bind_def rtranclp.rtrancl_into_rtrancl)
    qed
  qed
qed

lemma bind_alone:
  assumes "u_call v i = Some (L_bind p)" "u_acc v i = Some b" "\<not> failed lec"
  shows "ustep\<^sup>*\<^sup>* v (if failed (sys_bind v p)
    then put i (bindS (start_op (Acc_bind_unx p)) (\<lambda>_. acceptor_send (P_str ''error'' # ec_parms (sys_bind v p)))) None v
    else put i (bindS (start_op (Acc_bind_unx p)) (\<lambda>_. bindS (modifyS (\<lambda>a. a\<lparr>ac_path := p\<rparr>)) (\<lambda>_. bindS (start_op (Chmod_owner p)) (\<lambda>_.
      bindS (start_op Acc_listen) (\<lambda>_. bindS start_accept (\<lambda>_. modifyS (\<lambda>a. a\<lparr>ac_open := True\<rparr>))))))) None
      (v\<lparr>u_fs := (u_fs v)(p \<mapsto> F_sock i), u_private := (u_private v)(p := True), u_listening := (u_listening v)(i := True)\<rparr>))"
proof (cases "failed (sys_bind v p)")
  case True
  then show ?thesis using ustep.bind_fails [OF assms(1) True] by auto
next
  case False
  note b = ustep.bind [OF assms(1) False]
  let ?v1 = "put i (bindS (start_op (Acc_bind_unx p)) (\<lambda>_. modifyS (\<lambda>a. a\<lparr>ac_path := p\<rparr>))) (Some (L_chmod p))
      (v\<lparr>u_fs := (u_fs v)(p \<mapsto> F_sock i), u_private := (u_private v)(p := False)\<rparr>)"
  have c: "u_call ?v1 i = Some (L_chmod p)" by (simp add: put_def)
  let ?v2 = "put i (start_op (Chmod_owner p)) (Some (L_listen p)) (restrict_to_owner p ?v1)"
  have "u_call ?v2 i = Some (L_listen p)" by (simp add: put_def)
  from ustep.listens [OF this] ustep.chmod [OF c] b have "ustep\<^sup>*\<^sup>* v (put i (bindS (start_op Acc_listen) (\<lambda>_. bindS start_accept
      (\<lambda>_. modifyS (\<lambda>a. a\<lparr>ac_open := True\<rparr>)))) None (?v2\<lparr>u_listening := (u_listening ?v2)(i := True)\<rparr>))"
    by (meson converse_rtranclp_into_rtranclp r_into_rtranclp)
  with False assms(2) show ?thesis
    by (simp add: put_def restrict_to_owner_def bindS_def start_accept_def)
qed

text \<open>The end of the calls, as the operations of the acceptor in \<open>Net\<close> have it.\<close>

definition after_bind :: "nat \<Rightarrow> string \<Rightarrow> unix \<Rightarrow> unix" where
  "after_bind i p v = (if failed (sys_bind v p)
    then put i (bindS (start_op (Acc_bind_unx p)) (\<lambda>_. acceptor_send (P_str ''error'' # ec_parms (sys_bind v p)))) None v
    else put i (bindS (start_op (Acc_bind_unx p)) (\<lambda>_. bindS (modifyS (\<lambda>a. a\<lparr>ac_path := p\<rparr>)) (\<lambda>_. bindS (start_op (Chmod_owner p)) (\<lambda>_.
      bindS (start_op Acc_listen) (\<lambda>_. bindS start_accept (\<lambda>_. modifyS (\<lambda>a. a\<lparr>ac_open := True\<rparr>))))))) None
      (v\<lparr>u_fs := (u_fs v)(p \<mapsto> F_sock i), u_private := (u_private v)(p := True), u_listening := (u_listening v)(i := True)\<rparr>))"

lemma after_bind_eq:
  assumes "u_acc u i = Some a" "u_call u i = None" "\<not> failed lec"
  shows "after_bind i p (at_bind i sock_ok p u) = listen_file i sock_ok lec p a u"
proof (cases "is_stale_socket (path_state_of u sock_ok p) p")
  case True
  have b: "sys_bind (at_bind i sock_ok p u) p = ec_ok" using True by (simp add: at_bind_def put_def remove_file_def sys_bind_def)
  show ?thesis
    unfolding after_bind_def b using True assms
    by (simp add: listen_file_def Let_def acc_step_def new_ops_def at_bind_def put_def remove_file_def sys_bind_def
        restrict_to_owner_def unx_listen_def bindS_def acceptor_send_def start_accept_def unx_mode_path_def fun_upd_idem)
next
  case False
  have b: "sys_bind (at_bind i sock_ok p u) p = sys_bind u p" using False by (simp add: at_bind_def sys_bind_def)
  show ?thesis
  proof (cases "u_fs u p = None")
    case True
    show ?thesis
      unfolding after_bind_def b using True False assms
      by (simp add: listen_file_def Let_def acc_step_def new_ops_def at_bind_def put_def
          restrict_to_owner_def unx_listen_def bindS_def acceptor_send_def start_accept_def unx_mode_path_def fun_upd_idem)
  next
    case used: False
    show ?thesis
      unfolding after_bind_def b using used False assms
      by (simp add: listen_file_def Let_def acc_step_def new_ops_def at_bind_def put_def unx_listen_def bindS_def
          acceptor_send_def unx_mode_path_def fun_upd_idem)
  qed
qed

lemma listen_alone:
  assumes "u_acc u i = Some a" "u_call u i = None" "p \<noteq> []" "\<not> failed lec"
  shows "ustep\<^sup>*\<^sup>* u (listen_file i sock_ok lec p a u)"
proof -
  let ?v = "at_bind i sock_ok p u"
  have u: "ustep\<^sup>*\<^sup>* u ?v" using reach_bind [OF _ assms(2,3)] assms(1) by simp
  obtain b where b: "u_call ?v i = Some (L_bind p)" "u_acc ?v i = Some b" using assms(1)
    by (cases "is_stale_socket (path_state_of u sock_ok p) p") (auto simp: at_bind_def put_def remove_file_def)
  have "ustep\<^sup>*\<^sup>* ?v (after_bind i p ?v)" unfolding after_bind_def by (rule bind_alone [OF b assms(4)])
  with u show ?thesis using after_bind_eq [OF assms(1,2,4)] by (metis rtranclp_trans)
qed

section \<open>What a step keeps\<close>

text \<open>An operation of an acceptor shows in its log.\<close>

lemma acc_changes:
  fixes a :: acceptor_impl
  shows "a\<lparr>io_log := l\<rparr> = a \<Longrightarrow> l = io_log a" "a\<lparr>io_log := l, ac_open := b\<rparr> = a \<Longrightarrow> l = io_log a"
    "a\<lparr>ac_path := q, io_log := l, ac_open := b\<rparr> = a \<Longrightarrow> l = io_log a"
  by (auto dest: arg_cong [where f = io_log])

lemma guarded_step:
  assumes "ustep u u'" "u_acc u i = Some a" "u_acc u' i = Some a" "p \<noteq> []" "guarded u i p"
  shows "guarded u' i p"
proof -
  note defs = guarded_def may_remove_def put_def remove_file_def restrict_to_owner_def acceptor_send_def release_path_def
    bindS_def acceptor_create_def start_accept_def
  from assms(1) show ?thesis
  proof (cases rule: ustep.cases)
    case (connect j q sock_ok)
    have "\<not> connect_refused u sock_ok p"
      using assms(5) by (simp add: guarded_def connect_refused_def sys_connect_def)
    then show ?thesis using assms(2-5) connect by (auto simp: defs split: if_splits)
  qed (use assms(2-5) in \<open>auto simp: defs split: if_splits dest!: acc_changes\<close>)
qed

lemma untouched_step:
  assumes "ustep u u'" "p \<noteq> []" "untouched u p"
  shows "untouched u' p"
proof -
  note defs = untouched_def may_remove_def put_def remove_file_def restrict_to_owner_def acceptor_send_def release_path_def
    bindS_def acceptor_create_def is_socket_file_def start_accept_def
  from assms(1) show ?thesis
    by (cases rule: ustep.cases) (use assms(2,3) in \<open>fastforce simp: defs split: if_splits\<close>)+
qed

lemma guarded_listen:
  assumes "u_acc u i = Some a" "\<not> failed lec" "path_free u sock_ok p" "\<forall>j. j \<noteq> i \<longrightarrow> \<not> may_remove u j p"
  shows "guarded (listen_file i sock_ok lec p a u) i p
    \<and> (\<exists>a'. u_acc (listen_file i sock_ok lec p a u) i = Some a' \<and> ac_open a' \<and> ac_path a' = p)"
  using listen_file_eq [OF assms(2), of i sock_ok p a u] assms(1,3,4) by (auto simp: guarded_def may_remove_def)

lemma guarded_steps:
  assumes "(\<lambda>u u'. ustep u u' \<and> u_acc u' i = u_acc u i)\<^sup>*\<^sup>* u u'" "u_acc u i = Some a" "p \<noteq> []" "guarded u i p"
  shows "guarded u' i p \<and> u_acc u' i = Some a"
  using assms by (induction rule: rtranclp_induct) (auto intro: guarded_step)

lemma untouched_steps: "ustep\<^sup>*\<^sup>* u u' \<Longrightarrow> p \<noteq> [] \<Longrightarrow> untouched u p \<Longrightarrow> untouched u' p"
  by (induction rule: rtranclp_induct) (auto intro: untouched_step)

section \<open>Properties\<close>

text \<open>
  C18. Unix acceptors on one file system, of any processes, with their system calls interleaved in any way,
  each of which may fail. A call of \<open>listen\<close> that is not interrupted and succeeds, on a path without a file
  or with a stale one that no other acceptor may remove, leaves the acceptor open and listening, with its own
  file at the path, for its owner only, and nobody else may remove the file. From there on this stays so,
  whatever the others do, until the acceptor itself does something or its process ends. And a file that is
  not a socket is kept, if no acceptor has the path or is about to test it.
\<close>

theorem open_acceptor_has_its_file:
  assumes "u_acc u i = Some a" "p \<noteq> []"
  shows "(u_call u i = None \<and> path_free u sock_ok p \<and> (\<forall>j. j \<noteq> i \<longrightarrow> \<not> may_remove u j p) \<and> \<not> failed lec \<longrightarrow>
        ustep\<^sup>*\<^sup>* u (listen_file i sock_ok lec p a u) \<and> guarded (listen_file i sock_ok lec p a u) i p
        \<and> (\<exists>a'. u_acc (listen_file i sock_ok lec p a u) i = Some a' \<and> ac_open a' \<and> ac_path a' = p))
    \<and> (guarded u i p \<and> (\<lambda>u u'. ustep u u' \<and> u_acc u' i = u_acc u i)\<^sup>*\<^sup>* u u' \<longrightarrow> guarded u' i p)
    \<and> (untouched u p \<and> ustep\<^sup>*\<^sup>* u u' \<longrightarrow> u_fs u' p = Some F_other)"
proof (intro conjI impI)
  assume "u_call u i = None \<and> path_free u sock_ok p \<and> (\<forall>j. j \<noteq> i \<longrightarrow> \<not> may_remove u j p) \<and> \<not> failed lec"
  then show "ustep\<^sup>*\<^sup>* u (listen_file i sock_ok lec p a u)" "guarded (listen_file i sock_ok lec p a u) i p"
    "\<exists>a'. u_acc (listen_file i sock_ok lec p a u) i = Some a' \<and> ac_open a' \<and> ac_path a' = p"
    using listen_alone [OF assms(1) _ assms(2)] guarded_listen [OF assms(1)] by simp_all
next
  assume "guarded u i p \<and> (\<lambda>u u'. ustep u u' \<and> u_acc u' i = u_acc u i)\<^sup>*\<^sup>* u u'"
  then show "guarded u' i p" using guarded_steps [OF _ assms] by blast
next
  assume "untouched u p \<and> ustep\<^sup>*\<^sup>* u u'"
  then have "untouched u' p" using untouched_steps assms(2) by blast
  then show "u_fs u' p = Some F_other" by (simp add: untouched_def)
qed

text \<open>Acceptor 0 listens; acceptor 1 wants the same path and tests the file.\<close>

definition udemo :: unix where
  "udemo = listen_file 0 True ec_ok ''/s'' (acceptor_create ''t'') (unix_new\<lparr>u_acc := [0 \<mapsto> acceptor_create ''t'']\<rparr>)"

definition udemo_other :: unix where
  "udemo_other = goes 1 (Some (L_connect ''/s''))
     (goes 1 (Some (L_stat ''/s'')) (udemo\<lparr>u_acc := (u_acc udemo)(1 \<mapsto> acceptor_create ''t''), u_call := (u_call udemo)(1 := None)\<rparr>))"

theorem open_acceptor_has_its_file_witness: "guarded udemo 0 ''/s'' \<and> guarded udemo_other 0 ''/s''"
proof -
  let ?a = "acceptor_create ''t''"
  let ?u0 = "unix_new\<lparr>u_acc := [0 \<mapsto> ?a]\<rparr>"
  have "u_call ?u0 0 = None \<and> path_free ?u0 True ''/s'' \<and> (\<forall>j. j \<noteq> 0 \<longrightarrow> \<not> may_remove ?u0 j ''/s'') \<and> \<not> failed ec_ok"
    by (auto simp: unix_new_def path_free_def may_remove_def)
  with open_acceptor_has_its_file [of ?u0 0 ?a "''/s''" True ec_ok] have g: "guarded udemo 0 ''/s''"
    "\<exists>a'. u_acc udemo 0 = Some a'" by (auto simp: udemo_def)
  then obtain a' where a': "u_acc udemo 0 = Some a'" by blast
  let ?u1 = "udemo\<lparr>u_acc := (u_acc udemo)(1 \<mapsto> ?a), u_call := (u_call udemo)(1 := None)\<rparr>"
  let ?u2 = "goes 1 (Some (L_stat ''/s'')) ?u1"
  have "u_acc udemo 1 = None" by code_simp
  then have "ustep udemo ?u1" by (rule ustep.create)
  moreover have "ustep ?u1 ?u2" by (rule ustep.listen) simp_all
  moreover have "ustep ?u2 udemo_other"
  proof -
    have "is_socket_file ?u2 ''/s''" using g(1) by (simp add: guarded_def is_socket_file_def)
    then show ?thesis using ustep.stat [of ?u2 1 "''/s''"] by (simp add: udemo_other_def sun_path_size_def)
  qed
  ultimately have "(\<lambda>u u'. ustep u u' \<and> u_acc u' 0 = u_acc u 0)\<^sup>*\<^sup>* udemo udemo_other"
    by (intro converse_rtranclp_into_rtranclp [of _ udemo ?u1] converse_rtranclp_into_rtranclp [of _ ?u1 ?u2]
        r_into_rtranclp [of _ ?u2]) (simp_all add: udemo_other_def)
  with g(1) open_acceptor_has_its_file [OF a', of "''/s''"] show ?thesis by blast
qed

text \<open>
  The two limits. An acceptor whose \<open>listen\<close> failed after \<open>bind\<close> keeps the path: another one takes the file for
  stale and replaces it, and then the first one removes it. And a file between \<open>bind\<close> and \<open>listen\<close> looks stale
  to others, since a connection to it is refused.
\<close>

definition enobufs :: error_code where
  "enobufs = \<lparr>ec_value = 105, ec_message = ''No buffer space available''\<rparr>"

definition steal_demo :: unix where
  "steal_demo = (let a = acceptor_create ''t'';
     u = listen_file 0 True enobufs ''/s'' a (unix_new\<lparr>u_acc := [0 \<mapsto> a, 1 \<mapsto> a]\<rparr>);
     u = listen_file 1 True ec_ok ''/s'' a u
   in destroy_file 0 (the (u_acc u 0)) u)"

lemma failed_listen_removes_other: "u_listening steal_demo 1 \<and> u_fs steal_demo ''/s'' = None"
  by code_simp

lemma bound_not_listening_is_stale:
  assumes "u_fs u p = Some (F_sock i)" "\<not> u_listening u i" "length p < sun_path_size"
  shows "is_stale_socket (path_state_of u True p) p"
  using assms by (simp add: is_stale_socket_def path_state_of_def is_socket_file_def connect_refused_def sys_connect_def)

end
