(* ===== verification/Expected.thy ===== *)
theory Expected
  imports Effects
begin

text \<open>
  The type of results, \<^verbatim>\<open>src/include/thespian/expected.hpp\<close>: a flag and a union that holds a value, an
  error or nothing. The library returns \<open>expected<void, error>\<close> (\<open>result\<close>) and \<open>expected<handle, error>\<close>
  from most of its functions. What is modelled is the union with its lifetimes: reading or
  destroying a member that is not alive, or constructing one over a member that is, is undefined
  or a leak, and the model has no outcome for it (\<open>None\<close>).

  The two instances the library uses have members with destructors; the other specialisations of
  the storage differ from them only in skipping destructors that do nothing.
\<close>

section \<open>Actions on objects\<close>

text \<open>An action on a state ends normally, throws, or is undefined (\<open>None\<close>).\<close>

type_synonym ('x, 's) act = "'s \<Rightarrow> ((thrown + 'x) \<times> 's) option"

definition liftA :: "thrown + 'x \<Rightarrow> ('x, 's) act" where
  "liftA r s = Some (r, s)"

definition bindA :: "('x, 's) act \<Rightarrow> ('x \<Rightarrow> ('y, 's) act) \<Rightarrow> ('y, 's) act" where
  "bindA m f s = (case m s of None \<Rightarrow> None | Some (Inl t, s') \<Rightarrow> Some (Inl t, s') | Some (Inr x, s') \<Rightarrow> f x s')"

text \<open>\<open>try { m } catch (...) { h; throw; }\<close>.\<close>

definition try_rethrow :: "('x, 's) act \<Rightarrow> (unit, 's) act \<Rightarrow> ('x, 's) act" where
  "try_rethrow m h s = (case m s of
     Some (Inl t, s') \<Rightarrow> bindA h (\<lambda>_. liftA (Inl t)) s'
   | r \<Rightarrow> r)"

lemma act_simps [simp]:
  "liftA r s = Some (r, s)"
  "bindA (liftA (Inr x)) f = f x"
  "m s = None \<Longrightarrow> bindA m f s = None"
  "m s = Some (Inl t, s') \<Longrightarrow> bindA m f s = Some (Inl t, s')"
  "m s = Some (Inr x, s') \<Longrightarrow> bindA m f s = f x s'"
  "m s = None \<Longrightarrow> try_rethrow m h s = None"
  "m s = Some (Inl t, s') \<Longrightarrow> try_rethrow m h s = bindA h (\<lambda>_. liftA (Inl t)) s'"
  "m s = Some (Inr x, s') \<Longrightarrow> try_rethrow m h s = Some (Inr x, s')"
  by (simp_all add: liftA_def bindA_def try_rethrow_def fun_eq_iff)

section \<open>The types of the members\<close>

text \<open>
  What the class uses of \<open>T\<close> and of \<open>E\<close>: constructors and assignments, each of which may throw, and
  the traits it asks for. A move returns the source as it leaves it; an assignment gets the target
  and the source and returns the target, a move assignment also the source. \<open>is_void\<close> stands for
  \<open>is_void_v\<close>; the other fields are then not used.
\<close>

record 'a cpp_type =
  is_void :: bool
  copy_of :: "'a \<Rightarrow> thrown + 'a"
  move_of :: "'a \<Rightarrow> (thrown + 'a) \<times> 'a"
  copy_assign :: "'a \<Rightarrow> 'a \<Rightarrow> (thrown + unit) \<times> 'a"
  move_assign :: "'a \<Rightarrow> 'a \<Rightarrow> (thrown + unit) \<times> 'a \<times> 'a"
  swap_with :: "'a \<Rightarrow> 'a \<Rightarrow> (thrown + unit) \<times> 'a \<times> 'a"
  nothrow_copy :: bool
  nothrow_move :: bool

text \<open>The traits tell the truth, and copies, moves and assignments have the value of their source.\<close>

definition lawful :: "'a cpp_type \<Rightarrow> bool" where
  "lawful T \<longleftrightarrow>
     (\<forall>x y. copy_of T x = Inr y \<longrightarrow> y = x) \<and> (\<forall>x y. fst (move_of T x) = Inr y \<longrightarrow> y = x)
   \<and> (\<forall>x y. fst (copy_assign T x y) = Inr () \<longrightarrow> snd (copy_assign T x y) = y)
   \<and> (\<forall>x y. fst (move_assign T x y) = Inr () \<longrightarrow> fst (snd (move_assign T x y)) = y)
   \<and> (\<forall>x y. fst (swap_with T x y) = Inr () \<longrightarrow> snd (swap_with T x y) = (y, x))
   \<and> (nothrow_copy T \<longrightarrow> (\<forall>x. \<exists>y. copy_of T x = Inr y))
   \<and> (nothrow_move T \<longrightarrow> (\<forall>x. \<exists>y. fst (move_of T x) = Inr y))"

lemma lawful_copy: "lawful T \<Longrightarrow> copy_of T x = Inr y \<Longrightarrow> y = x"
  by (simp add: lawful_def)

lemma lawful_nothrow_copy: "lawful T \<Longrightarrow> nothrow_copy T \<Longrightarrow> copy_of T x = Inr x"
  unfolding lawful_def by metis


lemma lawful_nothrow_move: "lawful T \<Longrightarrow> nothrow_move T \<Longrightarrow> fst (move_of T x) = Inr x"
  unfolding lawful_def by metis

section \<open>The storage\<close>

datatype ('t, 'e) slot = Empty | Val 't | Unex 'e

record ('t, 'e) expected =
  m_has_val :: bool
  m_slot :: "('t, 'e) slot"

text \<open>Two objects take part in assignments and in \<open>swap\<close>: \<open>*this\<close> and \<open>rhs\<close>.\<close>

datatype side = This | Rhs

type_synonym ('t, 'e) objects = "side \<Rightarrow> ('t, 'e) expected"

definition has_value :: "side \<Rightarrow> ('t, 'e) objects \<Rightarrow> bool" where
  "has_value d s = m_has_val (s d)"

definition set_slot :: "side \<Rightarrow> ('t, 'e) slot \<Rightarrow> ('t, 'e) objects \<Rightarrow> ('t, 'e) objects" where
  "set_slot d u s = s(d := (s d)\<lparr>m_slot := u\<rparr>)"

definition val :: "side \<Rightarrow> ('t, ('t, 'e) objects) act" where
  "val d s = (case m_slot (s d) of Val v \<Rightarrow> Some (Inr v, s) | _ \<Rightarrow> None)"

definition err_of :: "side \<Rightarrow> ('e, ('t, 'e) objects) act" where
  "err_of d s = (case m_slot (s d) of Unex e \<Rightarrow> Some (Inr e, s) | _ \<Rightarrow> None)"

definition destruct_value :: "side \<Rightarrow> (unit, ('t, 'e) objects) act" where
  "destruct_value d s = (case m_slot (s d) of Val _ \<Rightarrow> Some (Inr (), set_slot d Empty s) | _ \<Rightarrow> None)"

definition destruct_error :: "side \<Rightarrow> (unit, ('t, 'e) objects) act" where
  "destruct_error d s = (case m_slot (s d) of Unex _ \<Rightarrow> Some (Inr (), set_slot d Empty s) | _ \<Rightarrow> None)"

text \<open>
  Placement new: the constructor \<open>c\<close> runs and may throw; the flag is set after it. The value of
  \<open>expected<void, E>\<close> has no storage: constructing it only sets the flag.
\<close>

definition construct_value :: "side \<Rightarrow> ('t, ('t, 'e) objects) act \<Rightarrow> (unit, ('t, 'e) objects) act" where
  "construct_value d c = bindA c (\<lambda>v s. case m_slot (s d) of
     Empty \<Rightarrow> Some (Inr (), s(d := \<lparr>m_has_val = True, m_slot = Val v\<rparr>)) | _ \<Rightarrow> None)"

definition construct_void :: "side \<Rightarrow> (unit, ('t, 'e) objects) act" where
  "construct_void d s = Some (Inr (), s(d := (s d)\<lparr>m_has_val := True\<rparr>))"

definition construct_error :: "side \<Rightarrow> ('e, ('t, 'e) objects) act \<Rightarrow> (unit, ('t, 'e) objects) act" where
  "construct_error d c = bindA c (\<lambda>e s. case m_slot (s d) of
     Empty \<Rightarrow> Some (Inr (), s(d := \<lparr>m_has_val = False, m_slot = Unex e\<rparr>)) | _ \<Rightarrow> None)"

text \<open>The destructors of the storage of a type with a value, and of \<open>void\<close>.\<close>

definition destroy_expected :: "'t cpp_type \<Rightarrow> side \<Rightarrow> (unit, ('t, 'e) objects) act" where
  "destroy_expected T d s =
     (if has_value d s then (if is_void T then liftA (Inr ()) s else destruct_value d s)
      else destruct_error d s)"

text \<open>Arguments of constructors: a copy of a member, a member moved from, a local moved from.\<close>

definition copy_val :: "'t cpp_type \<Rightarrow> side \<Rightarrow> ('t, ('t, 'e) objects) act" where
  "copy_val T d = bindA (val d) (\<lambda>v. liftA (copy_of T v))"

definition copy_error :: "'e cpp_type \<Rightarrow> side \<Rightarrow> ('e, ('t, 'e) objects) act" where
  "copy_error E d = bindA (err_of d) (\<lambda>e. liftA (copy_of E e))"

definition move_val :: "'t cpp_type \<Rightarrow> side \<Rightarrow> ('t, ('t, 'e) objects) act" where
  "move_val T d = bindA (val d) (\<lambda>v s. Some (fst (move_of T v), set_slot d (Val (snd (move_of T v))) s))"

definition move_error :: "'e cpp_type \<Rightarrow> side \<Rightarrow> ('e, ('t, 'e) objects) act" where
  "move_error E d = bindA (err_of d) (\<lambda>e s. Some (fst (move_of E e), set_slot d (Unex (snd (move_of E e))) s))"

definition move_tmp :: "'a cpp_type \<Rightarrow> 'a \<Rightarrow> ('a, 's) act" where
  "move_tmp T v = liftA (fst (move_of T v))"

section \<open>Assignment\<close>

text \<open>\<open>val() = v\<close> and \<open>error() = e\<close> for a source that is copied.\<close>

definition assign_val :: "'t cpp_type \<Rightarrow> side \<Rightarrow> 't \<Rightarrow> (unit, ('t, 'e) objects) act" where
  "assign_val T d w = bindA (val d) (\<lambda>v s.
     Some (fst (copy_assign T v w), set_slot d (Val (snd (copy_assign T v w))) s))"

definition assign_err :: "'e cpp_type \<Rightarrow> side \<Rightarrow> 'e \<Rightarrow> (unit, ('t, 'e) objects) act" where
  "assign_err E d w = bindA (err_of d) (\<lambda>v s.
     Some (fst (copy_assign E v w), set_slot d (Unex (snd (copy_assign E v w))) s))"

text \<open>\<open>val() = move(rhs).val()\<close> and \<open>error() = move(rhs).error()\<close>.\<close>

definition move_assign_val :: "'t cpp_type \<Rightarrow> (unit, ('t, 'e) objects) act" where
  "move_assign_val T = bindA (val This) (\<lambda>v. bindA (val Rhs) (\<lambda>w s.
     case move_assign T v w of (r, v', w') \<Rightarrow> Some (r, set_slot Rhs (Val w') (set_slot This (Val v') s))))"

definition move_assign_err :: "'e cpp_type \<Rightarrow> (unit, ('t, 'e) objects) act" where
  "move_assign_err E = bindA (err_of This) (\<lambda>v. bindA (err_of Rhs) (\<lambda>w s.
     case move_assign E v w of (r, v', w') \<Rightarrow> Some (r, set_slot Rhs (Unex w') (set_slot This (Unex v') s))))"

definition assign_copy :: "'t cpp_type \<Rightarrow> 'e cpp_type \<Rightarrow> (unit, ('t, 'e) objects) act" where
  "assign_copy T E s =
     (if \<not> has_value This s \<and> has_value Rhs s then
        (if is_void T then bindA (destruct_error This) (\<lambda>_. construct_void This) s
         else if nothrow_copy T then
           bindA (destruct_error This) (\<lambda>_. construct_value This (copy_val T Rhs)) s
         else if nothrow_move T then
           bindA (copy_val T Rhs) (\<lambda>tmp.
           bindA (destruct_error This) (\<lambda>_. construct_value This (move_tmp T tmp))) s
         else
           bindA (copy_error E This) (\<lambda>tmp.
           bindA (destruct_error This) (\<lambda>_.
           try_rethrow (construct_value This (copy_val T Rhs)) (construct_error This (move_tmp E tmp)))) s)
      else if has_value This s \<and> \<not> has_value Rhs s then
        (if is_void T then construct_error This (copy_error E Rhs) s
         else if nothrow_copy T then
           bindA (destruct_value This) (\<lambda>_. construct_error This (copy_error E Rhs)) s
         else if nothrow_move T then
           bindA (copy_error E Rhs) (\<lambda>tmp.
           bindA (destruct_value This) (\<lambda>_. construct_error This (move_tmp E tmp))) s
         else
           bindA (copy_val T This) (\<lambda>tmp.
           bindA (destruct_value This) (\<lambda>_.
           try_rethrow (construct_error This (copy_error E Rhs)) (construct_value This (move_tmp T tmp)))) s)
      else if is_void T then
        (if \<not> has_value This s then bindA (err_of Rhs) (assign_err E This) s else liftA (Inr ()) s)
      else if has_value This s then bindA (val Rhs) (assign_val T This) s
      else bindA (err_of Rhs) (assign_err E This) s)"


text \<open>
  Assigning a value: \<open>c\<close> is the construction of a \<open>T\<close> from it, \<open>nothrow\<close> whether that cannot throw.
  Assigning an error is statically required not to throw.
\<close>

definition assign_value :: "'t cpp_type \<Rightarrow> 'e cpp_type \<Rightarrow> bool \<Rightarrow> thrown + 't \<Rightarrow> 't \<Rightarrow> (unit, ('t, 'e) objects) act" where
  "assign_value T E nothrow c rhs s =
     (if \<not> has_value This s then
        (if nothrow then bindA (destruct_error This) (\<lambda>_. construct_value This (liftA c)) s
         else
           bindA (copy_error E This) (\<lambda>tmp.
           bindA (destruct_error This) (\<lambda>_.
           try_rethrow (construct_value This (liftA c)) (construct_error This (move_tmp E tmp)))) s)
      else assign_val T This rhs s)"

definition assign_error :: "'e cpp_type \<Rightarrow> 'e \<Rightarrow> (unit, ('t, 'e) objects) act" where
  "assign_error E e s =
     (if has_value This s then
        bindA (destruct_value This) (\<lambda>_. construct_error This (liftA (copy_of E e))) s
      else assign_err E This e s)"

text \<open>
  \<open>emplace\<close>: \<open>c\<close> is the construction of a \<open>T\<close> from the arguments, \<open>nothrow\<close> the trait that is asked. The
  version that takes an initializer list asks for the trait of the other arguments only.
\<close>

definition emplace :: "'t cpp_type \<Rightarrow> 'e cpp_type \<Rightarrow> bool \<Rightarrow> thrown + 't \<Rightarrow> (unit, ('t, 'e) objects) act" where
  "emplace T E nothrow c s =
     (if has_value This s then
        bindA (liftA c) (\<lambda>tmp. bindA (val This) (\<lambda>v s. case move_assign T v tmp of
          (r, v', _) \<Rightarrow> Some (r, set_slot This (Val v') s))) s
      else if nothrow then bindA (destruct_error This) (\<lambda>_. construct_value This (liftA c)) s
      else if nothrow_move T then
        bindA (liftA c) (\<lambda>tmp.
        bindA (destruct_error This) (\<lambda>_. construct_value This (move_tmp T tmp))) s
      else
        bindA (move_error E This) (\<lambda>tmp.
        bindA (destruct_error This) (\<lambda>_.
        try_rethrow (construct_value This (liftA c)) (construct_error This (move_tmp E tmp)))) s)"

definition emplace_list :: "'t cpp_type \<Rightarrow> 'e cpp_type \<Rightarrow> bool \<Rightarrow> thrown + 't \<Rightarrow> (unit, ('t, 'e) objects) act" where
  "emplace_list T E nothrow_without_list c = emplace T E nothrow_without_list c"

definition emplace_void :: "(unit, ('t, 'e) objects) act" where
  "emplace_void s =
     (if \<not> has_value This s then bindA (destruct_error This) (\<lambda>_. construct_void This) s else construct_void This s)"

text \<open>The copy and the move constructor: \<open>*this\<close> starts with no member.\<close>

definition no_init :: "('t, 'e) expected" where
  "no_init = \<lparr>m_has_val = False, m_slot = Empty\<rparr>"

definition copy_construct :: "'t cpp_type \<Rightarrow> 'e cpp_type \<Rightarrow> (unit, ('t, 'e) objects) act" where
  "copy_construct T E s =
     (let s = s(This := no_init) in
      if has_value Rhs s then
        (if is_void T then construct_void This s else construct_value This (copy_val T Rhs) s)
      else construct_error This (copy_error E Rhs) s)"

definition move_construct :: "'t cpp_type \<Rightarrow> 'e cpp_type \<Rightarrow> (unit, ('t, 'e) objects) act" where
  "move_construct T E s =
     (let s = s(This := no_init) in
      if has_value Rhs s then
        (if is_void T then construct_void This s else construct_value This (move_val T Rhs) s)
      else construct_error This (move_error E Rhs) s)"

section \<open>Swap\<close>

definition swap_vals :: "'t cpp_type \<Rightarrow> side \<Rightarrow> side \<Rightarrow> (unit, ('t, 'e) objects) act" where
  "swap_vals T a b = bindA (val a) (\<lambda>v. bindA (val b) (\<lambda>w s.
     case swap_with T v w of (r, v', w') \<Rightarrow> Some (r, set_slot b (Val w') (set_slot a (Val v') s))))"

definition swap_errors :: "'e cpp_type \<Rightarrow> side \<Rightarrow> side \<Rightarrow> (unit, ('t, 'e) objects) act" where
  "swap_errors E a b = bindA (err_of a) (\<lambda>v. bindA (err_of b) (\<lambda>w s.
     case swap_with E v w of (r, v', w') \<Rightarrow> Some (r, set_slot b (Unex w') (set_slot a (Unex v') s))))"

text \<open>The branch for \<open>*this\<close> (the side \<open>a\<close>) without a value; \<open>b\<close> is \<open>rhs\<close>.\<close>

definition swap_no_value :: "'t cpp_type \<Rightarrow> 'e cpp_type \<Rightarrow> side \<Rightarrow> side \<Rightarrow> (unit, ('t, 'e) objects) act" where
  "swap_no_value T E a b s =
     (if has_value b s then
        (if is_void T then
           bindA (construct_error a (move_error E b)) (\<lambda>_.
           bindA (destruct_error b) (\<lambda>_. construct_void b)) s
         else if nothrow_move E then
           bindA (move_error E b) (\<lambda>tmp.
           bindA (destruct_error b) (\<lambda>_.
           bindA (if nothrow_move T then construct_value b (move_val T a)
                  else try_rethrow (construct_value b (move_val T a)) (construct_error b (move_tmp E tmp))) (\<lambda>_.
           bindA (destruct_value a) (\<lambda>_. construct_error a (move_tmp E tmp))))) s
         else
           bindA (move_val T a) (\<lambda>tmp.
           bindA (destruct_value a) (\<lambda>_.
           bindA (try_rethrow (construct_error a (move_error E b)) (construct_value a (move_tmp T tmp))) (\<lambda>_.
           bindA (destruct_error b) (\<lambda>_. construct_value b (move_tmp T tmp))))) s)
      else swap_errors E a b s)"

definition expected_swap :: "'t cpp_type \<Rightarrow> 'e cpp_type \<Rightarrow> side \<Rightarrow> side \<Rightarrow> (unit, ('t, 'e) objects) act" where
  "expected_swap T E a b s =
     (if has_value a s then
        (if has_value b s then (if is_void T then liftA (Inr ()) s else swap_vals T a b s)
         else swap_no_value T E b a s)
      else swap_no_value T E a b s)"

section \<open>Observers\<close>

text \<open>
  \<open>value()\<close> throws \<open>bad_expected_access\<close> for an error. \<open>value_or\<close> is given the converted alternative; it is declared
  not to throw, so that a copy that throws ends the program, \<open>None\<close>.
\<close>

definition expected_value :: "'t cpp_type \<Rightarrow> side \<Rightarrow> ('t option, ('t, 'e) objects) act" where
  "expected_value T d s =
     (if \<not> has_value d s then bindA (err_of d) (\<lambda>_. liftA (Inl (Std_exn ''Bad expected access''))) s
      else if is_void T then liftA (Inr None) s
      else bindA (val d) (\<lambda>v. liftA (Inr (Some v))) s)"

definition value_or :: "'t cpp_type \<Rightarrow> side \<Rightarrow> 't \<Rightarrow> ('t, ('t, 'e) objects) act" where
  "value_or T d v s =
     (if has_value d s then (case copy_val T d s of Some (Inl _, _) \<Rightarrow> None | r \<Rightarrow> r) else liftA (Inr v) s)"

section \<open>Chaining\<close>

text \<open>
  The functions behind \<open>and_then\<close>, \<open>or_else\<close>, \<open>map\<close> and \<open>map_error\<close>. The argument \<open>f\<close> may change the state and
  may throw; the result is a new object. \<open>expected<void, E>\<close> calls \<open>f\<close> without an argument, here with \<open>None\<close>.
  Errors and values are copied into the result when the object is an lvalue, as here.
\<close>

definition deref :: "'t cpp_type \<Rightarrow> side \<Rightarrow> ('t option, ('t, 'e) objects) act" where
  "deref T d = (if is_void T then liftA (Inr None) else bindA (val d) (\<lambda>v. liftA (Inr (Some v))))"

definition unexpect :: "'e \<Rightarrow> ('t, 'e) expected" where
  "unexpect e = \<lparr>m_has_val = False, m_slot = Unex e\<rparr>"

definition in_place :: "'t option \<Rightarrow> ('t, 'e) expected" where
  "in_place v = \<lparr>m_has_val = True, m_slot = (case v of None \<Rightarrow> Empty | Some v \<Rightarrow> Val v)\<rparr>"

definition and_then ::
    "'t cpp_type \<Rightarrow> 'e cpp_type \<Rightarrow> side \<Rightarrow> ('t option \<Rightarrow> (('u, 'e) expected, ('t, 'e) objects) act) \<Rightarrow>
     (('u, 'e) expected, ('t, 'e) objects) act" where
  "and_then T E d f s =
     (if has_value d s then bindA (deref T d) f s
      else bindA (copy_error E d) (\<lambda>e. liftA (Inr (unexpect e))) s)"

definition copy_object :: "'t cpp_type \<Rightarrow> 'e cpp_type \<Rightarrow> side \<Rightarrow> (('t, 'e) expected, ('t, 'e) objects) act" where
  "copy_object T E d s =
     (if has_value d s then
        (if is_void T then liftA (Inr (in_place None)) s
         else bindA (copy_val T d) (\<lambda>v. liftA (Inr (in_place (Some v)))) s)
      else bindA (copy_error E d) (\<lambda>e. liftA (Inr (unexpect e))) s)"

definition or_else ::
    "'t cpp_type \<Rightarrow> 'e cpp_type \<Rightarrow> side \<Rightarrow> ('e \<Rightarrow> (('t, 'e) expected, ('t, 'e) objects) act) \<Rightarrow>
     (('t, 'e) expected, ('t, 'e) objects) act" where
  "or_else T E d f s = (if has_value d s then copy_object T E d s else bindA (err_of d) f s)"

text \<open>\<open>or_else\<close> with an \<open>f\<close> that returns \<open>void\<close>.\<close>

definition or_else_void ::
    "'t cpp_type \<Rightarrow> 'e cpp_type \<Rightarrow> side \<Rightarrow> ('e \<Rightarrow> (unit, ('t, 'e) objects) act) \<Rightarrow>
     (('t, 'e) expected, ('t, 'e) objects) act" where
  "or_else_void T E d f s =
     (if \<not> has_value d s then bindA (bindA (err_of d) f) (\<lambda>_. copy_object T E d) s else copy_object T E d s)"

text \<open>\<open>f\<close> returning \<open>void\<close> is an \<open>f\<close> that returns \<open>None\<close>.\<close>

definition expected_map ::
    "'t cpp_type \<Rightarrow> 'e cpp_type \<Rightarrow> side \<Rightarrow> ('t option \<Rightarrow> ('u option, ('t, 'e) objects) act) \<Rightarrow>
     (('u, 'e) expected, ('t, 'e) objects) act" where
  "expected_map T E d f s =
     (if has_value d s then bindA (deref T d) (\<lambda>v. bindA (f v) (\<lambda>u. liftA (Inr (in_place u)))) s
      else bindA (copy_error E d) (\<lambda>e. liftA (Inr (unexpect e))) s)"

definition map_error ::
    "'t cpp_type \<Rightarrow> side \<Rightarrow> ('e \<Rightarrow> ('g, ('t, 'e) objects) act) \<Rightarrow> (('t, 'g) expected, ('t, 'e) objects) act" where
  "map_error T d f s =
     (if has_value d s then
        (if is_void T then liftA (Inr (in_place None)) s
         else bindA (copy_val T d) (\<lambda>v. liftA (Inr (in_place (Some v)))) s)
      else bindA (err_of d) (\<lambda>e. bindA (f e) (\<lambda>g. liftA (Inr (unexpect g)))) s)"

section \<open>Comparison\<close>

text \<open>\<open>x == y\<close> and \<open>x != y\<close>, written out as two separate functions.\<close>

definition expected_eq :: "'t cpp_type \<Rightarrow> (bool, ('t, 'e) objects) act" where
  "expected_eq T s =
     (if has_value This s \<noteq> has_value Rhs s then liftA (Inr False) s
      else if \<not> has_value This s then
        bindA (err_of This) (\<lambda>e. bindA (err_of Rhs) (\<lambda>g. liftA (Inr (e = g)))) s
      else if is_void T then liftA (Inr True) s
      else bindA (val This) (\<lambda>v. bindA (val Rhs) (\<lambda>w. liftA (Inr (v = w)))) s)"

definition expected_neq :: "'t cpp_type \<Rightarrow> (bool, ('t, 'e) objects) act" where
  "expected_neq T s =
     (if has_value This s \<noteq> has_value Rhs s then liftA (Inr True) s
      else if \<not> has_value This s then
        bindA (err_of This) (\<lambda>e. bindA (err_of Rhs) (\<lambda>g. liftA (Inr (e \<noteq> g)))) s
      else if is_void T then liftA (Inr True) s
      else bindA (val This) (\<lambda>v. bindA (val Rhs) (\<lambda>w. liftA (Inr (v \<noteq> w)))) s)"

text \<open>With a value, and with an \<open>unexpected\<close>.\<close>

definition value_eq :: "'t \<Rightarrow> (bool, ('t, 'e) objects) act" where
  "value_eq w s = (if has_value This s then bindA (val This) (\<lambda>v. liftA (Inr (v = w))) s else liftA (Inr False) s)"

definition value_neq :: "'t \<Rightarrow> (bool, ('t, 'e) objects) act" where
  "value_neq w s = (if has_value This s then bindA (val This) (\<lambda>v. liftA (Inr (v \<noteq> w))) s else liftA (Inr False) s)"

definition unexpected_eq :: "'e \<Rightarrow> (bool, ('t, 'e) objects) act" where
  "unexpected_eq g s = (if has_value This s then liftA (Inr False) s else bindA (err_of This) (\<lambda>e. liftA (Inr (e = g))) s)"

definition unexpected_neq :: "'e \<Rightarrow> (bool, ('t, 'e) objects) act" where
  "unexpected_neq g s = (if has_value This s then liftA (Inr True) s else bindA (err_of This) (\<lambda>e. liftA (Inr (e \<noteq> g))) s)"

section \<open>The contract\<close>

text \<open>
  A well-formed object: the flag says which member is alive. Its content is an error or a value
  (\<open>None\<close> for \<open>void\<close>); this is how results appear in the other theories.
\<close>

definition wf_expected :: "'t cpp_type \<Rightarrow> ('t, 'e) expected \<Rightarrow> bool" where
  "wf_expected T x = (case m_slot x of
     Val _ \<Rightarrow> m_has_val x \<and> \<not> is_void T | Unex _ \<Rightarrow> \<not> m_has_val x | Empty \<Rightarrow> m_has_val x \<and> is_void T)"

definition content :: "('t, 'e) expected \<Rightarrow> 'e + 't option" where
  "content x = (case m_slot x of Val v \<Rightarrow> Inr (Some v) | Unex e \<Rightarrow> Inl e | Empty \<Rightarrow> Inr None)"

named_theorems expected_defs \<open>the primitives of the storage\<close>

lemmas [expected_defs] = val_def err_of_def destruct_value_def destruct_error_def construct_value_def construct_void_def
  construct_error_def copy_val_def copy_error_def move_val_def move_error_def move_tmp_def set_slot_def bindA_def
  try_rethrow_def has_value_def assign_val_def assign_err_def move_assign_val_def move_assign_err_def

lemma side_upd_simps [simp]: "This \<noteq> Rhs" "Rhs \<noteq> This"
  by simp_all

lemma wf_cases:
  assumes "wf_expected T x"
  obtains (val) v where "x = \<lparr>m_has_val = True, m_slot = Val v\<rparr>" "\<not> is_void T"
  | (void) "x = \<lparr>m_has_val = True, m_slot = Empty\<rparr>" "is_void T"
  | (err) e where "x = \<lparr>m_has_val = False, m_slot = Unex e\<rparr>"
  using assms by (cases x) (auto simp: wf_expected_def split: slot.splits)

lemma wf_objects [simp]:
  "wf_expected T \<lparr>m_has_val = True, m_slot = Val v\<rparr> = (\<not> is_void T)"
  "wf_expected T \<lparr>m_has_val = False, m_slot = Unex e\<rparr>"
  "wf_expected T \<lparr>m_has_val = True, m_slot = Empty\<rparr> = is_void T"
  "\<not> wf_expected T \<lparr>m_has_val = False, m_slot = Empty\<rparr>"
  "\<not> wf_expected T \<lparr>m_has_val = False, m_slot = Val v\<rparr>" "\<not> wf_expected T \<lparr>m_has_val = True, m_slot = Unex e\<rparr>"
  "content \<lparr>m_has_val = b, m_slot = Val v\<rparr> = Inr (Some v)"
  "content \<lparr>m_has_val = b, m_slot = Unex e\<rparr> = Inl e"
  "content \<lparr>m_has_val = b, m_slot = Empty\<rparr> = Inr None"
  by (simp_all add: wf_expected_def content_def)


section \<open>Assignment keeps objects well-formed\<close>



lemma copy_assign_lawful:
  "lawful T \<Longrightarrow> fst (copy_assign T x y) = Inr u \<Longrightarrow> snd (copy_assign T x y) = y"
  unfolding lawful_def by (metis (full_types) old.unit.exhaust)

lemma move_assign_lawful:
  "lawful T \<Longrightarrow> move_assign T x y = (Inr u, x', y') \<Longrightarrow> x' = y"
  unfolding lawful_def by (metis (full_types) fst_conv old.unit.exhaust snd_conv)





text \<open>Constructors and the other ways to assign.\<close>

lemma copy_construct_wf:
  assumes "lawful T" "lawful E" "wf_expected T (s Rhs)" "copy_construct T E s = Some (Inr (), s')"
  shows "wf_expected T (s' This) \<and> s' Rhs = s Rhs \<and> content (s' This) = content (s Rhs)"
  using assms(3)
  by (cases rule: wf_cases)
    (use assms(4) lawful_copy [OF assms(1)] lawful_copy [OF assms(2)] in
      \<open>auto simp: copy_construct_def no_init_def Let_def expected_defs split: sum.splits\<close>)

lemma assign_error_wf:
  assumes "lawful E" "nothrow_copy E" "\<not> is_void T" "wf_expected T (s This)"
    "\<forall>g. content (s This) = Inl g \<longrightarrow> \<not> isl (fst (copy_assign E g e))"
  shows "\<exists>s'. assign_error E e s = Some (Inr (), s') \<and> wf_expected T (s' This) \<and> content (s' This) = Inl e"
  using assms(4)
proof (cases rule: wf_cases)
  case (val v)
  then show ?thesis using lawful_nothrow_copy [OF assms(1,2)] by (simp add: assign_error_def expected_defs)
next
  case (err g)
  then show ?thesis using copy_assign_lawful [OF assms(1), of g e] assms(5)
    by (cases "fst (copy_assign E g e)") (auto simp: assign_error_def expected_defs)
qed (use assms(3) in simp)

text \<open>\<open>emplace\<close>, when the trait it asks for tells the truth about the constructor it calls.\<close>

lemma emplace_wf:
  assumes T: "lawful T" "lawful E" "nothrow_move E" "\<not> is_void T" and w: "wf_expected T (s This)"
    and c: "nothrow \<longrightarrow> \<not> isl c"
  shows "\<exists>r s'. emplace T E nothrow c s = Some (r, s') \<and> wf_expected T (s' This)
    \<and> (case r of Inr _ \<Rightarrow> \<exists>v. c = Inr v \<and> content (s' This) = Inr (Some v)
       | Inl _ \<Rightarrow> \<not> has_value This s \<longrightarrow> content (s' This) = content (s This))"
  using w
proof (cases rule: wf_cases)
  case (val v)
  with T(4) show ?thesis
    by (cases c; cases "move_assign T v (projr c)")
      (auto simp: emplace_def expected_defs dest: move_assign_lawful [OF T(1)] split: sum.splits)
next
  case (err e)
  with T(4) c lawful_nothrow_move [OF T(1)] lawful_nothrow_move [OF T(2,3)] show ?thesis
    by (cases c) (auto simp: emplace_def expected_defs split: sum.splits)
qed (use T(4) in simp)

text \<open>
  With an initializer list the trait is about the other arguments only: a constructor that throws
  leaves the object without a member.
\<close>

lemma emplace_list_breaks:
  assumes "s This = \<lparr>m_has_val = False, m_slot = Unex e\<rparr>"
  shows "\<exists>s'. emplace_list T E True (Inl t) s = Some (Inl t, s') \<and> destroy_expected T This s' = None"
  using assms by (simp add: emplace_list_def emplace_def destroy_expected_def expected_defs)

section \<open>Swap and comparison\<close>

lemma swap_same_kind:
  assumes "lawful T" "lawful E" "wf_expected T (s This)" "wf_expected T (s Rhs)" "has_value This s = has_value Rhs s"
    "expected_swap T E This Rhs s = Some (Inr (), s')"
  shows "wf_expected T (s' This) \<and> wf_expected T (s' Rhs) \<and> content (s' This) = content (s Rhs) \<and> content (s' Rhs) = content (s This)"
proof -
  have sw: "x' = y \<and> y' = x" if "swap_with T x y = (Inr (), x', y')" for x y x' y'
    using assms(1) that unfolding lawful_def by (metis fst_conv snd_conv)
  have se: "x' = y \<and> y' = x" if "swap_with E x y = (Inr (), x', y')" for x y x' y'
    using assms(2) that unfolding lawful_def by (metis fst_conv snd_conv)
  from assms(3,4) show ?thesis
    by (elim wf_cases)
      (use assms(5,6) in \<open>auto simp: expected_swap_def swap_no_value_def swap_vals_def swap_errors_def expected_defs
        dest!: sw se split: prod.splits\<close>)
qed

text \<open>Swapping a value and an error reads a member that is not alive, whatever the types are.\<close>

lemma swap_mixed:
  assumes "wf_expected T (s This)" "wf_expected T (s Rhs)" "has_value This s \<noteq> has_value Rhs s"
  shows "expected_swap T E This Rhs s = None"
  using assms(1,2)
  by (elim wf_cases) (use assms(3) in \<open>simp_all add: expected_swap_def swap_no_value_def expected_defs\<close>)

lemma eq_content:
  assumes "wf_expected T (s This)" "wf_expected T (s Rhs)"
  shows "expected_eq T s = Some (Inr (content (s This) = content (s Rhs)), s)"
  using assms by (elim wf_cases) (simp_all add: expected_eq_def expected_defs)

text \<open>\<open>!=\<close> is the negation of \<open>==\<close>, except for two results without an error: they are equal and different.\<close>

lemma neq_content:
  assumes "wf_expected T (s This)" "wf_expected T (s Rhs)"
  shows "expected_neq T s = Some (Inr (content (s This) \<noteq> content (s Rhs)
    \<or> (is_void T \<and> content (s This) = Inr None \<and> content (s Rhs) = Inr None)), s)"
  using assms by (elim wf_cases) (simp_all add: expected_neq_def expected_defs)

lemma error_neither_eq_nor_neq:
  assumes "s This = \<lparr>m_has_val = False, m_slot = Unex e\<rparr>"
  shows "value_eq w s = Some (Inr False, s)" "value_neq w s = Some (Inr False, s)"
  using assms by (simp_all add: value_eq_def value_neq_def expected_defs)

section \<open>Chaining is the monad of results\<close>

lemma deref_content:
  assumes "wf_expected T (s d)" "content (s d) = Inr v"
  shows "has_value d s" "deref T d s = Some (Inr v, s)"
  using assms by (auto elim!: wf_cases simp: deref_def expected_defs)

lemma error_content:
  assumes "wf_expected T (s d)" "content (s d) = Inl e"
  shows "\<not> has_value d s" "err_of d s = Some (Inr e, s)" "copy_error E d s = Some (copy_of E e, s)"
  using assms by (auto elim!: wf_cases simp: expected_defs)

lemma and_then_content:
  assumes "wf_expected T (s d)" "lawful E"
  shows "and_then T E d f s = (case content (s d) of
      Inr v \<Rightarrow> f v s
    | Inl e \<Rightarrow> (case copy_of E e of Inl t \<Rightarrow> Some (Inl t, s) | Inr _ \<Rightarrow> Some (Inr (unexpect e), s)))"
  using deref_content [of T s d, OF assms(1)] error_content [of T s d, OF assms(1)] lawful_copy [OF assms(2)]
  by (auto simp: and_then_def dest: lawful_copy [OF assms(2)] split: sum.splits)

lemma or_else_content:
  assumes "wf_expected T (s d)"
  shows "or_else T E d f s = (case content (s d) of Inr _ \<Rightarrow> copy_object T E d s | Inl e \<Rightarrow> f e s)"
  using deref_content(1) [of T s d, OF assms] error_content [of T s d, OF assms]
  by (auto simp: or_else_def split: sum.splits)

text \<open>\<open>map\<close> is \<open>and_then\<close> of a function that always gives a value.\<close>

lemma map_and_then: "expected_map T E d f = and_then T E d (\<lambda>v. bindA (f v) (\<lambda>u. liftA (Inr (in_place u))))"
  by (simp add: fun_eq_iff expected_map_def and_then_def)

lemma expected_value_content:
  assumes "wf_expected T (s d)"
  shows "expected_value T d s = (case content (s d) of
      Inr v \<Rightarrow> Some (Inr v, s) | Inl _ \<Rightarrow> Some (Inl (Std_exn ''Bad expected access''), s))"
  using assms by (elim wf_cases) (simp_all add: expected_value_def expected_defs)

section \<open>Properties\<close>



text \<open>A handle, which is copied without throwing, and a buffer whose copies fail from some size on.\<close>

definition handle_type :: "nat cpp_type" where
  "handle_type = \<lparr>is_void = False, copy_of = Inr, move_of = (\<lambda>x. (Inr x, 0)), copy_assign = (\<lambda>_ y. (Inr (), y)),
     move_assign = (\<lambda>_ y. (Inr (), y, 0)), swap_with = (\<lambda>x y. (Inr (), y, x)), nothrow_copy = True, nothrow_move = True\<rparr>"

definition buffer_type :: "nat \<Rightarrow> byte list cpp_type" where
  "buffer_type n = \<lparr>is_void = False,
     copy_of = (\<lambda>x. if length x \<le> n then Inr x else Inl (Std_exn ''std::bad_alloc'')),
     move_of = (\<lambda>x. (Inr x, [])),
     copy_assign = (\<lambda>x y. if length y \<le> n then (Inr (), y) else (Inl (Std_exn ''std::bad_alloc''), x)),
     move_assign = (\<lambda>_ y. (Inr (), y, [])), swap_with = (\<lambda>x y. (Inr (), y, x)), nothrow_copy = False, nothrow_move = True\<rparr>"


definition value_and_error :: "nat \<Rightarrow> byte list \<Rightarrow> (nat, byte list) objects" where
  "value_and_error v e d = (case d of This \<Rightarrow> in_place (Some v) | Rhs \<Rightarrow> unexpect e)"


text \<open>
  The same two types show the limit: copying an error that is too large over a handle leaves an object
  that cannot be destroyed.
\<close>

lemma expected_assign_breaks:
  "\<exists>s'. assign_copy handle_type (buffer_type 1) (value_and_error 7 [1, 2]) = Some (Inl (Std_exn ''std::bad_alloc''), s')
    \<and> destroy_expected handle_type This s' = None"
  by (simp add: assign_copy_def destroy_expected_def expected_defs value_and_error_def in_place_def unexpect_def
      handle_type_def buffer_type_def)

end
