(* ===== verification/Backtrace.thy ===== *)
theory Backtrace
  imports Json_Roundtrip
begin

text \<open>
  Crash handlers, \<^verbatim>\<open>src/src/backtrace.cpp\<close> (Linux): a signal handler that attaches a debugger to the
  process and raises the signal again. The system calls are a log; what they return is an input, the
  record \<open>os\<close>. Writing outside an array is undefined, \<open>None\<close>.
\<close>

section \<open>The system\<close>

record os =
  os_pid :: int
  os_readlink :: "64 word"
  os_exe :: string
  os_fork :: int
  os_jitdebug :: "string option"

datatype syscall =
  Prctl_set_ptracer | Fork | Dup2 int int | Write_stderr string | Execv string "string list" | Exit_now int
| Waitpid int | Raise int

text \<open>
  \<open>readlink\<close> returns a \<open>ssize_t\<close>: the number of bytes it has stored, at most the 511 it was given room
  for, or -1.
\<close>

definition readlink_result :: "os \<Rightarrow> bool" where
  "readlink_result w \<longleftrightarrow> os_readlink w = - 1 \<or> (os_readlink w = of_nat (length (os_exe w)) \<and> length (os_exe w) \<le> 511)"

text \<open>The static arrays \<open>binpath[512]\<close> and \<open>pid_s[11]\<close>.\<close>

record statics =
  binpath :: string
  pid_s :: string

definition statics_init :: statics where
  "statics_init = \<lparr>binpath = replicate 512 (CHR 0x00), pid_s = replicate 11 (CHR 0x00)\<rparr>"

text \<open>The text in a character array, and storing a text with its terminator.\<close>

definition c_str :: "string \<Rightarrow> string" where
  "c_str b = takeWhile (\<lambda>c. c \<noteq> CHR 0x00) b"

definition store :: "string \<Rightarrow> string \<Rightarrow> string option" where
  "store t b = (if length t \<le> length b then Some (t @ drop (length t) b) else None)"

definition store_at :: "nat \<Rightarrow> char \<Rightarrow> string \<Rightarrow> string option" where
  "store_at i c b = (if i < length b then Some (b[i := c]) else None)"

section \<open>The handlers\<close>

definition backtrace_msg :: "string \<Rightarrow> string \<Rightarrow> syscall list" where
  "backtrace_msg m arg = [Write_stderr m, Write_stderr arg, Write_stderr [CHR 0x0A]]"

text \<open>
  The result of \<open>readlink\<close> is kept in a \<open>size_t\<close>, which is never less than 0: the early return of the code
  is never taken.
\<close>

definition get_pid_binpath :: "os \<Rightarrow> statics \<Rightarrow> statics option" where
  "get_pid_binpath w m =
     (case store (show_int (os_pid w) @ [CHR 0x00]) (pid_s m) of
        None \<Rightarrow> None
      | Some p \<Rightarrow>
          let m = m\<lparr>pid_s := p\<rparr>;
              ret = os_readlink w;
              m = (if ret = - 1 then m else m\<lparr>binpath := take 511 (os_exe w) @ drop (length (take 511 (os_exe w))) (binpath m)\<rparr>)
          in if ret < 0 then Some m
             else (case store_at (unat ret) (CHR 0x00) (binpath m) of
                     None \<Rightarrow> None | Some b \<Rightarrow> Some (m\<lparr>binpath := b\<rparr>)))"

definition lldb :: string where "lldb = ''/usr/bin/lldb''"
definition default_debugger :: string where "default_debugger = ''/usr/bin/gdb''"
definition default_remote_debugger :: string where "default_remote_debugger = ''/usr/bin/gdbserver''"

definition get_debugger :: "os \<Rightarrow> string" where
  "get_debugger w = (case os_jitdebug w of
     None \<Rightarrow> default_debugger
   | Some d \<Rightarrow> if d = ''on'' then default_debugger
       else if d = ''1'' then default_debugger
       else if d = ''true'' then default_debugger
       else d)"

definition get_remote_debugger :: "os \<Rightarrow> string" where
  "get_remote_debugger w = (case os_jitdebug w of
     None \<Rightarrow> default_remote_debugger
   | Some d \<Rightarrow> if d = ''on'' then default_remote_debugger
       else if d = ''1'' then default_remote_debugger
       else if d = ''true'' then default_remote_debugger
       else d)"

text \<open>
  The calls of the process in which \<open>fork\<close> returned \<open>os_fork\<close>, and whether \<open>start_debugger\<close> returns there. In the
  child a successful \<open>execv\<close> does not return; the call after it is for one that failed.
\<close>

definition start_debugger :: "os \<Rightarrow> string \<Rightarrow> string list \<Rightarrow> syscall list \<times> bool" where
  "start_debugger w dbg argv =
     (if os_fork w = 0 then
        ([Prctl_set_ptracer, Fork, Dup2 2 1] @ backtrace_msg ''debugging with '' dbg @ [Execv dbg argv, Exit_now 1], False)
      else ([Prctl_set_ptracer, Fork, Waitpid (os_fork w)], True))"

datatype crash_handler = Sighdl_debugger | Sighdl_remote_debugger | Sighdl_backtrace

text \<open>The program and the arguments of each handler, the terminating null pointer left out.\<close>

definition sighdl_debugger_argv :: "os \<Rightarrow> statics \<Rightarrow> string \<times> string list" where
  "sighdl_debugger_argv w m = (get_debugger w, [get_debugger w, ''--pid'', c_str (pid_s m)])"

definition sighdl_remote_debugger_argv :: "os \<Rightarrow> statics \<Rightarrow> string \<times> string list" where
  "sighdl_remote_debugger_argv w m =
     (get_remote_debugger w,
      [get_remote_debugger w, ''--attach'', ''[::1]:7777'', c_str (pid_s m), ''-ex'', ''continue''])"

definition sighdl_backtrace_argv :: "os \<Rightarrow> statics \<Rightarrow> string \<times> string list" where
  "sighdl_backtrace_argv w m =
     (lldb, [lldb, ''--batch'', ''-p'', c_str (pid_s m), ''--one-line'', ''bt'', c_str (binpath m)])"

fun handler_argv :: "crash_handler \<Rightarrow> os \<Rightarrow> statics \<Rightarrow> string \<times> string list" where
  "handler_argv Sighdl_debugger = sighdl_debugger_argv"
| "handler_argv Sighdl_remote_debugger = sighdl_remote_debugger_argv"
| "handler_argv Sighdl_backtrace = sighdl_backtrace_argv"

text \<open>All three handlers: the static arrays, the debugger, and the signal again.\<close>

definition run_handler :: "os \<Rightarrow> crash_handler \<Rightarrow> int \<Rightarrow> statics \<Rightarrow> (statics \<times> syscall list) option" where
  "run_handler w h no m = (case get_pid_binpath w m of
     None \<Rightarrow> None
   | Some m \<Rightarrow> (case handler_argv h w m of (dbg, argv) \<Rightarrow>
       case start_debugger w dbg argv of (calls, returns) \<Rightarrow>
         Some (m, calls @ (if returns then [Raise no] else []))))"

section \<open>Installation\<close>

text \<open>
  The process: the actions installed for signals, all with \<open>SA_RESETHAND\<close>, the arrays, the calls made, and
  whether a default action has ended it.
\<close>

record process =
  p_actions :: "(int \<times> crash_handler) list"
  p_statics :: statics
  p_calls :: "syscall list"
  p_over :: bool

definition process_init :: process where
  "process_init = \<lparr>p_actions = [], p_statics = statics_init, p_calls = [], p_over = False\<rparr>"

definition sigbus :: int where "sigbus = 7"
definition sigsegv :: int where "sigsegv = 11"
definition sigabrt :: int where "sigabrt = 6"
definition sigfpe :: int where "sigfpe = 8"

definition crash_signals :: "int list" where
  "crash_signals = [sigbus, sigsegv, sigabrt, sigfpe]"

definition sigaction :: "int \<Rightarrow> crash_handler \<Rightarrow> process \<Rightarrow> process" where
  "sigaction no h p = p\<lparr>p_actions := (no, h) # filter (\<lambda>(n, _). n \<noteq> no) (p_actions p)\<rparr>"

definition install_crash_handler :: "crash_handler \<Rightarrow> process \<Rightarrow> process" where
  "install_crash_handler h p = fold (\<lambda>no. sigaction no h) crash_signals p"

definition install_debugger :: "process \<Rightarrow> process" where
  "install_debugger = install_crash_handler Sighdl_debugger"

definition install_remote_debugger :: "process \<Rightarrow> process" where
  "install_remote_debugger = install_crash_handler Sighdl_remote_debugger"

definition install_backtrace :: "process \<Rightarrow> process" where
  "install_backtrace = install_crash_handler Sighdl_backtrace"

definition install_jitdebugger :: "os \<Rightarrow> process \<Rightarrow> process" where
  "install_jitdebugger w p = (case os_jitdebug w of Some _ \<Rightarrow> install_debugger p | None \<Rightarrow> install_backtrace p)"

section \<open>A crash\<close>

text \<open>
  Delivery of a signal, as the system documents it: the default action ends the process; an action with
  \<open>SA_RESETHAND\<close> is removed before its handler runs, and a signal raised by the handler is delivered when it
  returns. \<open>None\<close> means that the handler did something undefined.
\<close>

function deliver :: "os \<Rightarrow> int \<Rightarrow> process \<Rightarrow> process option" where
  "deliver w no p = (case map_of (p_actions p) no of
     None \<Rightarrow> Some (p\<lparr>p_over := True\<rparr>)
   | Some h \<Rightarrow> (case run_handler w h no (p_statics p) of
       None \<Rightarrow> None
     | Some (m, calls) \<Rightarrow>
         let p = p\<lparr>p_actions := filter (\<lambda>(n, _). n \<noteq> no) (p_actions p), p_statics := m, p_calls := p_calls p @ calls\<rparr>
         in if Raise no \<in> set calls then deliver w no p else Some p))"
  by pat_completeness auto

lemma filter_shorter: "map_of xs k = Some v \<Longrightarrow> length (filter (\<lambda>(n, _). n \<noteq> k) xs) < length xs"
  by (induction xs) (auto split: if_splits simp: less_Suc_eq_le)

termination deliver
  by (relation "measure (\<lambda>(w, no, p). length (p_actions p))") (auto simp: filter_shorter)

declare deliver.simps [simp del]

section \<open>Properties\<close>

lemma c_str_append: "CHR 0x00 \<notin> set t \<Longrightarrow> c_str (t @ CHR 0x00 # x) = t"
  by (induction t) (auto simp: c_str_def)

lemma pid_text:
  assumes "0 \<le> i" "i < 2 ^ 31"
  shows "length (show_int i) \<le> 10" "CHR 0x00 \<notin> set (show_int i)"
proof -
  have "nat i < 10 ^ 10" using assms by simp
  then have "length (show_nat (nat i)) \<le> 10" by (rule length_show_nat) simp
  with assms(1) show "length (show_int i) \<le> 10" by (simp add: show_int_def)
  have "\<forall>c \<in> set (show_nat (nat i)). is_digit c" by (rule show_nat_digits)
  with assms(1) show "CHR 0x00 \<notin> set (show_int i)" by (auto simp: show_int_def is_digit_def)
qed

text \<open>The arrays have the sizes they are declared with.\<close>

definition statics_ok :: "statics \<Rightarrow> bool" where
  "statics_ok m \<longleftrightarrow> length (binpath m) = 512 \<and> length (pid_s m) = 11"

lemma statics_init_ok [simp]: "statics_ok statics_init"
  by (simp add: statics_ok_def statics_init_def)

lemma unat_minus_one_64: "unat (- 1 :: 64 word) = 2 ^ 64 - 1"
  by (simp add: unsigned_minus_1_eq_mask mask_eq_exp_minus_1)

lemma binpath_text:
  assumes "length (b :: string) = 512" "length t \<le> 511"
  shows "(t @ drop (length t) b)[length t := CHR 0x00] = t @ CHR 0x00 # drop (Suc (length t)) b"
proof -
  have "drop (length t) b = b ! length t # drop (Suc (length t)) b"
    using assms by (intro Cons_nth_drop_Suc [symmetric]) simp
  then show ?thesis by simp
qed

lemma get_pid_binpath_eq:
  assumes "0 \<le> os_pid w" "os_pid w < 2 ^ 31" "readlink_result w" "statics_ok m"
  shows "get_pid_binpath w m =
    (if os_readlink w = - 1 then None
     else Some \<lparr>binpath = os_exe w @ CHR 0x00 # drop (Suc (length (os_exe w))) (binpath m),
       pid_s = show_int (os_pid w) @ CHR 0x00 # drop (Suc (length (show_int (os_pid w)))) (pid_s m)\<rparr>)"
proof -
  have b: "length (binpath m) = 512" "length (pid_s m) = 11" using assms(4) by (simp_all add: statics_ok_def)
  have p: "store (show_int (os_pid w) @ [CHR 0x00]) (pid_s m)
      = Some (show_int (os_pid w) @ CHR 0x00 # drop (Suc (length (show_int (os_pid w)))) (pid_s m))"
    using pid_text(1) [OF assms(1,2)] b by (simp add: store_def)
  show ?thesis
  proof (cases "os_readlink w = - 1")
    case True
    with p b show ?thesis by (simp add: get_pid_binpath_def store_at_def unat_minus_one_64)
  next
    case False
    then have r: "os_readlink w = of_nat (length (os_exe w))" "length (os_exe w) \<le> 511"
      using assms(3) by (simp_all add: readlink_result_def)
    then have u: "unat (os_readlink w) = length (os_exe w)" by (simp add: unat_of_nat)
    with False p b r binpath_text [OF b(1) r(2)] show ?thesis
      by (cases m) (simp add: get_pid_binpath_def store_at_def Let_def)
  qed
qed

text \<open>
  C40. The fixed arrays of the crash handlers are large enough: the number of every process fits into its
  eleven characters, and the path of the program, cut to 511 characters, into its 512; both are then
  read back as texts. Only a \<open>readlink\<close> that fails is not handled: the index is then the largest
  number there is, and the write is outside the array.
\<close>

theorem crash_arrays_fit:
  assumes "0 \<le> os_pid w" "os_pid w < 2 ^ 31" "readlink_result w" "statics_ok m" "CHR 0x00 \<notin> set (os_exe w)"
  shows "if os_readlink w = - 1 then get_pid_binpath w m = None
    else \<exists>m'. get_pid_binpath w m = Some m' \<and> statics_ok m'
      \<and> c_str (pid_s m') = show_int (os_pid w) \<and> c_str (binpath m') = os_exe w"
proof -
  have "c_str (show_int (os_pid w) @ CHR 0x00 # x) = show_int (os_pid w)" "c_str (os_exe w @ CHR 0x00 # y) = os_exe w" for x y
    using c_str_append pid_text(2) [OF assms(1,2)] assms(5) by simp_all
  then show ?thesis
    using get_pid_binpath_eq [OF assms(1-4)] pid_text(1) [OF assms(1,2)] assms(3,4)
    by (auto simp: statics_ok_def readlink_result_def)
qed

definition demo_os :: "64 word \<Rightarrow> os" where
  "demo_os r = \<lparr>os_pid = 2147483647, os_readlink = r, os_exe = ''/bin/x'', os_fork = 42, os_jitdebug = None\<rparr>"

theorem crash_arrays_fit_witness:
  "get_pid_binpath (demo_os (- 1)) statics_init = None
   \<and> (\<exists>m'. get_pid_binpath (demo_os 6) statics_init = Some m' \<and> c_str (pid_s m') = show_int 2147483647 \<and> c_str (binpath m') = ''/bin/x'')"
  using crash_arrays_fit [of "demo_os (- 1)" statics_init] crash_arrays_fit [of "demo_os 6" statics_init]
  by (auto simp: demo_os_def readlink_result_def)

text \<open>
  A crash is debugged once and then ends the process: the handler starts its debugger, waits for it and
  raises the signal, whose action was reset when it was delivered.
\<close>

lemma map_of_installed:
  "no \<in> set crash_signals \<Longrightarrow> map_of (p_actions (install_crash_handler h p)) no = Some h"
  by (auto simp: install_crash_handler_def crash_signals_def sigaction_def sigbus_def sigsegv_def sigabrt_def sigfpe_def)

lemma map_of_reset: "map_of (filter (\<lambda>(n, _). n \<noteq> k) xs) k = None"
  by (induction xs) auto

lemma install_simps [simp]:
  "p_statics (install_crash_handler h p) = p_statics p" "p_calls (install_crash_handler h p) = p_calls p"
  by (simp_all add: install_crash_handler_def crash_signals_def sigaction_def)

lemma crash_debugged_once:
  assumes "0 \<le> os_pid w" "os_pid w < 2 ^ 31" "readlink_result w" "os_readlink w \<noteq> - 1" "os_fork w \<noteq> 0"
    "no \<in> set crash_signals"
  shows "\<exists>p'. deliver w no (install_crash_handler h process_init) = Some p' \<and> p_over p'
    \<and> p_calls p' = [Prctl_set_ptracer, Fork, Waitpid (os_fork w), Raise no]"
proof -
  have "\<exists>m'. run_handler w h no statics_init = Some (m', [Prctl_set_ptracer, Fork, Waitpid (os_fork w), Raise no])"
    using get_pid_binpath_eq [OF assms(1-3) statics_init_ok] assms(4,5)
    by (simp add: run_handler_def start_debugger_def split: prod.splits)
  then show ?thesis
    using map_of_installed [OF assms(6), of h process_init]
    by (auto simp: deliver.simps [of w no "install_crash_handler h process_init"] deliver.simps [of w no]
        process_init_def map_of_reset Let_def)
qed

end
