(* ===== verification/Spec2Isabelle.thy ===== *)
theory Spec2Isabelle
  imports Actor_Messages Cbor_Value Json_Sound Json_Roundtrip Codec_Tests Message_Types Timers Socket
    Endpoint_Props Hub Trace Debug_Mode Network C_Actor Unx_Files Expected Backtrace
begin

text \<open>
  A verification development for thespian, an actor library in C++.

  \<^bold>\<open>The program.\<close> Programs are made of actors. An actor has a queue of messages, CBOR values, and a
  receiver that is called with one message at a time; actors send messages, spawn actors, link to
  each other and exit. An executor over the asio library runs them. Around the core there are
  objects an actor uses to talk to the world (timers, signals, sockets), actors that carry messages
  over sockets (endpoints), a publish/subscribe hub, trace files and a debug console.

  \<^bold>\<open>What models what.\<close>

  \<^item> \<open>Prelude\<close>, \<open>Effects\<close>: byte strings and decoders as functions that return a value and the rest or
    an exception; computations that change a state and may throw, with the state kept when they do;
    ordered maps.
  \<^item> \<open>Cbor_Encode\<close>, \<open>Cbor_Decode\<close>, \<open>Soft_Float\<close>, \<open>Cbor_Match\<close>, \<open>Cbor_Iter\<close>: \<^verbatim>\<open>src/src/cbor.cpp\<close> and
    \<^verbatim>\<open>src/include/cbor/cbor.hpp\<close>, one definition per function, in the order of the code. Integers
    are 64-bit words, floating point numbers the bits of their IEEE format, with the conversions of
    the standard library in \<open>Soft_Float\<close>. A pattern is a value of
    a datatype, what an extractor writes is a list of extracted values. \<open>Stream_Decoder\<close> states what
    a decoder of a stream promises as a locale; \<open>Cbor_Value\<close> gives the abstract values \<open>cval\<close> and
    their encoding.
  \<^item> \<open>Json_Parse\<close>, \<open>Json_Print\<close>: the JSON reader and writer of \<^verbatim>\<open>cbor.cpp\<close>.
  \<^item> \<open>Env\<close>: \<^verbatim>\<open>src/include/thespian/env.hpp\<close> and the channels of \<^verbatim>\<open>trace.hpp\<close>.
  \<^item> \<open>Actor\<close>: the core of \<^verbatim>\<open>src/src/instance.cpp\<close>. \<open>sys\<close> is the context with all its instances, \<open>actor\<close>
    is \<open>struct instance\<close>, a handle is an address and an id, expired when no instance is at the
    address. Behaviours and receivers are programs, a datatype with one constructor per function of
    the interface, and \<open>exec\<close> runs them. \<open>run\<close>, \<open>handle_exit\<close>, \<open>queue\<close>, \<open>instance_spawn\<close> and the others are
    the functions of the same names. \<open>Actor_Step\<close> has the step relation: a step runs one task of one
    actor, or acts from outside. \<open>Actor_Queue\<close> follows the queues through a run; \<open>posted\<close> in \<open>sys\<close> is the
    history of what they accept. \<open>Actor_Fair\<close> has executions, infinite sequences of steps, and when
    the executor is fair to an actor. \<open>Actor_Demo\<close> has small systems.
  \<^item> \<open>Io\<close>: what the input/output objects share. An object is a record with a list of the effects it
    had (messages to its owner, operations started); the completion of an operation is an input.
    \<open>Timers\<close>, \<open>Socket\<close>, \<open>Net\<close>, \<open>File_Stream\<close>, \<open>Endpoint\<close> follow \<^verbatim>\<open>instance.cpp\<close> from \<open>signal_impl\<close> to \<open>endpoint::unx\<close>.
  \<^item> \<open>Message\<close>, \<open>Message_Types\<close>: matching of messages that are built from parameters, and which types of
    parameters an extractor accepts.
  \<^item> \<open>Hub\<close>: \<^verbatim>\<open>src/src/hub.cpp\<close>. \<open>Trace\<close>: \<^verbatim>\<open>src/src/trace.cpp\<close>. \<open>Executor\<close>, \<open>Executor_Objects\<close>:
    \<^verbatim>\<open>src/src/executor_asio.cpp\<close>, the asynchronous operations, strands and counters, and the objects with
    the descriptors they hold, contexts and threads.
  \<^item> \<open>Debug_Console\<close>: \<open>namespace debug::tcp\<close> of \<^verbatim>\<open>instance.cpp\<close>; the registry and the taps it uses are
    in \<open>Actor\<close>.
  \<^item> \<open>C_Api\<close>, \<open>C_Actor\<close>: \<^verbatim>\<open>src/src/c\<close>, the guarded functions on objects, results as pointers to thread-local
    buffers, handles, spawning, environments; what an actor calls about itself, contexts, traces.
  \<^item> \<open>Unx_Files\<close>: the file of a Unix socket on a file system that several acceptors of \<open>Net\<close> share, with one
    system call of one acceptor per step.
  \<^item> \<open>Expected\<close>: \<^verbatim>\<open>src/include/thespian/expected.hpp\<close>, the type of results, as a union with lifetimes: what
    the other theories write as a sum is the content of such an object.
  \<^item> \<open>Backtrace\<close>: \<^verbatim>\<open>src/src/backtrace.cpp\<close>, crash handlers over a log of system calls.

  \<^bold>\<open>What is shown.\<close>

  \<^item> The codec: skipping is exact on encoded values and reports every proper prefix as too short
    (\<open>Cbor_Value\<close>), matching bytes is matching values, iteration visits each element once, JSON text
    is read atomically (\<open>Json_Sound\<close>) and printing and reading are inverse on the values of
    \<open>json_value\<close> (\<open>Json_Roundtrip\<close>). What is sent is what is received (\<open>Message_Types\<close>).
    \<open>Codec_Tests\<close> evaluates the checks of \<^verbatim>\<open>src/test/cbor_match.cpp\<close> on the model.
  \<^item> The actors (\<open>Actor_Frame\<close>, \<open>Actor_Inv\<close>, \<open>Actor_Run\<close>, \<open>Actor_Step\<close>; properties in \<open>Actor_Props\<close> and
    \<open>Actor_Messages\<close>): an invariant of every reachable system, delivery,
    spawning, links, the propagation of exits and exceptions, and that a stopped actor is inert.
    Over executions (\<open>Actor_Fair\<close>): every actor runs its messages in the order in which they were
    queued, and under fairness every queued message is run, and an actor that is linked to one that
    exits stops.
    The locale \<open>state_order\<close> and those that extend it carry a relation between states through every
    operation of the interface (\<open>sys_order\<close>) and through \<open>run\<close> (\<open>run_order\<close>), and are interpreted for each
    relation that is needed.
  \<^item> The objects: one message per timeout, ticks without drift, byte streams in order (the locale
    \<open>byte_stream\<close>, interpreted by the socket), accept loops, removal of socket files.
  \<^item> Endpoints: framing does not depend on how the network cuts the bytes (from the stream decoder
    locale, interpreted by \<open>extract_range\<close>), and connectors retry a bounded number of times. \<open>Network\<close>
    composes the connection and the socket at one end, any network that keeps the order of bytes, and
    the connection at the other end: messages arrive whole and in order.
  \<^item> The C interface: errors survive it when they are used at once; which texts of the last error can
    still be read.
  \<^item> Files and descriptors: which Unix acceptors keep their file whatever the others do, and how a file can
    be lost; descriptors are closed once and not leaked.
  \<^item> Results: when assignment keeps both objects well-formed, and when it does not; swap, comparison and chaining on every case. Crash handlers: the fixed arrays are large enough.
  \<^item> Hub, trace files, executor and console: order, exactly-once and counting properties, each over
    every interleaving of the steps of the component. A console in JSON mode writes nothing but JSON
    lines (\<open>Debug_Mode\<close>).

  \<^bold>\<open>Bounds.\<close> No definition uses fuel. Loops are recursions with a termination proof, on the bytes that
  remain; the length of a text or of a buffer is assumed to be less than \<open>2 ^ 64\<close> where it is encoded
  in a header. Memory is not bounded.

  \<^bold>\<open>Not modelled.\<close> The asio library and the operating system are inputs of the model (error codes,
  counts, addresses, the order of completions); the four counters at the head of a trace record are
  left out of the log. Trace handlers are code of the user and their calls are recorded in \<open>log\<close>; runs in
  which one throws are not modelled for the actors (\<open>Trace\<close> has them for the files). Threads are interleavings of steps:
  the memory model is not modelled. Left out are the Zig
  code, the headers that only declare, the Windows variants of the functions on socket files, and of
  \<^verbatim>\<open>expected.hpp\<close> the traits that select overloads.
\<close>

end
